(* ===== verification/Prelude.thy ===== *)
theory Prelude
  imports Main "HOL-Library.Word"
begin

text \<open>
  Shared foundations of the development: names for the C integer types, the
  result type of firmware code that can be left by a \<^verbatim>\<open>shutdown()\<close> long jump,
  a weakest-precondition calculus for it, and generic lemmas about lists,
  words and the 32-bit modular clock.
\<close>

unbundle bit_operations_syntax

type_synonym u8 = "8 word"
type_synonym u16 = "16 word"
type_synonym u32 = "32 word"
type_synonym u64 = "64 word"

named_theorems prog_defs \<open>definitions of the program combinators\<close>
named_theorems wp_simps \<open>weakest-precondition rewrite rules\<close>

section \<open>Firmware code as state transformers\<close>

text \<open>
  A piece of firmware code maps the state it starts in to
  \<^item> \<open>Some (Inr v, s')\<close>: it returned \<open>v\<close> in state \<open>s'\<close>;
  \<^item> \<open>Some (Inl msg, s')\<close>: it executed \<^verbatim>\<open>shutdown(msg)\<close> in state \<open>s'\<close>
    (\<^verbatim>\<open>sched_shutdown()\<close> is a \<^verbatim>\<open>longjmp\<close>: the writes made before it stay);
  \<^item> \<open>None\<close>: it does not return, because it dereferenced a null pointer or
    loops for ever.
\<close>

type_synonym ('s, 'a) prog = "'s \<Rightarrow> ((string + 'a) \<times> 's) option"

definition ret :: "'a \<Rightarrow> ('s, 'a) prog" where
  "ret x s = Some (Inr x, s)"

definition bnd :: "('s, 'a) prog \<Rightarrow> ('a \<Rightarrow> ('s, 'b) prog) \<Rightarrow> ('s, 'b) prog" where
  "bnd m f s =
     (case m s of
        None \<Rightarrow> None
      | Some (Inl e, s') \<Rightarrow> Some (Inl e, s')
      | Some (Inr v, s') \<Rightarrow> f v s')"

definition sq :: "('s, 'a) prog \<Rightarrow> ('s, 'b) prog \<Rightarrow> ('s, 'b) prog" where
  "sq m n = bnd m (\<lambda>_. n)"

definition shutdown :: "string \<Rightarrow> ('s, 'a) prog" where
  "shutdown msg s = Some (Inl msg, s)"

definition stuck :: "('s, 'a) prog" where
  "stuck s = None"

definition gets :: "('s \<Rightarrow> 'a) \<Rightarrow> ('s, 'a) prog" where
  "gets f s = Some (Inr (f s), s)"

definition upd :: "('s \<Rightarrow> 's) \<Rightarrow> ('s, unit) prog" where
  "upd f s = Some (Inr (), f s)"

definition whenp :: "bool \<Rightarrow> ('s, unit) prog \<Rightarrow> ('s, unit) prog" where
  "whenp c m = (if c then m else ret ())"

text \<open>A pointer read: a null pointer gets stuck.\<close>

definition deref :: "'a option \<Rightarrow> ('s, 'a) prog" where
  "deref p = (case p of None \<Rightarrow> stuck | Some x \<Rightarrow> ret x)"

text \<open>A state reader that may not return (a pointer-chasing loop).\<close>

definition from_opt :: "('s \<Rightarrow> 'a option) \<Rightarrow> ('s, 'a) prog" where
  "from_opt f s = (case f s of None \<Rightarrow> None | Some v \<Rightarrow> Some (Inr v, s))"

lemmas [prog_defs] = ret_def bnd_def sq_def shutdown_def stuck_def gets_def upd_def
  whenp_def deref_def from_opt_def

section \<open>Weakest preconditions\<close>

text \<open>
  \<open>wp m Q E s\<close>: started in \<open>s\<close>, the code \<open>m\<close> does finish, a normal return
  satisfies \<open>Q\<close> and a shutdown satisfies \<open>E\<close>.  It is a total-correctness notion:
  code that gets stuck satisfies no \<open>wp\<close>.
\<close>

definition wp :: "('s, 'a) prog \<Rightarrow> ('a \<Rightarrow> 's \<Rightarrow> bool) \<Rightarrow> (string \<Rightarrow> 's \<Rightarrow> bool) \<Rightarrow> 's \<Rightarrow> bool" where
  "wp m Q E s =
     (case m s of
        None \<Rightarrow> False
      | Some (Inl e, s') \<Rightarrow> E e s'
      | Some (Inr v, s') \<Rightarrow> Q v s')"

lemma wp_ret [wp_simps]: "wp (ret x) Q E s = Q x s"
  by (simp add: wp_def ret_def)

lemma wp_ret_fun [wp_simps]: "wp (ret x) Q E = Q x"
  by (rule ext) (rule wp_ret)

lemma wp_bnd [wp_simps]: "wp (bnd m f) Q E s = wp m (\<lambda>v. wp (f v) Q E) E s"
  by (auto simp: wp_def bnd_def split: option.splits sum.splits)

lemma wp_bnd_fun [wp_simps]: "wp (bnd m f) Q E = wp m (\<lambda>v. wp (f v) Q E) E"
  by (rule ext) (rule wp_bnd)

lemma wp_sq [wp_simps]: "wp (sq m n) Q E s = wp m (\<lambda>_. wp n Q E) E s"
  by (simp add: sq_def wp_bnd)

lemma wp_sq_fun [wp_simps]: "wp (sq m n) Q E = wp m (\<lambda>_. wp n Q E) E"
  by (rule ext) (rule wp_sq)

lemma wp_shutdown [wp_simps]: "wp (shutdown msg) Q E s = E msg s"
  by (simp add: wp_def shutdown_def)

lemma wp_stuck [wp_simps]: "wp stuck Q E s = False"
  by (simp add: wp_def stuck_def)

lemma wp_gets [wp_simps]: "wp (gets f) Q E s = Q (f s) s"
  by (simp add: wp_def gets_def)

lemma wp_upd [wp_simps]: "wp (upd f) Q E s = Q () (f s)"
  by (simp add: wp_def upd_def)

lemma wp_whenp [wp_simps]: "wp (whenp c m) Q E s = (if c then wp m Q E s else Q () s)"
  by (simp add: whenp_def wp_ret)

lemma wp_deref [wp_simps]: "wp (deref p) Q E s = (\<exists>x. p = Some x \<and> Q x s)"
  by (cases p) (simp_all add: deref_def wp_stuck wp_ret)

lemma wp_from_opt [wp_simps]: "wp (from_opt f) Q E s = (\<exists>v. f s = Some v \<and> Q v s)"
  by (cases "f s") (simp_all add: wp_def from_opt_def)

lemma wp_if [wp_simps]:
  "wp (if c then m else n) Q E s = (if c then wp m Q E s else wp n Q E s)"
  by simp

lemma wp_Let [wp_simps]: "wp (Let x f) Q E s = wp (f x) Q E s"
  by simp

lemma wp_mono:
  assumes "wp m Q E s"
    and "\<And>v s'. Q v s' \<Longrightarrow> Q' v s'"
    and "\<And>e s'. E e s' \<Longrightarrow> E' e s'"
  shows "wp m Q' E' s"
  using assms by (auto simp: wp_def split: option.splits sum.splits)

lemma wp_conj:
  "wp m Q E s \<Longrightarrow> wp m Q' E' s \<Longrightarrow> wp m (\<lambda>v s. Q v s \<and> Q' v s) (\<lambda>e s. E e s \<and> E' e s) s"
  by (auto simp: wp_def split: option.splits sum.splits)

lemma wp_ok: "m s = Some (Inr v, s') \<Longrightarrow> wp m Q E s = Q v s'"
  by (simp add: wp_def)

lemma wp_fail: "m s = Some (Inl e, s') \<Longrightarrow> wp m Q E s = E e s'"
  by (simp add: wp_def)

lemma wp_exec: "wp m Q E s \<longleftrightarrow>
    (\<exists>v s'. m s = Some (Inr v, s') \<and> Q v s') \<or> (\<exists>e s'. m s = Some (Inl e, s') \<and> E e s')"
  by (auto simp: wp_def split: option.splits sum.splits)

text \<open>
  Loops: the body returns \<open>Inl a\<close> to go on with \<open>a\<close> and \<open>Inr b\<close> to leave with
  \<open>b\<close>.  A loop that never ends has no result.
\<close>

partial_function (option) loopp :: "('a \<Rightarrow> ('s, 'a + 'b) prog) \<Rightarrow> 'a \<Rightarrow> ('s, 'b) prog" where
  "loopp body a s =
     (case body a s of
        None \<Rightarrow> None
      | Some (r, s') \<Rightarrow>
          (case r of
             Inl e \<Rightarrow> Some (Inl e, s')
           | Inr c \<Rightarrow> (case c of Inl a' \<Rightarrow> loopp body a' s' | Inr b \<Rightarrow> Some (Inr b, s'))))"

lemma wp_loopp_unfold:
  "wp (loopp body a) Q E s =
     wp (body a) (\<lambda>r s'. case r of Inl a' \<Rightarrow> wp (loopp body a') Q E s' | Inr b \<Rightarrow> Q b s') E s"
proof -
  have "loopp body a s = (case body a s of None \<Rightarrow> None | Some (r, s') \<Rightarrow>
      (case r of Inl e \<Rightarrow> Some (Inl e, s') | Inr c \<Rightarrow> (case c of Inl a' \<Rightarrow> loopp body a' s' | Inr b \<Rightarrow> Some (Inr b, s'))))"
    by (rule loopp.simps)
  then show ?thesis
    unfolding wp_def [of "loopp body a"] wp_def [of "body a"] by (simp add: wp_def split: option.split sum.split)
qed

text \<open>A loop rule with an invariant and a decreasing measure.\<close>

lemma wp_loopp:
  assumes "I a s"
    and "\<And>a s. I a s \<Longrightarrow>
      wp (body a) (\<lambda>r s'. case r of Inl a' \<Rightarrow> I a' s' \<and> m a' s' < (m a s :: nat) | Inr b \<Rightarrow> Q b s') E s"
  shows "wp (loopp body a) Q E s"
  using assms(1)
proof (induction "m a s" arbitrary: a s rule: less_induct)
  case less
  show ?case
    by (subst wp_loopp_unfold, rule wp_mono [OF assms(2) [OF less.prems]])
      (auto split: sum.splits intro: less.hyps)
qed

text \<open>
  \<open>keeps P m\<close>: whatever way \<open>m\<close> is left, by a return or a shutdown, \<open>P\<close> survives;
  \<open>total m\<close>: it is always left.
\<close>

definition keeps :: "('s \<Rightarrow> bool) \<Rightarrow> ('s, 'a) prog \<Rightarrow> bool" where
  "keeps P m \<longleftrightarrow> (\<forall>s r s'. P s \<longrightarrow> m s = Some (r, s') \<longrightarrow> P s')"

definition total :: "('s, 'a) prog \<Rightarrow> bool" where
  "total m \<longleftrightarrow> (\<forall>s. m s \<noteq> None)"

named_theorems keeps_intros \<open>preservation rules for the program combinators\<close>

lemma keepsD: "keeps P m \<Longrightarrow> P s \<Longrightarrow> m s = Some (r, s') \<Longrightarrow> P s'"
  by (auto simp: keeps_def)

lemma keeps_ret [keeps_intros]: "keeps P (ret x)"
  by (simp add: keeps_def ret_def)

lemma keeps_bnd_post:
  assumes m: "keeps P m" and f: "\<And>x s s'. m s = Some (Inr x, s') \<Longrightarrow> keeps P (f x)"
  shows "keeps P (bnd m f)"
  unfolding keeps_def
proof (intro allI impI)
  fix s r s'
  assume P: "P s" and run: "bnd m f s = Some (r, s')"
  then obtain v t where v: "m s = Some (v, t)" by (cases "m s") (auto simp: bnd_def)
  with m P have "P t" by (rule keepsD)
  then show "P s'" using run v f by (cases v) (auto simp: bnd_def dest: keepsD)
qed

lemma keeps_bnd [keeps_intros]: "keeps P m \<Longrightarrow> (\<And>x. keeps P (f x)) \<Longrightarrow> keeps P (bnd m f)"
  by (rule keeps_bnd_post)

lemma keeps_sq [keeps_intros]: "keeps P m \<Longrightarrow> keeps P n \<Longrightarrow> keeps P (sq m n)"
  by (simp add: sq_def keeps_bnd)

lemma keeps_shutdown [keeps_intros]: "keeps P (shutdown e)"
  by (simp add: keeps_def shutdown_def)

lemma keeps_stuck [keeps_intros]: "keeps P stuck"
  by (simp add: keeps_def stuck_def)

lemma keeps_gets [keeps_intros]: "keeps P (gets f)"
  by (simp add: keeps_def gets_def)

lemma keeps_upd: "(\<And>s. P s \<Longrightarrow> P (f s)) \<Longrightarrow> keeps P (upd f)"
  by (simp add: keeps_def upd_def)

lemma keeps_whenp [keeps_intros]: "keeps P m \<Longrightarrow> keeps P (whenp c m)"
  by (simp add: whenp_def keeps_ret)

lemma keeps_deref [keeps_intros]: "keeps P (deref p)"
  by (cases p) (simp_all add: deref_def keeps_stuck keeps_ret)

lemma keeps_from_opt [keeps_intros]: "keeps P (from_opt f)"
  by (auto simp: keeps_def from_opt_def split: option.splits)

lemma keeps_if [keeps_intros]: "(c \<Longrightarrow> keeps P m) \<Longrightarrow> (\<not> c \<Longrightarrow> keeps P n) \<Longrightarrow> keeps P (if c then m else n)"
  by simp

lemma keeps_gets_bnd: "(\<And>s. P s \<Longrightarrow> keeps P (f (g s))) \<Longrightarrow> keeps P (bnd (gets g) f)"
proof -
  assume *: "\<And>s. P s \<Longrightarrow> keeps P (f (g s))"
  have "P s'" if "P s" "bnd (gets g) f s = Some (r, s')" for s r s'
    using keepsD [OF * [OF that(1)] that(1)] that(2) by (simp add: bnd_def gets_def)
  then show ?thesis unfolding keeps_def by blast
qed

lemma total_bnd: "total m \<Longrightarrow> (\<And>x. total (f x)) \<Longrightarrow> total (bnd m f)"
  by (auto simp: total_def bnd_def split: option.splits sum.splits)

lemma total_bnd_post:
  "total m \<Longrightarrow> (\<And>x s s'. m s = Some (Inr x, s') \<Longrightarrow> total (f x)) \<Longrightarrow> total (bnd m f)"
  by (auto simp: total_def bnd_def split: option.splits sum.splits)

lemma total_sq: "total m \<Longrightarrow> total n \<Longrightarrow> total (sq m n)"
  by (simp add: sq_def total_bnd)

lemma total_simps [simp]: "total (ret x)" "total (shutdown e)" "total (gets g)" "total (upd h)"
  by (simp_all add: total_def ret_def shutdown_def gets_def upd_def)

section \<open>Words\<close>

lemma bit_u8_high [simp]: "8 \<le> n \<Longrightarrow> \<not> bit (b :: u8) n"
  using bit_imp_le_length [of b n] by auto

lemma bit_u16_high [simp]: "16 \<le> n \<Longrightarrow> \<not> bit (c :: u16) n"
  using bit_imp_le_length [of c n] by auto

lemma bit_u32_high: "bit (v :: u32) n \<Longrightarrow> n < 32"
  using bit_imp_le_length [of v n] by auto

lemma sint_small: "unat (x :: u32) < 2 ^ 31 \<Longrightarrow> sint x = int (unat x)"
proof -
  assume "unat x < 2 ^ 31"
  then have "int (unat x) < int (2 ^ 31)" by (simp only: of_nat_less_iff)
  then have "uint x < 2 ^ 31" by simp
  moreover have "sint x = signed_take_bit 31 (uint x)" by (simp add: sint_uint)
  moreover have "- (2 ^ 31) \<le> uint x" by (rule order_trans [of _ 0]) simp_all
  ultimately show ?thesis by (simp add: signed_take_bit_int_eq_self)
qed

lemma unat_of_int_u32: "0 \<le> x \<Longrightarrow> x < 2 ^ 32 \<Longrightarrow> unat (word_of_int x :: u32) = nat x"
proof -
  assume "0 \<le> x" "x < 2 ^ 32"
  then have "uint (word_of_int x :: u32) = x" by (simp add: unsigned_of_int take_bit_int_eq_self)
  then show ?thesis by (metis unat_eq_nat_uint)
qed

lemma sint_of_int_u16: "- (2 ^ 15) \<le> a \<Longrightarrow> a < 2 ^ 15 \<Longrightarrow> sint (word_of_int a :: u16) = a"
  by (simp add: signed_of_int signed_take_bit_int_eq_self)

lemma scast_of_int_u16: "- (2 ^ 15) \<le> a \<Longrightarrow> a < 2 ^ 15 \<Longrightarrow> scast (word_of_int a :: u16) = (word_of_int a :: u32)"
  by (simp add: scast_eq sint_of_int_u16)

lemma unat_of_int_u16: "0 \<le> x \<Longrightarrow> x < 2 ^ 16 \<Longrightarrow> unat (word_of_int x :: u16) = nat x"
proof -
  assume "0 \<le> x" "x < 2 ^ 16"
  then have "uint (word_of_int x :: u16) = x" by (simp add: unsigned_of_int take_bit_int_eq_self)
  then show ?thesis by (metis unat_eq_nat_uint)
qed

lemma less_of_int_u32:
  assumes "0 \<le> x" and "x < 2 ^ 32" and "0 \<le> y" and "y < 2 ^ 32"
  shows "(word_of_int x :: u32) < word_of_int y \<longleftrightarrow> x < y"
  using assms by (auto simp: word_less_nat_alt unat_of_int_u32)

lemma sint_of_int_u32: "0 \<le> x \<Longrightarrow> x < 2 ^ 31 \<Longrightarrow> sint (word_of_int x :: u32) = x"
  by (simp add: signed_of_int signed_take_bit_int_eq_self)

lemma ucast_of_int_u32: "0 \<le> x \<Longrightarrow> x < 2 ^ 32 \<Longrightarrow> (ucast (word_of_int x :: u32) :: u64) = word_of_int x"
proof -
  assume "0 \<le> x" "x < 2 ^ 32"
  then have "uint (word_of_int x :: u32) = x" by (simp add: unsigned_of_int take_bit_int_eq_self)
  then show ?thesis by (simp only: ucast_eq)
qed

lemma u16_eqI: "(\<forall>n<16. bit (x :: u16) n = bit y n) \<Longrightarrow> x = y"
  by (rule bit_word_eqI) simp

lemma all_less_16: "(\<forall>n<16. P n) \<longleftrightarrow>
    P 0 \<and> P 1 \<and> P 2 \<and> P 3 \<and> P 4 \<and> P 5 \<and> P 6 \<and> P 7 \<and>
    P 8 \<and> P 9 \<and> P 10 \<and> P 11 \<and> P 12 \<and> P 13 \<and> P 14 \<and> P (15 :: nat)"
  by (simp add: eval_nat_numeral All_less_Suc conj_commute conj_left_commute)

lemma word_xor_cancel_left: "(x :: 'a :: len word) XOR y = x XOR z \<longleftrightarrow> y = z"
proof
  assume "x XOR y = x XOR z"
  then have "x XOR (x XOR y) = x XOR (x XOR z)" by simp
  then show "y = z" by (simp flip: xor.assoc)
qed simp

lemma word_xor_cancel_right: "(y :: 'a :: len word) XOR x = z XOR x \<longleftrightarrow> y = z"
  using word_xor_cancel_left [of x y z] by (simp add: xor.commute)

lemma and_0xff_take_bit: "(x :: 'a :: len word) AND 0xff = take_bit 8 x"
  by (simp add: take_bit_eq_mask mask_eq_exp_minus_1)

lemma ucast_and_0xff: "ucast ((c :: u16) AND 0xff) = (ucast c :: u8)"
  unfolding and_0xff_take_bit by (auto intro!: bit_word_eqI simp: bit_simps)

end
