(* ===== verification/Crc.thy ===== *)
theory Crc
  imports Prelude
begin

text \<open>
  The CRC of the wire protocol: the table-free byte-at-a-time routine of
  \<^verbatim>\<open>src/generic/crc16_ccitt.c\<close> (and its host-side twin in
  \<^verbatim>\<open>klippy/chelper/msgblock.c\<close>), against the bit-serial definition of the
  reflected CCITT polynomial.
\<close>

section \<open>The routine of the source\<close>

text \<open>The body of the \<^verbatim>\<open>while (len--)\<close> loop.\<close>

definition crc16_ccitt_byte :: "u16 \<Rightarrow> u8 \<Rightarrow> u16" where
  "crc16_ccitt_byte crc byte =
     (let data = byte XOR ucast (crc AND 0xff);
          data = data XOR push_bit 4 data
      in ((push_bit 8 (ucast data) OR drop_bit 8 crc) XOR ucast (drop_bit 4 data))
         XOR push_bit 3 (ucast data))"

fun crc16_ccitt_loop :: "u16 \<Rightarrow> u8 list \<Rightarrow> u16" where
  "crc16_ccitt_loop crc [] = crc"
| "crc16_ccitt_loop crc (b # bs) = crc16_ccitt_loop (crc16_ccitt_byte crc b) bs"

definition crc16_ccitt :: "u8 list \<Rightarrow> u16" where
  "crc16_ccitt buf = crc16_ccitt_loop 0xffff buf"

section \<open>The bit-serial reference\<close>

definition crc_bit :: "u16 \<Rightarrow> u16" where
  "crc_bit c = (if bit c 0 then drop_bit 1 c XOR 0x8408 else drop_bit 1 c)"

definition crc_ref_byte :: "u16 \<Rightarrow> u8 \<Rightarrow> u16" where
  "crc_ref_byte c b = (crc_bit ^^ 8) (c XOR ucast b)"

definition crc_ref :: "u8 list \<Rightarrow> u16" where
  "crc_ref bs = foldl crc_ref_byte 0xffff bs"

lemma bit_0x8408: "bit (0x8408 :: u16) n \<longleftrightarrow> n = 3 \<or> n = 10 \<or> n = 15"
proof -
  have "(0x8408 :: u16) = push_bit 3 1 OR push_bit 10 1 OR push_bit 15 1" by simp
  then show ?thesis by (simp only: bit_simps) (auto simp: bit_simps)
qed

lemma bit_crc_bit:
  "n < 16 \<Longrightarrow> bit (crc_bit c) n \<longleftrightarrow> (bit c (Suc n) \<noteq> (bit c 0 \<and> (n = 3 \<or> n = 10 \<or> n = 15)))"
  using bit_0x8408 [of n] by (auto simp: crc_bit_def bit_xor_iff bit_drop_bit_eq)

lemma funpow_8: "(f ^^ 8) x = f (f (f (f (f (f (f (f x)))))))"
  by (simp add: eval_nat_numeral)

lemma Suc_to_numeral: "Suc 0 = 1" "Suc 1 = 2"
  by simp_all

lemma crc16_ccitt_byte_ref: "crc16_ccitt_byte c b = crc_ref_byte c b"
  apply (rule u16_eqI)
  apply (simp only: all_less_16 funpow_8 crc16_ccitt_byte_def crc_ref_byte_def Let_def ucast_and_0xff)
  apply (simp add: bit_crc_bit bit_simps Suc_to_numeral del: One_nat_def)
  apply (intro conjI)
  apply argo+
  done

lemma crc16_ccitt_loop_foldl: "crc16_ccitt_loop c bs = foldl crc_ref_byte c bs"
  by (induction bs arbitrary: c) (simp_all add: crc16_ccitt_byte_ref)

section \<open>Error detection\<close>

text \<open>The bit step is invertible: the top bit of the result tells which branch was taken.\<close>

lemma bit_crc_bit_15: "bit (crc_bit c) 15 = bit c 0"
  by (simp add: bit_crc_bit)

lemma inj_crc_bit: "inj crc_bit"
proof (rule injI)
  fix x y assume eq: "crc_bit x = crc_bit y"
  then have 0: "bit x 0 = bit y 0" by (metis bit_crc_bit_15)
  have Suc: "bit x (Suc n) = bit y (Suc n)" if "n < 16" for n
    using 0 bit_crc_bit [OF that, of x] bit_crc_bit [OF that, of y] eq by auto
  show "x = y"
  proof (rule u16_eqI, intro allI impI)
    fix n :: nat assume "n < 16"
    then show "bit x n = bit y n" using 0 Suc [of "n - 1"] by (cases n) auto
  qed
qed

lemma inj_crc_bits: "inj (crc_bit ^^ n)"
  by (rule inj_fn [OF inj_crc_bit])

lemma crc_ref_byte_inj: "crc_ref_byte c b = crc_ref_byte c' b \<longleftrightarrow> c = c'"
proof -
  have "crc_ref_byte c b = crc_ref_byte c' b \<longleftrightarrow> c XOR ucast b = c' XOR ucast b"
    unfolding crc_ref_byte_def by (rule inj_eq [OF inj_crc_bits])
  also have "\<dots> \<longleftrightarrow> c = c'"
    by (rule word_xor_cancel_right)
  finally show ?thesis .
qed

lemma foldl_crc_inj: "foldl crc_ref_byte c bs = foldl crc_ref_byte c' bs \<longleftrightarrow> c = c'"
  by (induction bs arbitrary: c c') (simp_all add: crc_ref_byte_inj)

text \<open>Bits above the lowest pass through the bit step unchanged.\<close>

lemma bit_push_u8_u16:
  "k \<le> 8 \<Longrightarrow> bit (push_bit k (ucast (b :: u8)) :: u16) n \<longleftrightarrow> k \<le> n \<and> bit b (n - k)"
  by (cases "n - k < 8") (auto simp: bit_push_bit_iff bit_ucast_iff)

lemma drop_bit_push_u8:
  "k < 8 \<Longrightarrow> drop_bit 1 (push_bit (Suc k) (ucast (b :: u8)) :: u16) = push_bit k (ucast b)"
  by (rule bit_word_eqI) (simp only: bit_drop_bit_eq o_apply bit_push_u8_u16 Suc_leI less_imp_le, simp)

lemma crc_bit_push:
  "k < 8 \<Longrightarrow> crc_bit (x XOR push_bit (Suc k) (ucast (b :: u8))) = crc_bit x XOR push_bit k (ucast b)"
  by (simp only: crc_bit_def drop_bit_xor drop_bit_push_u8 bit_xor_iff bit_push_u8_u16 Suc_leI)
     (simp add: ac_simps)

lemma crc_bits_push:
  "k \<le> 8 \<Longrightarrow> (crc_bit ^^ k) (x XOR push_bit k (ucast (b :: u8))) = (crc_bit ^^ k) x XOR ucast b"
proof (induction k arbitrary: x)
  case 0
  then show ?case by simp
next
  case (Suc k)
  then have "(crc_bit ^^ Suc k) (x XOR push_bit (Suc k) (ucast b)) = (crc_bit ^^ k) (crc_bit x XOR push_bit k (ucast b))"
    by (simp only: funpow_Suc_right o_apply crc_bit_push [OF Suc_le_lessD])
  also have "\<dots> = (crc_bit ^^ k) (crc_bit x) XOR ucast b"
    using Suc by simp
  finally show ?case by (simp only: funpow_Suc_right o_apply)
qed

lemma crc_ref_two_bytes:
  "crc_ref_byte (crc_ref_byte c a) b = (crc_bit ^^ 16) (c XOR (ucast a XOR push_bit 8 (ucast b)))"
proof -
  have "crc_ref_byte (crc_ref_byte c a) b = (crc_bit ^^ 8) ((crc_bit ^^ 8) ((c XOR ucast a) XOR push_bit 8 (ucast b)))"
    by (simp add: crc_ref_byte_def crc_bits_push)
  also have "\<dots> = (crc_bit ^^ (8 + 8)) ((c XOR ucast a) XOR push_bit 8 (ucast b))"
    by (simp only: funpow_add o_apply)
  finally show ?thesis by (simp add: xor.assoc)
qed

lemma two_bytes_inj:
  "(ucast (a :: u8) XOR push_bit 8 (ucast (b :: u8)) :: u16) = ucast a' XOR push_bit 8 (ucast b') \<longleftrightarrow>
     a = a' \<and> b = b'" (is "?l = ?r \<longleftrightarrow> _")
proof
  assume eq: "?l = ?r"
  have "bit a n = bit a' n" if "n < 8" for n
    using arg_cong [OF eq, of "\<lambda>w. bit w n"] that by (simp add: bit_simps)
  moreover have "bit b n = bit b' n" if "n < 8" for n
    using arg_cong [OF eq, of "\<lambda>w. bit w (n + 8)"] that by (simp add: bit_simps)
  ultimately show "a = a' \<and> b = b'"
    by (auto intro!: bit_word_eqI)
qed simp

text \<open>
  C33.  The byte-at-a-time CRC of the firmware computes, for every buffer, the
  bit-serial CRC of the reflected CCITT polynomial 0x8408 started at 0xffff.
\<close>

theorem crc16_ccitt_is_reference: "crc16_ccitt buf = crc_ref buf"
  by (simp add: crc16_ccitt_def crc_ref_def crc16_ccitt_loop_foldl)

text \<open>
  C34.  The CRC detects every corruption confined to two neighbouring bytes, in
  any message and at any place: two buffers that agree outside such a pair have
  the same CRC only if they are equal.
\<close>

theorem crc16_ccitt_detects_pair:
  "crc16_ccitt (pre @ a # b # post) = crc16_ccitt (pre @ a' # b' # post) \<longleftrightarrow> a = a' \<and> b = b'"
proof -
  let ?c = "foldl crc_ref_byte 0xffff pre"
  have "crc16_ccitt (pre @ a # b # post) = crc16_ccitt (pre @ a' # b' # post) \<longleftrightarrow>
      crc_ref_byte (crc_ref_byte ?c a) b = crc_ref_byte (crc_ref_byte ?c a') b'"
    by (simp add: crc16_ccitt_def crc16_ccitt_loop_foldl foldl_crc_inj)
  also have "\<dots> \<longleftrightarrow> ?c XOR (ucast a XOR push_bit 8 (ucast b)) = ?c XOR (ucast a' XOR push_bit 8 (ucast b'))"
    unfolding crc_ref_two_bytes by (rule inj_eq [OF inj_crc_bits])
  also have "\<dots> \<longleftrightarrow> (ucast a XOR push_bit 8 (ucast b) :: u16) = ucast a' XOR push_bit 8 (ucast b')"
    by (rule word_xor_cancel_left)
  finally show ?thesis by (simp add: two_bytes_inj)
qed

end
