(* ===== verification/Vlq.thy ===== *)
theory Vlq
  imports Prelude
begin

text \<open>
  The variable length quantity (VLQ) integer coding of the wire protocol:
  \<^verbatim>\<open>encode_int\<close> and \<^verbatim>\<open>parse_int\<close> of \<^verbatim>\<open>src/command.c\<close>, which
  \<^verbatim>\<open>klippy/chelper/msgblock.c\<close> repeats on the host side.
\<close>

section \<open>The routines of the source\<close>

text \<open>
  The bytes \<^verbatim>\<open>encode_int\<close> writes at \<^verbatim>\<open>p\<close>; the \<^verbatim>\<open>goto\<close> labels are
  the suffixes of the longest encoding.
\<close>

definition encode_int :: "u32 \<Rightarrow> u8 list" where
  "encode_int v =
     (let sv = sint v;
          f4 = [ucast (v AND 0x7f)];
          f3 = ucast ((drop_bit 7 v AND 0x7f) OR 0x80) # f4;
          f2 = ucast ((drop_bit 14 v AND 0x7f) OR 0x80) # f3;
          f1 = ucast ((drop_bit 21 v AND 0x7f) OR 0x80) # f2
      in if sv < 3 * 2 ^ 5 \<and> sv \<ge> - (2 ^ 5) then f4
         else if sv < 3 * 2 ^ 12 \<and> sv \<ge> - (2 ^ 12) then f3
         else if sv < 3 * 2 ^ 19 \<and> sv \<ge> - (2 ^ 19) then f2
         else if sv < 3 * 2 ^ 26 \<and> sv \<ge> - (2 ^ 26) then f1
         else ucast (drop_bit 28 v OR 0x80) # f1)"

text \<open>
  \<^verbatim>\<open>parse_int\<close> reads memory from position \<open>p\<close> on; the result is the value and
  the position after it.  \<open>None\<close>: the loop ran off the end of the memory \<open>mem\<close>.
\<close>

function parse_int_loop :: "u8 list \<Rightarrow> nat \<Rightarrow> u8 \<Rightarrow> u32 \<Rightarrow> (u32 \<times> nat) option" where
  "parse_int_loop mem p c v =
     (if c AND 0x80 \<noteq> 0 then
        (if p < length mem then
           (let c' = mem ! p in parse_int_loop mem (Suc p) c' (push_bit 7 v OR ucast (c' AND 0x7f)))
         else None)
      else Some (v, p))"
  by pat_completeness auto
termination
  by (relation "measure (\<lambda>(mem, p, c, v). length mem - p)") auto

declare parse_int_loop.simps [simp del]

definition parse_int :: "u8 list \<Rightarrow> nat \<Rightarrow> (u32 \<times> nat) option" where
  "parse_int mem p =
     (if p < length mem then
        (let c = mem ! p;
             v = ucast (c AND 0x7f);
             v = (if c AND 0x60 = 0x60 then v OR (- 0x20) else v)
         in parse_int_loop mem (Suc p) c v)
      else None)"

section \<open>Digits\<close>

lemma and_0x7f_take_bit: "(x :: 'a :: len word) AND 0x7f = take_bit 7 x"
  by (simp add: take_bit_eq_mask mask_eq_exp_minus_1)

lemma take_bit_plus_7:
  "take_bit (n + 7) (v :: u32) = push_bit n (take_bit 7 (drop_bit n v)) + take_bit n v"
proof -
  have "push_bit n (take_bit 7 (drop_bit n v)) + take_bit n v
      = push_bit n (take_bit 7 (drop_bit n v)) OR take_bit n v"
    by (rule disjunctive_add) (auto simp: bit_simps)
  also have "\<dots> = take_bit (n + 7) v"
    by (rule bit_word_eqI) (auto simp: bit_simps)
  finally show ?thesis by simp
qed

lemma or_digit: "push_bit 7 (v :: u32) OR take_bit 7 w = v * 2 ^ 7 + take_bit 7 w"
proof -
  have "push_bit 7 v + take_bit 7 w = push_bit 7 v OR take_bit 7 w"
    by (rule disjunctive_add) (auto simp: bit_simps)
  then show ?thesis by (simp add: push_bit_eq_mult)
qed

text \<open>A continuation byte carries its digit and a set top bit; the last byte has it clear.\<close>

lemma bit_0x80_u8: "(c :: u8) AND 0x80 \<noteq> 0 \<longleftrightarrow> bit c 7"
  using and_exp_eq_0_iff_not_bit [of c 7] by simp

lemma bit_0x80: "bit (0x80 :: 'a :: len word) n \<longleftrightarrow> n = 7 \<and> 7 < LENGTH('a)"
proof -
  have "(0x80 :: 'a word) = 2 ^ 7" by simp
  then show ?thesis by (simp only: bit_exp_iff) (auto simp: possible_bit_def)
qed

lemma digit_of_cont: "take_bit 7 (ucast (ucast (w OR 0x80 :: u32) :: u8) :: u32) = take_bit 7 w"
  by (rule bit_word_eqI) (auto simp: bit_simps bit_0x80 simp del: bit_numeral_word_iff)

lemma digit_of_last: "take_bit 7 (ucast (ucast (take_bit 7 w :: u32) :: u8) :: u32) = take_bit 7 w"
  by (rule bit_word_eqI) (auto simp: bit_simps)

lemma cont_bit: "bit (ucast ((w :: u32) OR 0x80) :: u8) 7"
  by (simp add: bit_simps bit_0x80)

lemma last_bit: "\<not> bit (ucast (take_bit 7 (w :: u32)) :: u8) 7"
  by (simp add: bit_simps)

lemma ucast_take_bit_7: "(ucast (take_bit 7 (c :: u8)) :: u32) = take_bit 7 (ucast c)"
  by (rule bit_word_eqI) (auto simp: bit_simps)

section \<open>The loop\<close>

lemma parse_int_loop_last:
  "\<not> bit c 7 \<Longrightarrow> parse_int_loop mem p c v = Some (v, p)"
  by (subst parse_int_loop.simps) (simp only: bit_0x80_u8 if_False)

lemma parse_int_loop_cont:
  "bit c 7 \<Longrightarrow> p < length mem \<Longrightarrow>
     parse_int_loop mem p c v = parse_int_loop mem (Suc p) (mem ! p) (v * 2 ^ 7 + take_bit 7 (ucast (mem ! p)))"
  by (subst parse_int_loop.simps)
     (simp only: bit_0x80_u8 if_True Let_def and_0x7f_take_bit ucast_take_bit_7 or_digit)

text \<open>
  The digits still to come: \<open>tail_bytes n v\<close> holds the \<open>n\<close> low 7-bit groups of \<open>v\<close>,
  with the top bit set on all but the last.
\<close>

fun tail_bytes :: "nat \<Rightarrow> u32 \<Rightarrow> u8 list" where
  "tail_bytes 0 v = []"
| "tail_bytes (Suc 0) v = [ucast (v AND 0x7f)]"
| "tail_bytes (Suc (Suc n)) v = ucast ((drop_bit (7 * Suc n) v AND 0x7f) OR 0x80) # tail_bytes (Suc n) v"

lemma length_tail_bytes [simp]: "length (tail_bytes n v) = n"
  by (induction n v rule: tail_bytes.induct) auto

lemma tail_digit:
  "0 < n \<Longrightarrow> take_bit 7 (ucast (hd (tail_bytes n v)) :: u32) = take_bit 7 (drop_bit (7 * (n - 1)) v)"
  by (cases "(n, v)" rule: tail_bytes.cases)
     (auto simp: and_0x7f_take_bit digit_of_cont digit_of_last)

lemma digit_invariant:
  "x * 2 ^ (n + 7) + take_bit (n + 7) v = v \<Longrightarrow>
     (x * 2 ^ 7 + take_bit 7 (drop_bit n v)) * 2 ^ n + take_bit n v = (v :: u32)"
  by (simp add: take_bit_plus_7 push_bit_eq_mult power_add algebra_simps)

lemma parse_int_loop_tail:
  assumes "mem = pre @ tail_bytes (Suc n) v @ post"
    and "bit c 7" and "x * 2 ^ (7 * Suc n) + take_bit (7 * Suc n) v = v"
  shows "parse_int_loop mem (length pre) c x = Some (v, length pre + Suc n)"
  using assms
proof (induction n arbitrary: pre c x)
  case 0
  then have "parse_int_loop mem (length pre) c x =
      parse_int_loop mem (Suc (length pre)) (ucast (take_bit 7 v)) (x * 2 ^ 7 + take_bit 7 v)"
    by (simp add: parse_int_loop_cont and_0x7f_take_bit nth_append digit_of_last)
  with 0 show ?case by (simp add: parse_int_loop_last last_bit)
next
  case (Suc n)
  let ?d = "hd (tail_bytes (Suc (Suc n)) v)"
  have mem: "mem = (pre @ [?d]) @ tail_bytes (Suc n) v @ post" using Suc.prems(1) by simp
  have "parse_int_loop mem (length pre) c x =
      parse_int_loop mem (Suc (length pre)) ?d (x * 2 ^ 7 + take_bit 7 (drop_bit (7 * Suc n) v))"
    using Suc.prems(2) tail_digit [of "Suc (Suc n)" v]
    by (simp add: mem parse_int_loop_cont nth_append)
  also have "\<dots> = Some (v, length (pre @ [?d]) + Suc n)"
    using Suc.IH [of "pre @ [?d]" ?d, OF mem] digit_invariant [of x "7 * Suc n" v] Suc.prems(3)
    by (simp add: cont_bit)
  finally show ?case by simp
qed

section \<open>The first byte\<close>

text \<open>The sign extension \<^verbatim>\<open>parse_int\<close> applies to the digit of the first byte.\<close>

definition sign_digit :: "u32 \<Rightarrow> u32" where
  "sign_digit d = (if d AND 0x60 = 0x60 then d OR (- 0x20) else d)"

lemma sign_digit_range: "- 32 \<le> q \<Longrightarrow> q < 96 \<Longrightarrow> sign_digit (word_of_int (q mod 128)) = word_of_int q"
proof -
  assume "- 32 \<le> q" "q < 96"
  then have "q \<in> set [-32..95]" unfolding set_upto by simp
  moreover have "\<forall>q \<in> set [-32..95]. sign_digit (word_of_int (q mod 128)) = word_of_int q"
    by (simp add: upto_rec1 sign_digit_def)
  ultimately show ?thesis by blast
qed

lemma digit_word_of_int:
  "n + 7 \<le> 32 \<Longrightarrow> take_bit 7 (drop_bit n (v :: u32)) = word_of_int ((sint v div 2 ^ n) mod 128)"
proof -
  assume n: "n + 7 \<le> 32"
  have "take_bit 7 (drop_bit n v) = take_bit 7 (signed_drop_bit n v)"
    using n by (intro bit_word_eqI) (auto simp: bit_simps min_def)
  also have "\<dots> = word_of_int (take_bit 7 (sint (signed_drop_bit n v)))"
    by (simp add: of_int_take_bit)
  also have "take_bit 7 (sint (signed_drop_bit n v)) = (sint v div 2 ^ n) mod 128"
    by (simp add: sint_signed_drop_bit_eq drop_bit_eq_div take_bit_eq_mod)
  finally show ?thesis .
qed

lemma sint_split: "word_of_int (sint v div 2 ^ n) * 2 ^ n + take_bit n v = (v :: u32)"
proof -
  have "take_bit n v = word_of_int (sint v mod 2 ^ n)"
    by (simp add: of_int_take_bit flip: take_bit_eq_mod)
  then have "word_of_int (sint v div 2 ^ n) * 2 ^ n + take_bit n v
      = word_of_int (sint v div 2 ^ n * 2 ^ n + sint v mod 2 ^ n)"
    by simp
  also have "\<dots> = v" by (simp only: div_mult_mod_eq) simp
  finally show ?thesis .
qed

lemma div_interval:
  assumes "0 < (d :: int)" and "a * d \<le> x" and "x < b * d"
  shows "a \<le> x div d" and "x div d < b"
proof -
  have x: "x div d * d \<le> x" "x < (x div d + 1) * d"
    using pos_mod_bound [OF assms(1), of x] pos_mod_sign [OF assms(1), of x] div_mult_mod_eq [of x d]
    unfolding distrib_right by linarith+
  have "a * d < (x div d + 1) * d" "x div d * d < b * d" using x assms(2,3) by linarith+
  then show "a \<le> x div d" "x div d < b" using assms(1) by (simp_all add: mult_less_cancel_right)
qed

lemma first_digit:
  assumes "- (2 ^ (n + 5)) \<le> sint v" and "sint v < 3 * 2 ^ (n + 5)" and "n + 7 \<le> 32"
  shows "sign_digit (take_bit 7 (drop_bit n v)) * 2 ^ n + take_bit n v = v"
proof -
  let ?q = "sint v div 2 ^ n"
  have "- 32 * 2 ^ n \<le> sint v" "sint v < 96 * 2 ^ n"
    using assms(1,2) by (simp_all add: power_add)
  then have "- 32 \<le> ?q" "?q < 96"
    using div_interval [of "2 ^ n" "- 32" "sint v" 96] by simp_all
  then show ?thesis using sign_digit_range [of ?q] sint_split [where v = v] assms(3)
    by (simp add: digit_word_of_int)
qed

lemma bit_0x60: "bit (0x60 :: 'a :: len word) n \<longleftrightarrow> (n = 5 \<or> n = 6) \<and> n < LENGTH('a)"
proof -
  have "(0x60 :: 'a word) = 2 ^ 5 OR 2 ^ 6" by simp
  then show ?thesis by (simp only: bit_or_iff bit_exp_iff) (auto simp: possible_bit_def)
qed

lemma and_0x60_iff: "6 < LENGTH('a) \<Longrightarrow> (x :: 'a :: len word) AND 0x60 = 0x60 \<longleftrightarrow> bit x 5 \<and> bit x 6"
  unfolding bit_eq_iff [of "x AND 0x60"] by (auto simp: bit_and_iff bit_0x60 simp del: bit_numeral_word_iff dest: spec [of _ 5])

lemma and_0x60_digit: "(c :: u8) AND 0x60 = 0x60 \<longleftrightarrow> (take_bit 7 (ucast c) :: u32) AND 0x60 = 0x60"
  by (simp add: and_0x60_iff bit_simps)

lemma parse_int_start:
  "p < length mem \<Longrightarrow>
     parse_int mem p = parse_int_loop mem (Suc p) (mem ! p) (sign_digit (take_bit 7 (ucast (mem ! p))))"
  by (simp only: parse_int_def Let_def if_True sign_digit_def and_0x60_digit and_0x7f_take_bit ucast_take_bit_7)

section \<open>Encodings as digit sequences\<close>

definition vlq_fits :: "nat \<Rightarrow> u32 \<Rightarrow> bool" where
  "vlq_fits n v \<longleftrightarrow> sint v < 3 * 2 ^ (7 * n + 5) \<and> sint v \<ge> - (2 ^ (7 * n + 5))"

lemma encode_int_tail:
  "encode_int v =
     (if vlq_fits 0 v then tail_bytes 1 v
      else if vlq_fits 1 v then tail_bytes 2 v
      else if vlq_fits 2 v then tail_bytes 3 v
      else if vlq_fits 3 v then tail_bytes 4 v
      else ucast (drop_bit 28 v OR 0x80) # tail_bytes 4 v)"
  by (simp add: encode_int_def vlq_fits_def Let_def numeral_2_eq_2 numeral_3_eq_3 eval_nat_numeral)

lemma encode_int_small: "unat v < 96 \<Longrightarrow> encode_int v = [ucast (v AND 0x7f)]"
proof -
  assume v: "unat v < 96"
  then have "sint v = int (unat v)" by (intro sint_small) simp
  with v have "sint v < 96" "0 \<le> sint v" by linarith+
  then have "vlq_fits 0 v" by (simp add: vlq_fits_def)
  then show ?thesis by (simp add: encode_int_tail)
qed
lemma parse_int_tail:
  assumes "vlq_fits n v" and "n < 4"
  shows "parse_int (pre @ tail_bytes (Suc n) v @ post) (length pre) = Some (v, length pre + Suc n)"
proof -
  let ?mem = "pre @ tail_bytes (Suc n) v @ post" and ?c = "hd (tail_bytes (Suc n) v)"
  have nth: "?mem ! length pre = ?c"
    by (cases "(Suc n, v)" rule: tail_bytes.cases) (auto simp: nth_append)
  have "parse_int ?mem (length pre) =
      parse_int_loop ?mem (Suc (length pre)) ?c (sign_digit (take_bit 7 (drop_bit (7 * n) v)))"
    using tail_digit [of "Suc n" v] by (simp add: parse_int_start nth)
  moreover have inv: "sign_digit (take_bit 7 (drop_bit (7 * n) v)) * 2 ^ (7 * n) + take_bit (7 * n) v = v"
    using assms by (intro first_digit) (auto simp: vlq_fits_def)
  ultimately show ?thesis
  proof (cases n)
    case 0
    with inv \<open>parse_int ?mem _ = _\<close> show ?thesis
      by (simp add: parse_int_loop_last and_0x7f_take_bit last_bit)
  next
    case (Suc m)
    have "?mem = (pre @ [?c]) @ tail_bytes (Suc m) v @ post" by (simp add: Suc)
    moreover have "bit ?c 7" by (simp add: Suc cont_bit)
    ultimately show ?thesis
      using parse_int_loop_tail [of ?mem "pre @ [?c]" m v post ?c] inv \<open>parse_int ?mem _ = _\<close>
      by (simp add: Suc)
  qed
qed

lemma drop_28_nibble: "28 + n < 32 \<or> \<not> bit (drop_bit 28 (v :: u32)) n"
  by (auto simp: bit_simps dest: bit_u32_high)

lemma sign_digit_nibble: "sign_digit (drop_bit 28 v) = drop_bit 28 v"
  using drop_28_nibble [of 5 v] by (simp add: sign_digit_def and_0x60_iff)

lemma parse_int_long:
  "parse_int (pre @ (ucast (drop_bit 28 v OR 0x80) # tail_bytes 4 v) @ post) (length pre) =
     Some (v, length pre + 5)"
proof -
  let ?c = "ucast (drop_bit 28 v OR 0x80) :: u8"
  let ?mem = "pre @ (?c # tail_bytes 4 v) @ post"
  have "take_bit 7 (drop_bit 28 v) = drop_bit 28 v"
    by (rule bit_word_eqI) (auto simp: bit_simps dest: bit_u32_high)
  then have "parse_int ?mem (length pre) = parse_int_loop ?mem (Suc (length pre)) ?c (drop_bit 28 v)"
    by (simp add: parse_int_start nth_append digit_of_cont sign_digit_nibble)
  moreover have "drop_bit 28 v * 2 ^ 28 + take_bit 28 v = v"
    using bits_ident [of 28 v] by (simp add: push_bit_eq_mult)
  moreover have "?mem = (pre @ [?c]) @ tail_bytes (Suc 3) v @ post" by (simp add: eval_nat_numeral)
  ultimately show ?thesis
    using parse_int_loop_tail [of ?mem "pre @ [?c]" 3 v post ?c "drop_bit 28 v"]
    by (simp add: cont_bit)
qed

lemma parse_int_encode:
  "parse_int (pre @ encode_int v @ post) (length pre) = Some (v, length pre + length (encode_int v))"
  using parse_int_tail [of 0 v pre post] parse_int_tail [of 1 v pre post]
    parse_int_tail [of 2 v pre post] parse_int_tail [of 3 v pre post] parse_int_long [of pre v post]
  by (auto simp: encode_int_tail eval_nat_numeral)

lemma length_encode_int: "0 < length (encode_int v) \<and> length (encode_int v) \<le> 5"
  by (simp add: encode_int_def Let_def)

text \<open>
  C32.  VLQ round trip: wherever the bytes of \<^verbatim>\<open>encode_int\<close> stand in memory,
  \<^verbatim>\<open>parse_int\<close> started there returns the encoded 32-bit value, for all \<open>2 ^ 32\<close>
  values, and stops exactly behind them; an encoding has one to five bytes.
\<close>

theorem parse_encode_int:
  "parse_int (pre @ encode_int v @ post) (length pre) = Some (v, length pre + length (encode_int v))
   \<and> length (encode_int v) \<in> {1..5}"
  using parse_int_encode [of pre v post] length_encode_int [of v] by (simp add: Suc_le_eq)

end
