(* ===== verification/Command.thy ===== *)
theory Command
  imports Crc Vlq
begin

text \<open>
  The message layer of the firmware, \<^verbatim>\<open>src/command.c\<close> and
  \<^verbatim>\<open>src/command.h\<close>: parsing of command parameters, encoding of responses,
  the message block frame, the search for the next valid block in the receive
  buffer and the dispatch of the commands in it.
\<close>

section \<open>Constants and tables\<close>

definition MESSAGE_MIN :: nat where [simp]: "MESSAGE_MIN = 5"
definition MESSAGE_MAX :: nat where [simp]: "MESSAGE_MAX = 64"
definition MESSAGE_HEADER_SIZE :: nat where [simp]: "MESSAGE_HEADER_SIZE = 2"
definition MESSAGE_TRAILER_SIZE :: nat where [simp]: "MESSAGE_TRAILER_SIZE = 3"
definition MESSAGE_POS_LEN :: nat where [simp]: "MESSAGE_POS_LEN = 0"
definition MESSAGE_POS_SEQ :: nat where [simp]: "MESSAGE_POS_SEQ = 1"
definition MESSAGE_TRAILER_CRC :: nat where [simp]: "MESSAGE_TRAILER_CRC = 3"
definition MESSAGE_TRAILER_SYNC :: nat where [simp]: "MESSAGE_TRAILER_SYNC = 1"
definition MESSAGE_PAYLOAD_MAX :: nat where [simp]: "MESSAGE_PAYLOAD_MAX = 59"
definition MESSAGE_SEQ_MASK :: u8 where "MESSAGE_SEQ_MASK = 0x0f"
definition MESSAGE_DEST :: u8 where "MESSAGE_DEST = 0x10"
definition MESSAGE_SYNC :: u8 where "MESSAGE_SYNC = 0x7E"
abbreviation HF_IN_SHUTDOWN :: u8 where "HF_IN_SHUTDOWN \<equiv> 0x01"

text \<open>\<open>PT_other\<close> stands for any byte that is none of the enumeration's values.\<close>

datatype param_type =
    PT_uint32 | PT_int32 | PT_uint16 | PT_int16 | PT_byte
  | PT_string | PT_progmem_buffer | PT_buffer | PT_other

record command_encoder =
  ce_msg_id :: u8
  ce_max_size :: nat
  ce_param_types :: "param_type list"

text \<open>The handler \<^verbatim>\<open>func\<close> is code of another component: a transformer of its state \<open>'s\<close>.\<close>

record 's command_parser =
  cp_flags :: u8
  cp_param_types :: "param_type list"
  cp_func :: "u32 list \<Rightarrow> ('s, unit) prog"

text \<open>A variadic argument: an integer, or a pointer with the bytes it points to.\<close>

datatype va_arg = VInt u32 | VPtr "u8 list"

section \<open>Parameter parsing\<close>

text \<open>
  Pointers into the receive buffer travel in 32-bit argument slots: an offset from
  \<^verbatim>\<open>console_receive_buffer()\<close> on a 64-bit machine (\<open>base = 0\<close>), the address itself
  on a 32-bit one (\<open>base\<close> the buffer's address).
\<close>

definition command_encode_ptr :: "nat \<Rightarrow> nat \<Rightarrow> u32" where
  "command_encode_ptr base p = of_nat (base + p)"

definition command_decode_ptr :: "nat \<Rightarrow> u32 \<Rightarrow> nat" where
  "command_decode_ptr base v = unat v - base"

text \<open>
  \<open>command_parsef base mem p maxend types\<close>: parse the parameters from position \<open>p\<close>
  of the receive buffer \<open>mem\<close>; the result is the argument array and the position behind
  the parameters.  \<open>None\<close>: a read outside the receive buffer.
\<close>

fun command_parsef :: "nat \<Rightarrow> u8 list \<Rightarrow> nat \<Rightarrow> nat \<Rightarrow> param_type list
    \<Rightarrow> (string + (u32 list \<times> nat)) option" where
  "command_parsef base mem p maxend [] = Some (Inr ([], p))"
| "command_parsef base mem p maxend (t # ts) =
     (if p > maxend then Some (Inl ''Command parser error'')
      else if t \<in> {PT_uint32, PT_int32, PT_uint16, PT_int16, PT_byte} then
        (case parse_int mem p of
           None \<Rightarrow> None
         | Some (v, p') \<Rightarrow>
             (case command_parsef base mem p' maxend ts of
                Some (Inr (args, q)) \<Rightarrow> Some (Inr (v # args, q))
              | r \<Rightarrow> r))
      else if t = PT_buffer then
        (if p < length mem then
           (let len = unat (mem ! p); p = Suc p in
            if p + len > maxend then Some (Inl ''Command parser error'')
            else
              (case command_parsef base mem (p + len) maxend ts of
                 Some (Inr (args, q)) \<Rightarrow> Some (Inr (of_nat len # command_encode_ptr base p # args, q))
               | r \<Rightarrow> r))
         else None)
      else Some (Inl ''Command parser error''))"

section \<open>Response encoding\<close>

text \<open>
  The integer argument as \<^verbatim>\<open>va_arg\<close> yields it: where \<^verbatim>\<open>int\<close> has 16 bits
  (\<open>int16 = True\<close>, the AVR), the short types are passed as such and extended.
\<close>

definition va_int :: "bool \<Rightarrow> param_type \<Rightarrow> u32 \<Rightarrow> u32" where
  "va_int int16 t x =
     (if int16 \<and> t \<notin> {PT_uint32, PT_int32} then
        (if t = PT_int16 then scast (ucast x :: u16) else ucast (ucast x :: u16))
      else x)"

text \<open>
  The parameter loop of \<^verbatim>\<open>command_encodef\<close>: \<open>p\<close> is the write position relative to
  \<^verbatim>\<open>buf\<close>, the result the bytes written.  A string argument is given without its
  terminating zero.  \<open>None\<close>: the arguments do not fit the format, or a buffer is read past its
  end (undefined in C).
\<close>

fun encode_params :: "bool \<Rightarrow> nat \<Rightarrow> nat \<Rightarrow> param_type list \<Rightarrow> va_arg list
    \<Rightarrow> (string + u8 list) option" where
  "encode_params int16 maxend p [] args = Some (Inr [])"
| "encode_params int16 maxend p (t # ts) args =
     (if p > maxend then Some (Inl ''Message encode error'')
      else
        (let emit = (\<lambda>bs rest.
               (case encode_params int16 maxend (p + length bs) ts rest of
                  Some (Inr out) \<Rightarrow> Some (Inr (bs @ out))
                | r \<Rightarrow> r))
         in if t \<in> {PT_uint32, PT_int32, PT_uint16, PT_int16, PT_byte} then
              (case args of VInt x # rest \<Rightarrow> emit (encode_int (va_int int16 t x)) rest | _ \<Rightarrow> None)
            else if t = PT_string then
              (case args of
                 VPtr s # rest \<Rightarrow>
                   (let str = take (maxend - Suc p) (takeWhile (\<lambda>c. c \<noteq> 0) s)
                    in emit (of_nat (length str) # str) rest)
               | _ \<Rightarrow> None)
            else if t \<in> {PT_progmem_buffer, PT_buffer} then
              (case args of
                 VInt n # VPtr s # rest \<Rightarrow>
                   (let v = (if unat n > maxend - p then maxend - p else unat n)
                    in if v \<le> length s then emit (of_nat v # take v s) rest else None)
               | _ \<Rightarrow> None)
            else Some (Inl ''Message encode error'')))"

text \<open>
  \<^verbatim>\<open>command_encodef\<close>: the bytes it writes from \<^verbatim>\<open>buf[MESSAGE_HEADER_SIZE]\<close> on and
  the length of the message block it returns.
\<close>

definition command_encodef :: "bool \<Rightarrow> command_encoder \<Rightarrow> va_arg list \<Rightarrow> (string + (u8 list \<times> nat)) option" where
  "command_encodef int16 ce args =
     (let max_size = ce_max_size ce in
      if max_size \<le> MESSAGE_MIN then Some (Inr ([], max_size))
      else
        (let p = MESSAGE_HEADER_SIZE;
             maxend = p + (max_size - MESSAGE_MIN)
         in case encode_params int16 maxend (Suc p) (ce_param_types ce) args of
              Some (Inr out) \<Rightarrow>
                (let body = ce_msg_id ce # out
                 in Some (Inr (body, p + length body + MESSAGE_TRAILER_SIZE)))
            | Some (Inl e) \<Rightarrow> Some (Inl e)
            | None \<Rightarrow> None))"

text \<open>\<^verbatim>\<open>command_add_frame\<close>: the header and trailer stores into the buffer.\<close>

definition command_add_frame :: "u8 \<Rightarrow> u8 list \<Rightarrow> nat \<Rightarrow> u8 list" where
  "command_add_frame next_seq buf msglen =
     (let buf = buf[MESSAGE_POS_LEN := of_nat msglen];
          buf = buf[MESSAGE_POS_SEQ := next_seq];
          crc = crc16_ccitt (take (msglen - MESSAGE_TRAILER_SIZE) buf);
          buf = buf[msglen - MESSAGE_TRAILER_CRC + 0 := ucast (drop_bit 8 crc)];
          buf = buf[msglen - MESSAGE_TRAILER_CRC + 1 := ucast crc]
      in buf[msglen - MESSAGE_TRAILER_SYNC := MESSAGE_SYNC])"

text \<open>
  \<^verbatim>\<open>command_encode_and_frame\<close> on a buffer \<open>buf\<close>: the encoded body overwrites the
  positions from the header on.
\<close>

definition store_at :: "u8 list \<Rightarrow> nat \<Rightarrow> u8 list \<Rightarrow> u8 list" where
  "store_at buf p bs = take p buf @ bs @ drop (p + length bs) buf"

definition command_encode_and_frame :: "bool \<Rightarrow> u8 \<Rightarrow> u8 list \<Rightarrow> command_encoder \<Rightarrow> va_arg list
    \<Rightarrow> (string + (u8 list \<times> nat)) option" where
  "command_encode_and_frame int16 next_seq buf ce args =
     (case command_encodef int16 ce args of
        None \<Rightarrow> None
      | Some (Inl e) \<Rightarrow> Some (Inl e)
      | Some (Inr (body, msglen)) \<Rightarrow>
          Some (Inr (command_add_frame next_seq (store_at buf MESSAGE_HEADER_SIZE body) msglen, msglen)))"

section \<open>Finding a message block\<close>

abbreviation CF_NEED_SYNC :: u8 where "CF_NEED_SYNC \<equiv> 1"
abbreviation CF_NEED_VALID :: u8 where "CF_NEED_VALID \<equiv> 2"

text \<open>The static variables \<^verbatim>\<open>next_sequence\<close> and \<^verbatim>\<open>sync_state\<close>.\<close>

record command_link =
  next_sequence :: u8
  sync_state :: u8

definition command_link_init :: command_link where
  "command_link_init = \<lparr>next_sequence = MESSAGE_DEST, sync_state = 0\<rparr>"

text \<open>\<^verbatim>\<open>memchr(buf, c, n)\<close> as an offset into \<open>buf\<close>.\<close>

definition memchr :: "u8 list \<Rightarrow> u8 \<Rightarrow> nat \<Rightarrow> nat option" where
  "memchr buf c n = find (\<lambda>i. buf ! i = c) [0..<n]"

text \<open>
  The result of \<^verbatim>\<open>command_find_block\<close>: the return value, \<^verbatim>\<open>*pop_count\<close>,
  whether it called \<^verbatim>\<open>command_sendf(&encode_acknak)\<close>, and the new static state.
\<close>

type_synonym find_result = "int \<times> nat \<times> bool \<times> command_link"

text \<open>The code from label \<^verbatim>\<open>need_sync\<close> on.\<close>

definition find_block_need_sync :: "command_link \<Rightarrow> u8 list \<Rightarrow> nat \<Rightarrow> find_result" where
  "find_block_need_sync st buf buf_len =
     (let (st, pop_count) =
            (case memchr buf MESSAGE_SYNC buf_len of
               Some next_sync \<Rightarrow> (st\<lparr>sync_state := sync_state st AND NOT CF_NEED_SYNC\<rparr>, next_sync + 1)
             | None \<Rightarrow> (st, buf_len))
      in if sync_state st AND CF_NEED_VALID \<noteq> 0 then (-1, pop_count, False, st)
         else (-1, pop_count, True, st\<lparr>sync_state := sync_state st OR CF_NEED_VALID\<rparr>))"

text \<open>The code from label \<^verbatim>\<open>error\<close> on.\<close>

definition find_block_error :: "command_link \<Rightarrow> u8 list \<Rightarrow> nat \<Rightarrow> find_result" where
  "find_block_error st buf buf_len =
     (if buf ! 0 = MESSAGE_SYNC then (-1, 1, False, st)
      else find_block_need_sync (st\<lparr>sync_state := sync_state st OR CF_NEED_SYNC\<rparr>) buf buf_len)"

definition command_find_block :: "command_link \<Rightarrow> u8 list \<Rightarrow> nat \<Rightarrow> find_result" where
  "command_find_block st buf buf_len =
     (if buf_len \<noteq> 0 \<and> sync_state st AND CF_NEED_SYNC \<noteq> 0 then find_block_need_sync st buf buf_len
      else if buf_len < MESSAGE_MIN then (0, 0, False, st)
      else
        (let msglen = unat (buf ! MESSAGE_POS_LEN);
             msgseq = buf ! MESSAGE_POS_SEQ
         in if msglen < MESSAGE_MIN \<or> msglen > MESSAGE_MAX then find_block_error st buf buf_len
            else if msgseq AND NOT MESSAGE_SEQ_MASK \<noteq> MESSAGE_DEST then find_block_error st buf buf_len
            else if buf_len < msglen then (0, 0, False, st)
            else if buf ! (msglen - MESSAGE_TRAILER_SYNC) \<noteq> MESSAGE_SYNC then find_block_error st buf buf_len
            else
              (let msgcrc = push_bit 8 (ucast (buf ! (msglen - MESSAGE_TRAILER_CRC)))
                            OR ucast (buf ! (msglen - MESSAGE_TRAILER_CRC + 1)) :: u16;
                   crc = crc16_ccitt (take (msglen - MESSAGE_TRAILER_SIZE) buf)
               in if crc \<noteq> msgcrc then find_block_error st buf buf_len
                  else
                    (let st = st\<lparr>sync_state := sync_state st AND NOT CF_NEED_VALID\<rparr>
                     in if msgseq \<noteq> next_sequence st then (-1, msglen, True, st)
                        else (1, msglen, False,
                              st\<lparr>next_sequence := ((msgseq + 1) AND MESSAGE_SEQ_MASK) OR MESSAGE_DEST\<rparr>)))))"

section \<open>Dispatch\<close>

text \<open>
  The command table \<^verbatim>\<open>command_index\<close> is generated by the build.  Index 0 is not a
  command.
\<close>

definition command_lookup_parser :: "'s command_parser list \<Rightarrow> u8 \<Rightarrow> ('s, 's command_parser) prog" where
  "command_lookup_parser command_index cmdid =
     (if cmdid = 0 \<or> unat cmdid \<ge> length command_index then shutdown ''Invalid command''
      else ret (command_index ! unat cmdid))"

definition run_parsef :: "(string + 'a) option \<Rightarrow> ('s, 'a) prog" where
  "run_parsef r = (case r of None \<Rightarrow> stuck | Some (Inl e) \<Rightarrow> shutdown e | Some (Inr x) \<Rightarrow> ret x)"

text \<open>
  \<^verbatim>\<open>command_dispatch\<close>: the loop from position \<open>p\<close> to \<open>msgend\<close>.  \<open>is_shutdown\<close> and
  \<open>report\<close> are \<^verbatim>\<open>sched_is_shutdown()\<close> and \<^verbatim>\<open>sched_report_shutdown()\<close> of
  \<^verbatim>\<open>sched.c\<close>, \<open>irq_poll\<close> is the board's hook for pending interrupts.  Every iteration reads at least the command's identifier, so
  \<open>msgend - p\<close> rounds are enough; the fuel runs out only past them.
\<close>

primrec command_dispatch_loop :: "nat \<Rightarrow> 's command_parser list \<Rightarrow> ('s \<Rightarrow> bool) \<Rightarrow> ('s, unit) prog
    \<Rightarrow> ('s, unit) prog \<Rightarrow> nat \<Rightarrow> u8 list \<Rightarrow> nat \<Rightarrow> nat \<Rightarrow> ('s, unit) prog" where
  "command_dispatch_loop 0 command_index is_shutdown report irq_poll base mem msgend p =
     (if p < msgend then stuck else ret ())"
| "command_dispatch_loop (Suc fuel) command_index is_shutdown report irq_poll base mem msgend p =
     (if p < msgend then
        (if p < length mem then
           bnd (command_lookup_parser command_index (mem ! p)) (\<lambda>cp.
           bnd (run_parsef (command_parsef base mem (Suc p) msgend (cp_param_types cp))) (\<lambda>(args, q).
           bnd (gets is_shutdown) (\<lambda>sd.
             if sd \<and> cp_flags cp AND HF_IN_SHUTDOWN = 0 then
               sq report (command_dispatch_loop fuel command_index is_shutdown report irq_poll base mem msgend q)
             else
               sq irq_poll
              (sq (cp_func cp args)
                  (command_dispatch_loop fuel command_index is_shutdown report irq_poll base mem msgend q)))))
         else stuck)
      else ret ())"

definition command_dispatch :: "'s command_parser list \<Rightarrow> ('s \<Rightarrow> bool) \<Rightarrow> ('s, unit) prog \<Rightarrow> ('s, unit) prog \<Rightarrow> nat
    \<Rightarrow> u8 list \<Rightarrow> nat \<Rightarrow> ('s, unit) prog" where
  "command_dispatch command_index is_shutdown report irq_poll base buf msglen =
     command_dispatch_loop msglen command_index is_shutdown report irq_poll base buf
       (msglen - MESSAGE_TRAILER_SIZE) MESSAGE_HEADER_SIZE"

section \<open>Frames\<close>

text \<open>The message block with sequence byte \<open>seq\<close> around the content \<open>body\<close>.\<close>

definition message_block :: "u8 \<Rightarrow> u8 list \<Rightarrow> u8 list" where
  "message_block seq body =
     (let hdr = [of_nat (length body + MESSAGE_MIN), seq] @ body;
          crc = crc16_ccitt hdr
      in hdr @ [ucast (drop_bit 8 crc), ucast crc, MESSAGE_SYNC])"

lemma length_message_block [simp]: "length (message_block seq body) = length body + 5"
  by (simp add: message_block_def Let_def)

lemma crc_bytes_join: "push_bit 8 (ucast (ucast (drop_bit 8 crc) :: u8)) OR ucast (ucast crc :: u8) = (crc :: u16)"
  by (rule bit_word_eqI) (auto simp: bit_simps)

lemma crc_bytes_split:
  "push_bit 8 (ucast (hi :: u8)) OR ucast lo = (crc :: u16) \<longleftrightarrow> hi = ucast (drop_bit 8 crc) \<and> lo = (ucast crc :: u8)"
proof
  assume eq: "push_bit 8 (ucast hi) OR ucast lo = crc"
  have "hi = ucast (drop_bit 8 crc)" "lo = ucast crc"
    by (auto intro!: bit_word_eqI simp: bit_simps simp flip: eq)
  then show "hi = ucast (drop_bit 8 crc) \<and> lo = ucast crc" ..
qed (simp add: crc_bytes_join)

lemma message_block_nth:
  "message_block seq body ! 0 = of_nat (length body + 5)"
  "message_block seq body ! Suc 0 = seq"
  "message_block seq body ! (length body + 2) = ucast (drop_bit 8 (crc16_ccitt ([of_nat (length body + 5), seq] @ body)))"
  "message_block seq body ! (length body + 3) = ucast (crc16_ccitt ([of_nat (length body + 5), seq] @ body))"
  "message_block seq body ! (length body + 4) = MESSAGE_SYNC"
  by (simp_all add: message_block_def Let_def nth_append nth_Cons')

lemma take_message_block:
  "take (length body + 2) (message_block seq body) = [of_nat (length body + 5), seq] @ body"
  by (simp add: message_block_def Let_def)

lemma command_add_frame_block:
  assumes "length body + 5 \<le> length buf"
  shows "take (length body + 5) (command_add_frame seq (store_at buf MESSAGE_HEADER_SIZE body) (length body + 5))
      = message_block seq body"
proof -
  obtain a b rest where buf: "buf = a # b # rest" and rest: "length body + 3 \<le> length rest"
    using assms by (cases buf rule: list.exhaust [case_names Nil Cons]; cases "tl buf") auto
  obtain x y z w where drop: "drop (length body) rest = x # y # z # w"
    using rest by (cases "drop (length body) rest"; cases "tl (drop (length body) rest)";
        cases "tl (tl (drop (length body) rest))") (auto dest: arg_cong [of _ _ length])
  show ?thesis
    by (simp add: command_add_frame_def store_at_def buf drop message_block_def Let_def
        list_update_append nth_append numeral_2_eq_2 numeral_3_eq_3)
      (simp add: eval_nat_numeral)
qed

section \<open>The block search\<close>

definition link_ok :: "command_link \<Rightarrow> bool" where
  "link_ok st \<longleftrightarrow> next_sequence st AND NOT MESSAGE_SEQ_MASK = MESSAGE_DEST"

definition next_seq_of :: "u8 \<Rightarrow> u8" where
  "next_seq_of seq = ((seq + 1) AND MESSAGE_SEQ_MASK) OR MESSAGE_DEST"

lemma link_ok_init: "link_ok command_link_init"
  by (simp add: link_ok_def command_link_init_def MESSAGE_DEST_def MESSAGE_SEQ_MASK_def)

lemma next_seq_of_dest: "next_seq_of seq AND NOT MESSAGE_SEQ_MASK = MESSAGE_DEST"
proof -
  have "(MESSAGE_DEST AND NOT MESSAGE_SEQ_MASK) = MESSAGE_DEST"
    by (simp add: MESSAGE_DEST_def MESSAGE_SEQ_MASK_def)
  then show ?thesis
    by (simp add: next_seq_of_def bit.conj_disj_distrib2 and.assoc)
qed

lemma memchr_bound: "memchr buf c n = Some i \<Longrightarrow> i < n \<and> buf ! i = c"
  by (auto simp: memchr_def find_Some_iff)

text \<open>A description of a valid block at the start of the buffer.\<close>

definition valid_block :: "u8 list \<Rightarrow> nat \<Rightarrow> nat \<Rightarrow> bool" where
  "valid_block buf buf_len msglen \<longleftrightarrow>
     msglen = unat (buf ! 0) \<and> MESSAGE_MIN \<le> msglen \<and> msglen \<le> MESSAGE_MAX \<and> msglen \<le> buf_len \<and>
     (buf ! 1) AND NOT MESSAGE_SEQ_MASK = MESSAGE_DEST \<and>
     buf ! (msglen - 1) = MESSAGE_SYNC \<and>
     push_bit 8 (ucast (buf ! (msglen - 3))) OR ucast (buf ! (msglen - 3 + 1)) = crc16_ccitt (take (msglen - 3) buf)"

lemma find_block_valid:
  assumes "sync_state st AND CF_NEED_SYNC = 0" and "valid_block buf n msglen"
  shows "command_find_block st buf n =
    (let st' = st\<lparr>sync_state := sync_state st AND NOT CF_NEED_VALID\<rparr>
     in if buf ! 1 \<noteq> next_sequence st then (-1, msglen, True, st')
        else (1, msglen, False, st'\<lparr>next_sequence := next_seq_of (buf ! 1)\<rparr>))"
  using assms by (auto simp: command_find_block_def valid_block_def Let_def next_seq_of_def)

text \<open>Every other outcome discards bytes, or waits for more data.\<close>

lemma find_block_invalid:
  assumes "\<not> (sync_state st AND CF_NEED_SYNC = 0 \<and> valid_block buf n (unat (buf ! 0)))"
  shows "command_find_block st buf n = find_block_need_sync st buf n \<and> n \<noteq> 0 \<or>
    command_find_block st buf n = find_block_error st buf n \<and> 5 \<le> n \<or>
    command_find_block st buf n = (0, 0, False, st)
      \<and> (n < 5 \<or> n < unat (buf ! 0) \<and> unat (buf ! 0) \<le> 64)"
  using assms by (auto simp: command_find_block_def valid_block_def Let_def)

lemma need_sync_result:
  "\<exists>pop nak st'. find_block_need_sync st buf n = (-1, pop, nak, st') \<and> (0 < n \<longrightarrow> 0 < pop) \<and> pop \<le> n
     \<and> next_sequence st' = next_sequence st"
  by (cases "memchr buf MESSAGE_SYNC n")
     (auto simp: find_block_need_sync_def Let_def dest: memchr_bound)

lemma error_result:
  "5 \<le> n \<Longrightarrow> \<exists>pop nak st'. find_block_error st buf n = (-1, pop, nak, st') \<and> 0 < pop \<and> pop \<le> n
     \<and> next_sequence st' = next_sequence st"
  using need_sync_result [of "st\<lparr>sync_state := sync_state st OR CF_NEED_SYNC\<rparr>" buf n]
  by (auto simp: find_block_error_def)

lemma find_block_reject:
  assumes "\<not> (sync_state st AND CF_NEED_SYNC = 0 \<and> valid_block buf n (unat (buf ! 0)))"
  obtains (discard) pop nak st' where "command_find_block st buf n = (-1, pop, nak, st')"
      and "0 < pop" and "pop \<le> n" and "next_sequence st' = next_sequence st"
    | (wait) "command_find_block st buf n = (0, 0, False, st)" and "n < 64"
  using find_block_invalid [OF assms]
proof (elim disjE conjE)
  assume "command_find_block st buf n = find_block_need_sync st buf n" "n \<noteq> 0"
  then show thesis using need_sync_result [of st buf n] by (auto intro: discard)
next
  assume "command_find_block st buf n = find_block_error st buf n" "5 \<le> n"
  then show thesis using error_result [of n st buf] by (auto intro: discard)
qed (auto intro: wait)

text \<open>
  C9.  A message block accepted by the firmware is genuine: \<^verbatim>\<open>command_find_block\<close>
  returns 1 only for a complete block at the start of the buffer whose length byte is in range,
  whose sync byte and CRC are right and whose sequence byte is the expected one; it then pops
  exactly that block and advances the expected sequence number by one modulo 16.
\<close>

theorem find_block_sound:
  assumes "command_find_block st buf n = (1, pop, nak, st')"
  shows "valid_block buf n pop \<and> buf ! 1 = next_sequence st \<and> \<not> nak \<and>
    next_sequence st' = next_seq_of (next_sequence st)"
proof -
  have *: "sync_state st AND CF_NEED_SYNC = 0 \<and> valid_block buf n (unat (buf ! 0))"
  proof (rule ccontr)
    assume "\<not> ?thesis"
    then show False by (rule find_block_reject) (use assms in auto)
  qed
  then show ?thesis
    using assms by (auto simp: find_block_valid Let_def split: if_splits)
qed

theorem find_block_sound_witness:
  "\<exists>pop nak st'. command_find_block command_link_init [6, 16, 1, 107, 242, 126] 6 = (1, pop, nak, st')
     \<and> valid_block [6, 16, 1, 107, 242, 126] 6 pop \<and> next_sequence st' = next_seq_of 0x10"
proof -
  have "command_find_block command_link_init [6, 16, 1, 107, 242, 126] 6
      = (1, 6, False, \<lparr>next_sequence = 0x11, sync_state = 0\<rparr>)"
    by code_simp
  from find_block_sound [OF this] this show ?thesis
    by (auto simp: command_link_init_def MESSAGE_DEST_def)
qed

lemma valid_message_block:
  assumes "length body \<le> MESSAGE_PAYLOAD_MAX" and "seq AND NOT MESSAGE_SEQ_MASK = MESSAGE_DEST"
  shows "valid_block (message_block seq body @ rest) (length body + 5 + length rest) (length body + 5)"
proof -
  let ?b = "message_block seq body @ rest" and ?hdr = "[of_nat (length body + 5), seq] @ body"
  have nth: "?b ! 0 = of_nat (length body + 5)" "?b ! 1 = seq"
    "?b ! (length body + 5 - 1) = MESSAGE_SYNC"
    "?b ! (length body + 5 - 3) = ucast (drop_bit 8 (crc16_ccitt ?hdr))"
    "?b ! (length body + 5 - 3 + 1) = ucast (crc16_ccitt ?hdr)"
    using message_block_nth [of seq body] by (simp_all add: nth_append eval_nat_numeral)
  have "take (length body + 5 - 3) ?b = ?hdr"
    using take_message_block [of body seq] by simp
  moreover have "unat (?b ! 0) = length body + 5"
    unfolding nth(1) using assms(1) by (simp only: unat_of_nat) simp
  ultimately show ?thesis
    using assms unfolding valid_block_def nth(2-) by (simp add: crc_bytes_join)
qed

text \<open>
  C10.  A well-formed block is accepted: a block built around at most
  \<open>MESSAGE_PAYLOAD_MAX\<close> content bytes with the expected sequence byte, standing at the
  start of the receive buffer while the receiver is in sync, makes
  \<^verbatim>\<open>command_find_block\<close> return 1 and pop exactly the block, whatever follows it.
\<close>

theorem find_block_accepts:
  assumes "link_ok st" and "sync_state st AND CF_NEED_SYNC = 0"
    and "length body \<le> MESSAGE_PAYLOAD_MAX"
  shows "command_find_block st (message_block (next_sequence st) body @ rest) (length body + 5 + length rest)
    = (1, length body + 5, False,
       st\<lparr>next_sequence := next_seq_of (next_sequence st), sync_state := sync_state st AND NOT CF_NEED_VALID\<rparr>)"
proof -
  have "(message_block (next_sequence st) body @ rest) ! 1 = next_sequence st"
    using message_block_nth(2) [of "next_sequence st" body] by (simp add: nth_append)
  then show ?thesis
    using find_block_valid [OF assms(2) valid_message_block [OF assms(3)]] assms(1)
    by (simp add: link_ok_def Let_def)
qed

theorem find_block_accepts_witness:
  "link_ok command_link_init \<and> sync_state command_link_init AND CF_NEED_SYNC = 0 \<and>
   length [1 :: u8] \<le> MESSAGE_PAYLOAD_MAX \<and>
   fst (command_find_block command_link_init (message_block (next_sequence command_link_init) [1] @ []) 6) = 1"
proof -
  have h: "sync_state command_link_init AND CF_NEED_SYNC = 0" "length [1 :: u8] \<le> MESSAGE_PAYLOAD_MAX"
    by (simp_all add: command_link_init_def)
  show ?thesis using find_block_accepts [OF link_ok_init h, of "[]"] link_ok_init h by simp
qed

text \<open>
  C19.  The receiver never stalls and never pops bytes it does not have: a call either leaves
  everything alone and waits for more data, which happens only while fewer than
  \<open>MESSAGE_MAX\<close> bytes are buffered, or pops between one byte and the whole buffer.  The
  expected sequence byte stays well formed.
\<close>

theorem find_block_progress:
  assumes "command_find_block st buf n = (r, pop, nak, st')" and "link_ok st"
  shows "(r = 0 \<and> pop = 0 \<and> \<not> nak \<and> st' = st \<and> n < MESSAGE_MAX \<or> r \<in> {-1, 1} \<and> 0 < pop \<and> pop \<le> n)
      \<and> link_ok st'"
proof (cases "sync_state st AND CF_NEED_SYNC = 0 \<and> valid_block buf n (unat (buf ! 0))")
  case True
  then have "5 \<le> unat (buf ! 0)" "unat (buf ! 0) \<le> n" by (auto simp: valid_block_def)
  with True assms show ?thesis
    by (auto simp: find_block_valid Let_def link_ok_def next_seq_of_dest split: if_splits)
next
  case False
  then show ?thesis by (rule find_block_reject) (use assms in \<open>auto simp: link_ok_def\<close>)
qed

theorem find_block_progress_witness:
  "\<exists>r pop nak st'. command_find_block command_link_init [6, 16, 1, 107, 242, 126] 6 = (r, pop, nak, st')
     \<and> r \<in> {-1, 1} \<and> 0 < pop \<and> pop \<le> 6 \<and> link_ok st'"
proof -
  have "command_find_block command_link_init [6, 16, 1, 107, 242, 126] 6
      = (1, 6, False, \<lparr>next_sequence = 0x11, sync_state = 0\<rparr>)"
    by code_simp
  from find_block_progress [OF this link_ok_init] this show ?thesis by auto
qed

section \<open>Parameters on the wire\<close>

text \<open>
  A parameter value and its bytes; the argument slots the handler sees when the bytes start
  at position \<open>p\<close>.
\<close>

datatype param = PInt u32 | PBuf "u8 list"

fun param_wire :: "param \<Rightarrow> u8 list" where
  "param_wire (PInt v) = encode_int v"
| "param_wire (PBuf bs) = of_nat (length bs) # bs"

fun param_fits :: "param_type \<Rightarrow> param \<Rightarrow> bool" where
  "param_fits t (PInt v) = (t \<in> {PT_uint32, PT_int32, PT_uint16, PT_int16, PT_byte})"
| "param_fits t (PBuf bs) = (t = PT_buffer \<and> length bs < 256)"

fun param_slots :: "nat \<Rightarrow> nat \<Rightarrow> param list \<Rightarrow> u32 list" where
  "param_slots base p [] = []"
| "param_slots base p (PInt v # ps) = v # param_slots base (p + length (encode_int v)) ps"
| "param_slots base p (PBuf bs # ps) =
     of_nat (length bs) # command_encode_ptr base (Suc p) # param_slots base (Suc p + length bs) ps"

lemma parsef_params:
  assumes "list_all2 param_fits ts ps" and "length pre + length (concat (map param_wire ps)) \<le> maxend"
  shows "command_parsef base (pre @ concat (map param_wire ps) @ post) (length pre) maxend ts =
    Some (Inr (param_slots base (length pre) ps, length pre + length (concat (map param_wire ps))))"
  using assms
proof (induction ts ps arbitrary: pre rule: list_all2_induct)
  case Nil
  then show ?case by simp
next
  case (Cons t ts x ps)
  have mem: "pre @ concat (map param_wire (x # ps)) @ post =
      (pre @ param_wire x) @ concat (map param_wire ps) @ post" by simp
  have IH: "command_parsef base (pre @ concat (map param_wire (x # ps)) @ post)
        (length (pre @ param_wire x)) maxend ts =
      Some (Inr (param_slots base (length (pre @ param_wire x)) ps,
        length (pre @ param_wire x) + length (concat (map param_wire ps))))"
    unfolding mem using Cons.IH [of "pre @ param_wire x"] Cons.prems by simp
  show ?case
  proof (cases x)
    case (PInt v)
    have "parse_int (pre @ concat (map param_wire (x # ps)) @ post) (length pre) =
        Some (v, length pre + length (encode_int v))"
      using parse_int_encode [of pre v "concat (map param_wire ps) @ post"] by (simp add: PInt)
    with IH Cons.hyps(1) Cons.prems show ?thesis by (simp add: PInt)
  next
    case (PBuf bs)
    with IH Cons.hyps(1) Cons.prems show ?thesis
      by (simp add: nth_append unat_of_nat Let_def add.assoc)
  qed
qed

text \<open>
  C21.  Parameter round trip: parsing the wire bytes of any parameter list that matches the
  command's parameter types, inside the block, succeeds; the handler's argument array holds the
  integers and, for each buffer, its length and the position of its bytes; and the parser
  stops exactly behind the last parameter.
\<close>

theorem parsef_wire:
  assumes "list_all2 param_fits ts ps" and "length pre + length (concat (map param_wire ps)) \<le> maxend"
  shows "command_parsef base (pre @ concat (map param_wire ps) @ post) (length pre) maxend ts =
    Some (Inr (param_slots base (length pre) ps, length pre + length (concat (map param_wire ps))))"
  by (rule parsef_params [OF assms])

theorem parsef_wire_witness:
  "list_all2 param_fits [PT_byte, PT_buffer] [PInt 7, PBuf [1, 2]] \<and>
   command_parsef 0 ([9] @ concat (map param_wire [PInt 7, PBuf [1, 2]]) @ [0x7e]) (length [9 :: u8]) 5
     [PT_byte, PT_buffer] = Some (Inr ([7, 2, 3], 5))"
proof -
  have h: "list_all2 param_fits [PT_byte, PT_buffer] [PInt 7, PBuf [1, 2]]"
    "length [9 :: u8] + length (concat (map param_wire [PInt 7, PBuf [1, 2]])) \<le> 5"
    by (simp_all add: encode_int_def)
  show ?thesis using parsef_wire [OF h, of 0 "[0x7e]"] h
    by (simp add: encode_int_def command_encode_ptr_def)
qed

lemma decode_encode_ptr: "base + p < 2 ^ 32 \<Longrightarrow> command_decode_ptr base (command_encode_ptr base p) = p"
  unfolding command_decode_ptr_def command_encode_ptr_def unat_of_nat by simp

section \<open>Dispatch stays inside the block\<close>

text \<open>
  A byte with a clear top bit ends every integer; the block's final sync byte is one.
\<close>

lemma parse_int_loop_stops:
  assumes "\<not> bit (mem ! e) 7" and "e < length mem" and "p \<le> e \<or> \<not> bit c 7 \<and> p = Suc e"
  shows "\<exists>v' q. parse_int_loop mem p c v = Some (v', q) \<and> p \<le> q \<and> q \<le> Suc e"
  using assms
proof (induction mem p c v rule: parse_int_loop.induct)
  case (1 mem p c v)
  show ?case
  proof (cases "bit c 7")
    case True
    with "1.prems" have p: "p \<le> e" by simp
    let ?c = "mem ! p"
    have "Suc p \<le> e \<or> \<not> bit ?c 7 \<and> Suc p = Suc e" using p "1.prems"(1) by (cases "p = e") auto
    then have "\<exists>v' q. parse_int_loop mem (Suc p) ?c (push_bit 7 v OR ucast (?c AND 0x7f)) = Some (v', q)
        \<and> Suc p \<le> q \<and> q \<le> Suc e"
      using "1.IH" [of ?c] True p "1.prems"(1,2) by (simp add: bit_0x80_u8)
    with True p "1.prems"(2) show ?thesis
      by (subst parse_int_loop.simps) (auto simp: bit_0x80_u8 Let_def)
  next
    case False
    with "1.prems" show ?thesis by (auto simp: parse_int_loop_last)
  qed
qed

lemma parse_int_stops:
  assumes "\<not> bit (mem ! e) 7" and "e < length mem" and "p \<le> e"
  shows "\<exists>v q. parse_int mem p = Some (v, q) \<and> p < q \<and> q \<le> Suc e"
proof -
  have "Suc p \<le> e \<or> \<not> bit (mem ! p) 7 \<and> Suc p = Suc e" using assms by (cases "p = e") auto
  then show ?thesis
    using parse_int_loop_stops [OF assms(1,2), of "Suc p" "mem ! p"
        "sign_digit (take_bit 7 (ucast (mem ! p)))"] assms(2,3)
    by (auto simp: parse_int_start Suc_le_eq)
qed

lemma parsef_stops:
  assumes "\<not> bit (mem ! e) 7" and "e < length mem" and "maxend \<le> e"
  shows "\<exists>r. command_parsef base mem p maxend ts = Some r \<and> (\<forall>args q. r = Inr (args, q) \<longrightarrow> p \<le> q)"
proof (induction ts arbitrary: p)
  case Nil
  show ?case by simp
next
  case (Cons t ts)
  show ?case
  proof (cases "p > maxend")
    case True
    then show ?thesis by simp
  next
    case False
    with assms(3) have p: "p \<le> e" by simp
    obtain v q where v: "parse_int mem p = Some (v, q)" "p < q"
      using parse_int_stops [OF assms(1,2) p] by blast
    obtain r where r: "command_parsef base mem q maxend ts = Some r" "\<forall>args q'. r = Inr (args, q') \<longrightarrow> q \<le> q'"
      using Cons.IH by blast
    let ?q = "Suc p + unat (mem ! p)"
    obtain r' where r': "command_parsef base mem ?q maxend ts = Some r'" "\<forall>args q'. r' = Inr (args, q') \<longrightarrow> ?q \<le> q'"
      using Cons.IH by blast
    show ?thesis
      using False v r r' p assms(2) by (cases r; cases r') (fastforce simp: Let_def)+
  qed
qed

lemma lookup_parser_in: "command_lookup_parser idx cmdid s = Some (Inr cp, s') \<Longrightarrow> cp \<in> set idx"
  by (auto simp: command_lookup_parser_def ret_def shutdown_def split: if_splits)

lemma dispatch_loop_total:
  assumes "\<not> bit (mem ! e) 7" and "e < length mem" and "msgend \<le> e" and "total report" and "total irq_poll"
    and "\<And>cp args. cp \<in> set idx \<Longrightarrow> total (cp_func cp args)" and "msgend - p \<le> fuel"
  shows "total (command_dispatch_loop fuel idx is_sd report irq_poll base mem msgend p)"
  using assms(7)
proof (induction fuel arbitrary: p)
  case 0
  then show ?case by simp
next
  case (Suc fuel)
  show ?case
  proof (cases "p < msgend")
    case True
    then have p: "p < length mem" using assms(2,3) by simp
    have rest: "total (command_dispatch_loop fuel idx is_sd report irq_poll base mem msgend q)" if "Suc p \<le> q" for q
      using Suc that by simp
    have lookup: "total (command_lookup_parser idx (mem ! p))"
      by (simp add: command_lookup_parser_def)
    have parse: "total (run_parsef (command_parsef base mem (Suc p) msgend ts))"
      "run_parsef (command_parsef base mem (Suc p) msgend ts) s = Some (Inr (args, q), s') \<Longrightarrow> Suc p \<le> q"
      for ts args q and s s' :: 'a
      using parsef_stops [OF assms(1-3), of base "Suc p" ts]
      by (auto simp: run_parsef_def total_def shutdown_def ret_def split: sum.splits)
    show ?thesis
      using True p
      by (auto intro!: total_bnd_post total_sq lookup parse assms(4,5,6) rest
          dest: lookup_parser_in)
  next
    case False
    then show ?thesis by simp
  qed
qed

text \<open>
  C8.  Dispatching a block that \<^verbatim>\<open>command_find_block\<close> has accepted always comes to an end
  and reads nothing outside the block, whatever bytes the block holds: if the command handlers,
  the shutdown report and the interrupt hook return or shut down, so does \<^verbatim>\<open>command_dispatch\<close>.
\<close>

theorem dispatch_total:
  assumes "valid_block buf n msglen" and "msglen \<le> length buf" and "total report" and "total irq_poll"
    and "\<And>cp args. cp \<in> set idx \<Longrightarrow> total (cp_func cp args)"
  shows "total (command_dispatch idx is_sd report irq_poll base (take msglen buf) msglen)"
proof -
  have "\<not> bit MESSAGE_SYNC 7" by (simp add: MESSAGE_SYNC_def)
  then have "\<not> bit (take msglen buf ! (msglen - 1)) 7" and "msglen - 1 < length (take msglen buf)"
    using assms(1,2) by (auto simp: valid_block_def)
  then show ?thesis
    unfolding command_dispatch_def
    by (rule dispatch_loop_total) (use assms in auto)
qed

theorem dispatch_total_witness:
  "valid_block [6, 16, 1, 107, 242, 126] 6 6 \<and>
   total (command_dispatch [\<lparr>cp_flags = 0, cp_param_types = [], cp_func = \<lambda>_. ret ()\<rparr>] (\<lambda>_ :: nat. False) (ret ()) (ret ()) 0
     (take 6 [6, 16, 1, 107, 242, 126]) 6)"
proof -
  have h: "valid_block [6, 16, 1, 107, 242, 126] 6 6" by code_simp
  show ?thesis
    by (intro conjI h dispatch_total [OF h]) auto
qed

text \<open>
  C20.  Shutdown gate: while the machine is shut down only handlers flagged
  \<^verbatim>\<open>HF_IN_SHUTDOWN\<close> run.  Any property \<open>P\<close> of the machine that implies the shutdown state,
  that the shutdown report, the interrupt hook and every flagged handler keep, survives the dispatch of
  every block, whatever the other handlers do.
\<close>

theorem dispatch_shutdown_gate:
  assumes "\<And>s. P s \<Longrightarrow> is_sd s" and "keeps P report" and "keeps P irq_poll"
    and "\<And>cp args. cp \<in> set idx \<Longrightarrow> cp_flags cp AND HF_IN_SHUTDOWN \<noteq> 0 \<Longrightarrow> keeps P (cp_func cp args)"
  shows "keeps P (command_dispatch idx is_sd report irq_poll base buf msglen)"
proof -
  have "keeps P (command_dispatch_loop fuel idx is_sd report irq_poll base mem msgend p)" for fuel mem msgend p
  proof (induction fuel arbitrary: p)
    case 0
    show ?case by (simp add: keeps_intros)
  next
    case (Suc fuel)
    have "keeps P (command_lookup_parser idx cmdid)" for cmdid
      by (simp add: command_lookup_parser_def keeps_intros)
    moreover have "keeps P (run_parsef r)" for r :: "(string + u32 list \<times> nat) option"
      by (auto simp: run_parsef_def keeps_intros split: option.split sum.split)
    ultimately have "keeps P (bnd (run_parsef r) (\<lambda>(args, q). bnd (gets is_sd) (\<lambda>sd.
          if sd \<and> cp_flags cp AND HF_IN_SHUTDOWN = 0
          then sq report (command_dispatch_loop fuel idx is_sd report irq_poll base mem msgend q)
          else sq irq_poll (sq (cp_func cp args) (command_dispatch_loop fuel idx is_sd report irq_poll base mem msgend q)))))"
      if "cp \<in> set idx" for cp and r :: "(string + u32 list \<times> nat) option"
      using that by (auto intro!: keeps_bnd keeps_gets_bnd keeps_sq Suc.IH assms simp: assms(1))
    with \<open>\<And>cmdid. keeps P (command_lookup_parser idx cmdid)\<close> show ?case
      by (auto intro!: keeps_bnd_post [where m = "command_lookup_parser _ _"] keeps_ret keeps_stuck
          dest: lookup_parser_in)
  qed
  then show ?thesis by (simp add: command_dispatch_def)
qed

theorem dispatch_shutdown_gate_witness:
  "keeps (\<lambda>s. s = (5 :: nat))
     (command_dispatch [\<lparr>cp_flags = 0, cp_param_types = [], cp_func = \<lambda>_. ret ()\<rparr>,
        \<lparr>cp_flags = 0, cp_param_types = [], cp_func = \<lambda>_. upd Suc\<rparr>] (\<lambda>_. True) (ret ()) (ret ()) 0
        [6, 16, 1, 107, 242, 126] 6)"
  by (rule dispatch_shutdown_gate) (auto simp: keeps_ret)

section \<open>An over-long response\<close>

text \<open>
  C36.  The space check for buffer parameters is off by one: it bounds the number of data bytes
  by the room left before the length byte is written.  Asked for more data than fits, the encoder of
  \<^verbatim>\<open>identify_response\<close> (an offset and a buffer, \<^verbatim>\<open>max_size\<close> 64) produces a block of
  65 bytes, longer than \<^verbatim>\<open>max_size\<close> and than \<^verbatim>\<open>MESSAGE_MAX\<close>, for every offset
  that fits in one byte.
\<close>

theorem encodef_overrun:
  assumes "unat off < 96" and "58 \<le> unat n" and "unat n \<le> length data"
  shows "\<exists>body. command_encodef int16 \<lparr>ce_msg_id = mid, ce_max_size = 64, ce_param_types = [PT_uint32, PT_buffer]\<rparr>
    [VInt off, VInt n, VPtr data] = Some (Inr (body, MESSAGE_MAX + 1))"
proof -
  have "encode_int (va_int int16 PT_uint32 off) = [ucast (off AND 0x7f)]"
    using encode_int_small [OF assms(1)] by (simp add: va_int_def)
  with assms show ?thesis
    by (simp add: command_encodef_def Let_def)
qed

theorem encodef_overrun_witness:
  "unat (0 :: u32) < 96 \<and> 58 \<le> unat (255 :: u32) \<and> unat (255 :: u32) \<le> length (replicate 255 (7 :: u8)) \<and>
   (\<exists>body. command_encodef False \<lparr>ce_msg_id = 1, ce_max_size = 64, ce_param_types = [PT_uint32, PT_buffer]\<rparr>
     [VInt 0, VInt 255, VPtr (replicate 255 7)] = Some (Inr (body, 65)))"
  using encodef_overrun [of 0 255 "replicate 255 7" False 1] by simp

end
