(* ===== verification/Hw.thy ===== *)
theory Hw
  imports Command
begin

text \<open>
  The board underneath the portable firmware code: build configuration, hardware readings, the
  record of everything the firmware does to the outside world, and the modular 32-bit clock of
  \<^verbatim>\<open>src/generic/timer_irq.c\<close>.
\<close>

section \<open>Board state\<close>

text \<open>
  Handles of the board's drivers are the values they were set up with: a pin number, the bus, mode
  and rate of an SPI device, the bus, rate and address of an I2C device.
\<close>

type_synonym spi_config = "u32 \<times> u8 \<times> u32"
type_synonym i2c_config = "u32 \<times> u32 \<times> u8"

text \<open>Effects on the outside world, in the order they happen.\<close>

datatype event =
    Sendf string "va_arg list"
  | GpioOutSetup u32 u8
  | GpioOutWrite u32 u8
  | GpioOutToggle u32
  | GpioInSetup u32 u32
  | GpioPwmSetup u32 u32 u32
  | GpioPwmWrite u32 u32
  | GpioAdcSetup u32
  | GpioAdcCancel u32
  | GpioOutReset u32 u8
  | GpioInReset u32 u32
  | SpiSetup spi_config
  | SpiPrepare spi_config
  | SpiTransfer spi_config "u8 list"
  | I2cSetup i2c_config
  | I2cWrite i2c_config "u8 list"
  | I2cRead i2c_config "u8 list" nat
  | SerialEnableTxIrq
  | BootloaderRequest
  | TimerKick

text \<open>
  Readings the firmware takes: the clock, an input pin, the two calls of an ADC driver, a byte from
  an SPI or I2C device.
\<close>

datatype hwreq = ReadTime | ReadPin u32 | AdcSample u32 | AdcRead u32 | SpiIn spi_config | I2cIn i2c_config

text \<open>
  The build configuration and the constants the build derives.  \<open>setup_error\<close> says which
  set-ups the board's drivers refuse, and with what shutdown message.
\<close>

record config =
  CONFIG_CLOCK_FREQ :: u32
  CONFIG_INLINE_STEPPER_HACK :: bool
  CONFIG_HAVE_STEPPER_BOTH_EDGE :: bool
  CONFIG_MACH_AVR :: bool
  CONFIG_HAVE_GPIO_BITBANGING :: bool
  CONFIG_SERIAL_BOOTLOADER_SIDECHANNEL :: bool
  CONFIG_HAVE_STRICT_TIMING :: bool
  fast8_wide :: bool
  dynmem_start :: nat
  dynmem_end :: nat
  alignof_ptr :: nat
  c_sizeof :: "string \<Rightarrow> nat"
  static_string_id :: "string \<Rightarrow> u8"
  setup_error :: "event \<Rightarrow> string option"
  command_identify_data :: "u8 list"
  receive_base :: nat

text \<open>
  \<^verbatim>\<open>uint_fast8_t\<close> and \<^verbatim>\<open>int_fast8_t\<close> have 8 bits on some boards and the width of a
  register on others (\<open>fast8_wide\<close>).
\<close>

definition uint_fast8 :: "config \<Rightarrow> u32 \<Rightarrow> u32" where
  "uint_fast8 c x = (if fast8_wide c then x else ucast (ucast x :: u8))"

definition int_fast8 :: "config \<Rightarrow> u32 \<Rightarrow> int" where
  "int_fast8 c x = (if fast8_wide c then sint x else sint (ucast x :: u8))"

text \<open>A 16 MHz board with 20 KiB of dynamic memory, for concrete runs.\<close>

definition example_config :: config where
  "example_config =
     \<lparr>CONFIG_CLOCK_FREQ = 16000000, CONFIG_INLINE_STEPPER_HACK = False,
      CONFIG_HAVE_STEPPER_BOTH_EDGE = False, CONFIG_MACH_AVR = False,
      CONFIG_HAVE_GPIO_BITBANGING = True, CONFIG_SERIAL_BOOTLOADER_SIDECHANNEL = False,
      CONFIG_HAVE_STRICT_TIMING = False, fast8_wide = True,
      dynmem_start = 4096, dynmem_end = 24576, alignof_ptr = 4, c_sizeof = (\<lambda>_. 64),
      static_string_id = (\<lambda>_. 1), setup_error = (\<lambda>_. None), command_identify_data = [],
      receive_base = 1024\<rparr>"

text \<open>
  The readings are an arbitrary sequence: the \<open>n\<close>-th reading of the run yields
  \<open>env r n\<close> when it asks for \<open>r\<close>.  \<open>receive_buf\<close> is the console's buffer with
  the message that is being handled, at address \<open>receive_base\<close>.
\<close>

record hw =
  cfg :: config
  env :: "hwreq \<Rightarrow> nat \<Rightarrow> u32"
  env_pos :: nat
  trace :: "event list"
  in_sendf :: u8
  receive_buf :: "u8 list"

definition emit :: "event \<Rightarrow> ('a hw_scheme, unit) prog" where
  "emit e = upd (\<lambda>s. s\<lparr>trace := trace s @ [e]\<rparr>)"

definition hw_read :: "hwreq \<Rightarrow> ('a hw_scheme, u32) prog" where
  "hw_read r s = Some (Inr (env s r (env_pos s)), s\<lparr>env_pos := Suc (env_pos s)\<rparr>)"

definition timer_read_time :: "('a hw_scheme, u32) prog" where
  "timer_read_time = hw_read ReadTime"

definition timer_kick :: "('a hw_scheme, unit) prog" where
  "timer_kick = emit TimerKick"

definition gpio_out_write :: "u32 \<Rightarrow> u8 \<Rightarrow> ('a hw_scheme, unit) prog" where
  "gpio_out_write pin val = emit (GpioOutWrite pin val)"

definition gpio_out_toggle_noirq :: "u32 \<Rightarrow> ('a hw_scheme, unit) prog" where
  "gpio_out_toggle_noirq pin = emit (GpioOutToggle pin)"

definition gpio_in_read :: "u32 \<Rightarrow> ('a hw_scheme, u8) prog" where
  "gpio_in_read pin = bnd (hw_read (ReadPin pin)) (\<lambda>v. ret (ucast v))"

text \<open>A set-up call of a driver: it shuts down or configures the device.\<close>

definition hw_setup :: "event \<Rightarrow> ('a hw_scheme, unit) prog" where
  "hw_setup e = bnd (gets (\<lambda>s. setup_error (cfg s) e)) (\<lambda>err.
     case err of None \<Rightarrow> emit e | Some msg \<Rightarrow> shutdown msg)"

text \<open>
  The bytes a command argument points to, in the message it came in.  Reading outside the buffer
  has no result.
\<close>

definition msg_bytes :: "u32 \<Rightarrow> u8 \<Rightarrow> ('a hw_scheme, u8 list) prog" where
  "msg_bytes ptr n =
     from_opt (\<lambda>s. let p = command_decode_ptr (receive_base (cfg s)) ptr in
       if p + unat n \<le> length (receive_buf s) then Some (take (unat n) (drop p (receive_buf s))) else None)"

text \<open>
  \<^verbatim>\<open>command_sendf\<close> of \<^verbatim>\<open>src/command.c\<close>: a call made while another one is under way
  is dropped.
\<close>

definition sendf :: "string \<Rightarrow> va_arg list \<Rightarrow> ('a hw_scheme, unit) prog" where
  "sendf fmt args =
     bnd (gets in_sendf) (\<lambda>b.
     if b \<noteq> 0 then ret ()
     else
       sq (upd (in_sendf_update (\<lambda>_. 1)))
      (sq (emit (Sendf fmt args))
          (upd (in_sendf_update (\<lambda>_. 0)))))"

definition sendf_shutdown :: "('a hw_scheme, unit) prog" where
  "sendf_shutdown = upd (in_sendf_update (\<lambda>_. 0))"

definition msg_store :: "u32 \<Rightarrow> u8 list \<Rightarrow> ('a hw_scheme, unit) prog" where
  "msg_store ptr bs =
     upd (\<lambda>s. s\<lparr>receive_buf := store_at (receive_buf s) (command_decode_ptr (receive_base (cfg s)) ptr) bs\<rparr>)"

text \<open>\<open>n\<close> bytes from a device.\<close>

primrec hw_bytes :: "hwreq \<Rightarrow> nat \<Rightarrow> ('a hw_scheme, u8 list) prog" where
  "hw_bytes r 0 = ret []"
| "hw_bytes r (Suc n) = bnd (hw_read r) (\<lambda>b. bnd (hw_bytes r n) (\<lambda>bs. ret (ucast b # bs)))"

section \<open>The clock\<close>

definition timer_from_us :: "'a hw_scheme \<Rightarrow> u32 \<Rightarrow> u32" where
  "timer_from_us s us = us * (CONFIG_CLOCK_FREQ (cfg s) div 1000000)"

definition timer_is_before :: "u32 \<Rightarrow> u32 \<Rightarrow> bool" where
  "timer_is_before time1 time2 \<longleftrightarrow> sint (time1 - time2) < 0"

section \<open>Rules\<close>

lemma wp_emit [wp_simps]: "wp (emit e) Q E s = Q () (s\<lparr>trace := trace s @ [e]\<rparr>)"
  by (simp add: emit_def wp_simps)

lemma wp_hw_read [wp_simps]:
  "wp (hw_read r) Q E s = Q (env s r (env_pos s)) (s\<lparr>env_pos := Suc (env_pos s)\<rparr>)"
  by (simp add: hw_read_def wp_def)

lemma wp_hw_setup [wp_simps]:
  "wp (hw_setup e) Q E s =
     (case setup_error (cfg s) e of None \<Rightarrow> Q () (s\<lparr>trace := trace s @ [e]\<rparr>) | Some msg \<Rightarrow> E msg s)"
  by (simp add: hw_setup_def wp_simps split: option.split)

lemma wp_sendf [wp_simps]:
  "wp (sendf fmt args) Q E s =
     (if in_sendf s \<noteq> 0 then Q () s
      else Q () (s\<lparr>trace := trace s @ [Sendf fmt args], in_sendf := 0\<rparr>))"
  by (simp add: sendf_def wp_simps)

lemma neg_sint_iff: "sint (x :: u32) < 0 \<longleftrightarrow> 2 ^ 31 \<le> unat x"
proof
  assume "sint x < 0"
  then show "2 ^ 31 \<le> unat x" using sint_small [of x] by (cases "unat x < 2 ^ 31") auto
next
  assume a: "2 ^ 31 \<le> unat x"
  have "unat x < 4294967296" using unsigned_less [of x] by simp
  with a have "unat x div 2147483648 = 1" by simp
  then have "bit (unat x) 31" by (simp add: bit_iff_odd)
  then have "bit x 31" by (simp add: bit_unsigned_iff)
  then show "sint x < 0"
    by (simp add: sint_uint signed_take_bit_negative_iff bit_unsigned_iff)
qed

text \<open>\<open>timer_is_before\<close> orders times by their distance from any base not after both of them.\<close>

lemma timer_is_before_unat: "timer_is_before a b \<longleftrightarrow> 2 ^ 31 \<le> unat (a - b)"
  by (simp add: timer_is_before_def neg_sint_iff)

lemma unat_diff_u32:
  "unat (x - y :: u32) = (if unat y \<le> unat x then unat x - unat y else unat x + 2 ^ 32 - unat y)"
  by (simp add: unat_sub_if')

lemma unat_u32_less: "unat (x :: u32) < 2 ^ 32"
  using unsigned_less [of x] by simp

lemma timer_is_before_offset:
  assumes "unat (a - base) < 2 ^ 31" and "unat (b - base) < 2 ^ 31"
  shows "timer_is_before a b \<longleftrightarrow> unat (a - base) < unat (b - base)"
proof -
  have "a - b = (a - base) - (b - base)" by simp
  then have "unat (a - b) = (if unat (b - base) \<le> unat (a - base) then unat (a - base) - unat (b - base)
      else unat (a - base) + 2 ^ 32 - unat (b - base))"
    using unat_diff_u32 [of "a - base" "b - base"] by argo
  then show ?thesis
    using assms by (auto simp: timer_is_before_unat)
qed

end
