(* ===== verification/Sched.thy ===== *)
theory Sched
  imports Hw
begin

text \<open>
  The scheduler, \<^verbatim>\<open>src/sched.c\<close>: the linked list of timers, task flags and the shutdown
  state.  Timers live in a heap \<open>tm\<close> indexed by their addresses; the list is chained through
  their \<^verbatim>\<open>next\<close> pointers as in the source.
\<close>

section \<open>Data\<close>

text \<open>
  Addresses of timers: the three static ones, and the timers inside the object with a given oid
  (an object has at most two).
\<close>

datatype timer_slot = TMain | TExpire

datatype tref = Periodic | Sentinel | Deleted | ObjTimer u8 timer_slot

text \<open>The functions a timer's \<^verbatim>\<open>func\<close> pointer can hold.\<close>

datatype timer_fn =
    Fn_NULL
  | Fn_periodic_event | Fn_sentinel_event | Fn_deleted_event
  | Fn_stepper_event_full
  | Fn_trsync_report_event | Fn_trsync_expire_event
  | Fn_endstop_event | Fn_endstop_oversample_event
  | Fn_digital_toggle_event | Fn_digital_load_event
  | Fn_pwm_event | Fn_pwm_end_event
  | Fn_analog_in_event
  | Fn_buttons_event | Fn_counter_event
  | Fn_tmcuart_send_sync_event | Fn_tmcuart_send_event | Fn_tmcuart_send_finish_event
  | Fn_tmcuart_read_sync_event | Fn_tmcuart_read_event
  | Fn_thermocouple_event | Fn_adxl345_event | Fn_mpu9250_event | Fn_angle_event

record timer =
  t_next :: "tref option"
  t_func :: timer_fn
  t_waketime :: u32

datatype sf = SF_DONE | SF_RESCHEDULE

text \<open>The \<^verbatim>\<open>struct task_wake\<close> variables of the components.\<close>

datatype task_wake =
    trsync_wake | analog_wake | buttons_wake | counter_wake | tmcuart_wake
  | thermocouple_wake | adxl345_wake | mpu9250_wake | angle_wake

record sched = hw +
  tm :: "tref \<Rightarrow> timer"
  timer_list :: tref
  last_insert :: tref
  tasks_status :: int
  shutdown_status :: u8
  shutdown_reason :: u8
  wakes :: "task_wake \<Rightarrow> u8"

abbreviation wake :: "'a sched_scheme \<Rightarrow> tref \<Rightarrow> u32" where
  "wake s x \<equiv> t_waketime (tm s x)"

text \<open>The static initialisers of the three timers.\<close>

definition timer_zero :: timer where
  "timer_zero = \<lparr>t_next = None, t_func = Fn_NULL, t_waketime = 0\<rparr>"

fun tm_init :: "tref \<Rightarrow> timer" where
  "tm_init Periodic = \<lparr>t_next = Some Sentinel, t_func = Fn_periodic_event, t_waketime = 0\<rparr>"
| "tm_init Sentinel = \<lparr>t_next = None, t_func = Fn_sentinel_event, t_waketime = 0x80000000\<rparr>"
| "tm_init Deleted = \<lparr>t_next = None, t_func = Fn_deleted_event, t_waketime = 0\<rparr>"
| "tm_init (ObjTimer oid slot) = timer_zero"

definition upd_tm :: "tref \<Rightarrow> (timer \<Rightarrow> timer) \<Rightarrow> ('a sched_scheme, unit) prog" where
  "upd_tm x f = upd (\<lambda>s. s\<lparr>tm := (tm s)(x := f (tm s x))\<rparr>)"

definition set_waketime :: "tref \<Rightarrow> u32 \<Rightarrow> ('a sched_scheme, unit) prog" where
  "set_waketime x w = upd_tm x (t_waketime_update (\<lambda>_. w))"

definition set_next :: "tref \<Rightarrow> tref option \<Rightarrow> ('a sched_scheme, unit) prog" where
  "set_next x p = upd_tm x (t_next_update (\<lambda>_. p))"

definition set_func :: "tref \<Rightarrow> timer_fn \<Rightarrow> ('a sched_scheme, unit) prog" where
  "set_func x f = upd_tm x (t_func_update (\<lambda>_. f))"

definition sched_try_shutdown :: "string \<Rightarrow> ('a sched_scheme, unit) prog" where
  "sched_try_shutdown msg =
     bnd (gets shutdown_status) (\<lambda>st. if st = 0 then shutdown msg else ret ())"

section \<open>Tasks\<close>

abbreviation TS_IDLE :: int where "TS_IDLE \<equiv> - 1"
abbreviation TS_REQUESTED :: int where "TS_REQUESTED \<equiv> 0"
abbreviation TS_RUNNING :: int where "TS_RUNNING \<equiv> 1"

definition sched_wake_tasks :: "('a sched_scheme, unit) prog" where
  "sched_wake_tasks = upd (tasks_status_update (\<lambda>_. TS_REQUESTED))"

definition sched_tasks_busy :: "'a sched_scheme \<Rightarrow> bool" where
  "sched_tasks_busy s \<longleftrightarrow> tasks_status s \<ge> TS_REQUESTED"

definition sched_wake_task :: "task_wake \<Rightarrow> ('a sched_scheme, unit) prog" where
  "sched_wake_task w = sq sched_wake_tasks (upd (\<lambda>s. s\<lparr>wakes := (wakes s)(w := 1)\<rparr>))"

definition sched_check_wake :: "task_wake \<Rightarrow> ('a sched_scheme, bool) prog" where
  "sched_check_wake w =
     bnd (gets (\<lambda>s. wakes s w)) (\<lambda>b.
     if b = 0 then ret False
     else sq (upd (\<lambda>s. s\<lparr>wakes := (wakes s)(w := 0)\<rparr>)) (ret True))"

section \<open>Timers\<close>

definition periodic_event :: "('a sched_scheme, sf) prog" where
  "periodic_event =
     sq sched_wake_tasks
    (bnd (gets (\<lambda>s. wake s Periodic + timer_from_us s 100000)) (\<lambda>w.
     sq (set_waketime Periodic w)
    (sq (set_waketime Sentinel (w + 0x80000000))
        (ret SF_RESCHEDULE))))"

definition sentinel_event :: "('a sched_scheme, sf) prog" where
  "sentinel_event = shutdown ''sentinel timer called''"

definition deleted_event :: "('a sched_scheme, sf) prog" where
  "deleted_event = ret SF_DONE"

text \<open>
  The loop of \<^verbatim>\<open>insert_timer\<close>: the final \<^verbatim>\<open>prev\<close> and \<^verbatim>\<open>pos\<close>.  A null
  \<^verbatim>\<open>pos\<close> would be dereferenced: no result.
\<close>

partial_function (option) insert_find :: "(tref \<Rightarrow> timer) \<Rightarrow> tref \<Rightarrow> u32 \<Rightarrow> (tref \<times> tref) option" where
  "insert_find h pos waketime =
     (case t_next (h pos) of
        None \<Rightarrow> None
      | Some nxt \<Rightarrow>
          if timer_is_before waketime (t_waketime (h nxt)) then Some (pos, nxt)
          else insert_find h nxt waketime)"

definition insert_timer :: "tref \<Rightarrow> tref \<Rightarrow> u32 \<Rightarrow> ('a sched_scheme, unit) prog" where
  "insert_timer pos t waketime =
     bnd (from_opt (\<lambda>s. insert_find (tm s) pos waketime)) (\<lambda>(prev, pos).
     sq (set_next t (Some pos))
        (set_next prev (Some t)))"

definition sched_add_timer :: "tref \<Rightarrow> ('a sched_scheme, unit) prog" where
  "sched_add_timer add =
     bnd (gets (\<lambda>s. wake s add)) (\<lambda>waketime.
     bnd (gets timer_list) (\<lambda>tl.
     bnd (gets (\<lambda>s. wake s tl)) (\<lambda>tlw.
     if timer_is_before waketime tlw then
       bnd timer_read_time (\<lambda>now.
       sq (whenp (timer_is_before waketime now) (sched_try_shutdown ''Timer too close''))
      (sq (if tl = Deleted then bnd (gets (\<lambda>s. t_next (tm s Deleted))) (set_next add)
           else set_next add (Some tl))
      (sq (set_waketime Deleted waketime)
      (sq (set_next Deleted (Some add))
      (sq (upd (timer_list_update (\<lambda>_. Deleted)))
          timer_kick)))))
     else insert_timer tl add waketime)))"

text \<open>
  The search of \<^verbatim>\<open>sched_del_timer\<close>: the element in front of \<^verbatim>\<open>del\<close>, if there is one.
\<close>

partial_function (option) del_find :: "(tref \<Rightarrow> timer) \<Rightarrow> tref \<Rightarrow> tref \<Rightarrow> tref option option" where
  "del_find h pos del =
     (case t_next (h pos) of
        None \<Rightarrow> Some None
      | Some nxt \<Rightarrow> if nxt = del then Some (Some pos) else del_find h nxt del)"

definition sched_del_timer :: "tref \<Rightarrow> ('a sched_scheme, unit) prog" where
  "sched_del_timer del =
     bnd (gets timer_list) (\<lambda>tl.
     sq (if tl = del then
           bnd (gets (\<lambda>s. tm s del)) (\<lambda>d.
           sq (set_waketime Deleted (t_waketime d))
          (sq (set_next Deleted (t_next d))
              (upd (timer_list_update (\<lambda>_. Deleted)))))
         else
           bnd (from_opt (\<lambda>s. del_find (tm s) tl del)) (\<lambda>r.
             case r of
               None \<Rightarrow> ret ()
             | Some pos \<Rightarrow> bnd (gets (\<lambda>s. t_next (tm s del))) (set_next pos)))
        (upd (\<lambda>s. s\<lparr>last_insert := (if last_insert s = del then Periodic else last_insert s)\<rparr>)))"

text \<open>
  \<^verbatim>\<open>sched_timer_dispatch\<close>.  \<open>stepper_event\<close> is the function called directly for a null
  \<^verbatim>\<open>func\<close> under \<^verbatim>\<open>CONFIG_INLINE_STEPPER_HACK\<close>, \<open>call\<close> calls a timer function by
  its pointer.
\<close>

definition sched_timer_dispatch ::
  "(tref \<Rightarrow> ('a sched_scheme, sf) prog) \<Rightarrow> (timer_fn \<Rightarrow> tref \<Rightarrow> ('a sched_scheme, sf) prog)
    \<Rightarrow> ('a sched_scheme, u32) prog" where
  "sched_timer_dispatch stepper_event call =
     bnd (gets timer_list) (\<lambda>t.
     bnd (gets (\<lambda>s. t_func (tm s t))) (\<lambda>f.
     bnd (gets cfg) (\<lambda>c.
     bnd (if CONFIG_INLINE_STEPPER_HACK c \<and> f = Fn_NULL then stepper_event t else call f t) (\<lambda>res.
     bnd (gets (\<lambda>s. wake s t)) (\<lambda>updated_waketime.
     bnd (gets (\<lambda>s. t_next (tm s t))) (\<lambda>np.
     bnd (deref np) (\<lambda>nxt.
     bnd (gets (\<lambda>s. wake s nxt)) (\<lambda>nxt_waketime.
     if res = SF_DONE then
       sq (upd (timer_list_update (\<lambda>_. nxt)))
      (sq (upd (\<lambda>s. s\<lparr>last_insert := (if last_insert s = t then nxt else last_insert s)\<rparr>))
          (ret nxt_waketime))
     else if \<not> timer_is_before updated_waketime nxt_waketime then
       sq (upd (timer_list_update (\<lambda>_. nxt)))
      (bnd (gets last_insert) (\<lambda>li.
       bnd (gets (\<lambda>s. wake s li)) (\<lambda>liw.
       sq (insert_timer (if timer_is_before updated_waketime liw then nxt else li) t updated_waketime)
      (sq (upd (last_insert_update (\<lambda>_. t)))
          (ret nxt_waketime)))))
     else ret updated_waketime))))))))"

definition sched_timer_reset :: "('a sched_scheme, unit) prog" where
  "sched_timer_reset =
     sq (upd (timer_list_update (\<lambda>_. Deleted)))
    (bnd (gets (\<lambda>s. wake s Periodic)) (\<lambda>w.
     sq (set_waketime Deleted w)
    (sq (upd (last_insert_update (\<lambda>_. Periodic)))
    (sq (set_next Deleted (Some Periodic))
    (sq (set_next Periodic (Some Sentinel))
        timer_kick)))))"

section \<open>Shutdown\<close>

definition sched_is_shutdown :: "'a sched_scheme \<Rightarrow> bool" where
  "sched_is_shutdown s \<longleftrightarrow> shutdown_status s \<noteq> 0"

definition sched_clear_shutdown :: "('a sched_scheme, unit) prog" where
  "sched_clear_shutdown =
     bnd (gets shutdown_status) (\<lambda>st.
     if st = 0 then shutdown ''Shutdown cleared when not shutdown''
     else if st = 2 then ret ()
     else upd (shutdown_status_update (\<lambda>_. 0)))"

definition sched_report_shutdown :: "('a sched_scheme, unit) prog" where
  "sched_report_shutdown =
     bnd (gets shutdown_reason) (\<lambda>r.
     sendf ''is_shutdown static_string_id=%hu'' [VInt (ucast r)])"

text \<open>
  \<open>shutdownfuncs\<close> is \<^verbatim>\<open>ctr_run_shutdownfuncs\<close>: the build collects the functions
  declared with \<^verbatim>\<open>DECL_SHUTDOWN\<close>.
\<close>

definition run_shutdown :: "('a sched_scheme, unit) prog \<Rightarrow> u8 \<Rightarrow> ('a sched_scheme, unit) prog" where
  "run_shutdown shutdownfuncs reason =
     bnd timer_read_time (\<lambda>cur.
     sq (upd (\<lambda>s. if shutdown_status s = 0 then s\<lparr>shutdown_reason := reason\<rparr> else s))
    (sq (upd (shutdown_status_update (\<lambda>_. 2)))
    (sq sched_timer_reset
    (sq shutdownfuncs
    (sq (upd (shutdown_status_update (\<lambda>_. 1)))
    (bnd (gets shutdown_reason) (\<lambda>r.
         sendf ''shutdown clock=%u static_string_id=%hu'' [VInt cur, VInt (ucast r)])))))))"

text \<open>
  One round of the endless loop in \<^verbatim>\<open>run_tasks\<close> on the way that does not sleep: \<open>start\<close>
  is the time the round before ended, \<open>taskfuncs\<close> the functions declared with
  \<^verbatim>\<open>DECL_TASK\<close>.  When no task is requested the loop first waits, with only timers running,
  until one is.
\<close>

definition run_tasks_round ::
  "('a sched_scheme, unit) prog \<Rightarrow> ('a sched_scheme, unit) prog \<Rightarrow> ('a sched_scheme, unit) prog
    \<Rightarrow> (u32 \<Rightarrow> u32 \<Rightarrow> ('a sched_scheme, unit) prog) \<Rightarrow> u32 \<Rightarrow> ('a sched_scheme, u32) prog" where
  "run_tasks_round irq_poll wait_for_request taskfuncs stats_update start =
     sq irq_poll
    (bnd (gets (\<lambda>s. tasks_status s \<noteq> TS_REQUESTED)) (\<lambda>idle.
     bnd (if idle then
            bnd timer_read_time (\<lambda>t0.
            sq (upd (tasks_status_update (\<lambda>_. TS_IDLE)))
           (sq wait_for_request
           (bnd timer_read_time (\<lambda>t1. ret (start - t0 + t1)))))
          else ret start) (\<lambda>start.
     sq (upd (tasks_status_update (\<lambda>_. TS_RUNNING)))
    (sq taskfuncs
    (bnd timer_read_time (\<lambda>cur.
     sq (stats_update start cur)
        (ret cur)))))))"

text \<open>The state at power-on.\<close>

definition sched_init :: "config \<Rightarrow> (hwreq \<Rightarrow> nat \<Rightarrow> u32) \<Rightarrow> 'a \<Rightarrow> 'a sched_scheme" where
  "sched_init c e m =
     \<lparr>cfg = c, env = e, env_pos = 0, trace = [], in_sendf = 0, receive_buf = [],
      tm = tm_init, timer_list = Periodic, last_insert = Periodic, tasks_status = 0,
      shutdown_status = 0, shutdown_reason = 0, wakes = (\<lambda>_. 0), \<dots> = m\<rparr>"

section \<open>Linked lists of timers\<close>

text \<open>\<open>chain h xs\<close>: the pointers in \<open>h\<close> link exactly the timers \<open>xs\<close>, the last one to null.\<close>

fun chain :: "(tref \<Rightarrow> timer) \<Rightarrow> tref list \<Rightarrow> bool" where
  "chain h [] \<longleftrightarrow> False"
| "chain h [x] \<longleftrightarrow> t_next (h x) = None"
| "chain h (x # y # r) \<longleftrightarrow> t_next (h x) = Some y \<and> chain h (y # r)"

fun path :: "(tref \<Rightarrow> timer) \<Rightarrow> tref list \<Rightarrow> tref \<Rightarrow> bool" where
  "path h [] z \<longleftrightarrow> True"
| "path h (a # as) z \<longleftrightarrow> t_next (h a) = Some (hd (as @ [z])) \<and> path h as z"

lemma chain_append: "chain h (as @ x # bs) \<longleftrightarrow> path h as x \<and> chain h (x # bs)"
proof (induction as)
  case (Cons a as)
  then show ?case by (cases as) auto
qed simp

lemma chain_cong:
  "(\<And>x. x \<in> set xs \<Longrightarrow> t_next (h x) = t_next (h' x)) \<Longrightarrow> chain h xs = chain h' xs"
  by (induction h xs rule: chain.induct) auto

lemma path_cong:
  "(\<And>x. x \<in> set as \<Longrightarrow> t_next (h x) = t_next (h' x)) \<Longrightarrow> path h as z = path h' as z"
  by (induction as) auto

lemma chain_Cons: "ys \<noteq> [] \<Longrightarrow> chain h (x # ys) \<longleftrightarrow> t_next (h x) = Some (hd ys) \<and> chain h ys"
  by (cases ys) auto

lemma chain_not_Nil: "chain h xs \<Longrightarrow> xs \<noteq> []"
  by auto

text \<open>Insertion of \<open>t\<close> behind the longest prefix that satisfies \<open>P\<close>.\<close>

definition ins :: "('a \<Rightarrow> bool) \<Rightarrow> 'a \<Rightarrow> 'a list \<Rightarrow> 'a list" where
  "ins P t ys = takeWhile P ys @ t # dropWhile P ys"

lemma ins_not_Nil [simp]: "ins P t ys \<noteq> []"
  by (simp add: ins_def)

lemma ins_Nil [simp]: "ins P t [] = [t]"
  by (simp add: ins_def)

lemma ins_Cons: "ins P t (y # ys) = (if P y then y # ins P t ys else t # y # ys)"
  by (simp add: ins_def)

lemma set_ins [simp]: "set (ins P t ys) = insert t (set ys)"
  by (induction ys) (auto simp: ins_Cons)

lemma distinct_ins [simp]: "distinct (ins P t ys) \<longleftrightarrow> distinct ys \<and> t \<notin> set ys"
  by (induction ys) (auto simp: ins_Cons)

lemma last_ins: "\<exists>y\<in>set ys. \<not> P y \<Longrightarrow> last (ins P t ys) = last ys"
proof -
  assume ex: "\<exists>y\<in>set ys. \<not> P y"
  then have "dropWhile P ys \<noteq> []" by (simp add: dropWhile_eq_Nil_conv)
  then have "last (takeWhile P ys @ dropWhile P ys) = last (dropWhile P ys)" by (rule last_appendR)
  then show ?thesis using \<open>dropWhile P ys \<noteq> []\<close> ex by (auto simp: ins_def)
qed

lemma insert_find_chain:
  assumes "chain h (x # ys)" and "\<exists>y\<in>set ys. timer_is_before w (t_waketime (h y))"
  shows "insert_find h x w =
    (let P = (\<lambda>y. \<not> timer_is_before w (t_waketime (h y)))
     in Some (last (x # takeWhile P ys), hd (dropWhile P ys)))"
  using assms
proof (induction ys arbitrary: x)
  case (Cons y ys)
  show ?case
  proof (cases "timer_is_before w (t_waketime (h y))")
    case True
    then show ?thesis using Cons.prems by (subst insert_find.simps) simp
  next
    case False
    then have "insert_find h y w = (let P = (\<lambda>y. \<not> timer_is_before w (t_waketime (h y)))
        in Some (last (y # takeWhile P ys), hd (dropWhile P ys)))"
      using Cons by auto
    with False Cons.prems show ?thesis by (subst insert_find.simps) (simp add: Let_def)
  qed
qed simp

lemma chain_splice:
  assumes "chain h (as @ p # b # bs)" and "distinct (as @ p # b # bs)" and "t \<notin> set (as @ p # b # bs)"
  shows "chain (h(t := (h t)\<lparr>t_next := Some b\<rparr>, p := (h p)\<lparr>t_next := Some t\<rparr>)) (as @ p # t # b # bs)"
proof -
  let ?h = "h(t := (h t)\<lparr>t_next := Some b\<rparr>, p := (h p)\<lparr>t_next := Some t\<rparr>)"
  have "path h as p = path ?h as p" by (rule path_cong) (use assms in auto)
  moreover have "chain h (b # bs) = chain ?h (b # bs)" by (rule chain_cong) (use assms in auto)
  ultimately show ?thesis using assms by (auto simp: chain_append)
qed

text \<open>What \<open>insert_timer\<close> does: it changes only links, and those so that \<open>t\<close> is inserted.\<close>

definition same_but_next :: "(tref \<Rightarrow> timer) \<Rightarrow> (tref \<Rightarrow> timer) \<Rightarrow> bool" where
  "same_but_next h h' \<longleftrightarrow> (\<forall>z. t_waketime (h' z) = t_waketime (h z) \<and> t_func (h' z) = t_func (h z))"

lemma insert_timer_chain:
  assumes "chain (tm s) (zs @ x # ys)" and "distinct (zs @ x # ys)" and "t \<notin> set (zs @ x # ys)"
    and "\<exists>y\<in>set ys. timer_is_before w (wake s y)"
  obtains h where "insert_timer x t w s = Some (Inr (), s\<lparr>tm := h\<rparr>)"
    and "chain h (zs @ x # ins (\<lambda>y. \<not> timer_is_before w (wake s y)) t ys)"
    and "same_but_next (tm s) h"
proof -
  let ?P = "\<lambda>y. \<not> timer_is_before w (wake s y)"
  obtain as where as: "zs @ x # takeWhile ?P ys = as @ [last (x # takeWhile ?P ys)]"
    by (metis append_butlast_last_id append_is_Nil_conv last_append list.distinct(1))
  obtain b bs where b: "dropWhile ?P ys = b # bs"
    using assms(4) by (cases "dropWhile ?P ys") (auto simp: dropWhile_eq_Nil_conv)
  let ?p = "last (x # takeWhile ?P ys)"
  have split: "zs @ x # ys = as @ ?p # b # bs"
    using as b takeWhile_dropWhile_id [of ?P ys] by (metis append.assoc append_Cons append_Nil)
  let ?h = "(tm s)(t := (tm s t)\<lparr>t_next := Some b\<rparr>, ?p := (tm s ?p)\<lparr>t_next := Some t\<rparr>)"
  have "?p \<noteq> t" using assms(3) split by auto
  have "insert_find (tm s) x w = Some (?p, b)"
    using insert_find_chain [of "tm s" x ys w] assms(1,4) b by (simp add: chain_append Let_def)
  then have "insert_timer x t w s = Some (Inr (), s\<lparr>tm := ?h\<rparr>)"
    using \<open>?p \<noteq> t\<close> by (simp add: insert_timer_def set_next_def upd_tm_def prog_defs fun_upd_def cong: if_cong)
  moreover have "chain ?h (as @ ?p # t # b # bs)"
    using assms(1-3) split by (intro chain_splice) auto
  then have "chain ?h (zs @ x # ins ?P t ys)"
    using as b by (metis (no_types, lifting) append.assoc append_Cons append_Nil ins_def)
  moreover have "same_but_next (tm s) ?h"
    by (auto simp: same_but_next_def)
  ultimately show thesis by (rule that)
qed

section \<open>Invariant of the timer list\<close>

text \<open>
  The periodic timer is never removed and the sentinel is always \<open>2 ^ 31\<close> ticks behind it.
\<close>

definition static_ok :: "'a sched_scheme \<Rightarrow> bool" where
  "static_ok s \<longleftrightarrow>
     wake s Sentinel = wake s Periodic + 0x80000000 \<and> t_next (tm s Sentinel) = None \<and>
     t_func (tm s Periodic) = Fn_periodic_event \<and> t_func (tm s Sentinel) = Fn_sentinel_event \<and>
     t_func (tm s Deleted) = Fn_deleted_event"

definition timers_ok :: "tref list \<Rightarrow> 'a sched_scheme \<Rightarrow> bool" where
  "timers_ok xs s \<longleftrightarrow>
     chain (tm s) xs \<and> hd xs = timer_list s \<and> last xs = Sentinel \<and> distinct xs \<and>
     Periodic \<in> set xs \<and> Deleted \<notin> set (tl xs) \<and>
     last_insert s \<in> set xs - {Deleted, Sentinel}"

definition user_timer :: "tref \<Rightarrow> bool" where
  "user_timer t \<longleftrightarrow> t \<notin> {Periodic, Sentinel, Deleted}"

lemma user_ObjTimer [simp]: "user_timer (ObjTimer oid slot)"
  by (simp add: user_timer_def)

lemma before_sentinel: "timer_is_before w (p + 0x80000000) \<longleftrightarrow> \<not> timer_is_before w p"
proof -
  have e: "w - (p + 0x80000000) = (w - p) - 0x80000000" by simp
  have u: "unat (0x80000000 :: u32) = 2 ^ 31" by simp
  have "unat (w - (p + 0x80000000)) =
      (if 2 ^ 31 \<le> unat (w - p) then unat (w - p) - 2 ^ 31 else unat (w - p) + 2 ^ 32 - 2 ^ 31)"
    unfolding e unat_diff_u32 [of "w - p" "0x80000000"] u by (rule refl)
  then show ?thesis
    using unat_u32_less [of "w - p"] by (auto simp: timer_is_before_unat)
qed

text \<open>
  Whatever the waketime, a search that still has the periodic timer and the sentinel before it
  stops: this is the purpose of the sentinel.
\<close>

lemma search_stops:
  "static_ok s \<Longrightarrow> Periodic \<in> set ys \<Longrightarrow> Sentinel \<in> set ys \<Longrightarrow> \<exists>y\<in>set ys. timer_is_before w (wake s y)"
  using before_sentinel [of w "wake s Periodic"] unfolding static_ok_def by metis

lemma timers_ok_cases:
  assumes "timers_ok xs s"
  obtains ys where "xs = timer_list s # ys" and "Periodic \<in> set ys \<or> timer_list s = Periodic"
    and "timer_list s \<noteq> Sentinel" and "ys \<noteq> []" and "last ys = Sentinel"
proof -
  obtain x ys where xs: "xs = x # ys"
    using assms by (cases xs) (auto simp: timers_ok_def)
  have "x \<noteq> Sentinel"
  proof
    assume "x = Sentinel"
    then have "ys = []" using assms xs by (auto simp: timers_ok_def split: if_splits dest: last_in_set)
    with \<open>x = Sentinel\<close> assms xs show False by (simp add: timers_ok_def)
  qed
  then have "ys \<noteq> []" and "last ys = Sentinel"
    using assms xs by (auto simp: timers_ok_def split: if_splits)
  with assms xs \<open>x \<noteq> Sentinel\<close> show thesis
    by (intro that [of ys]) (auto simp: timers_ok_def)
qed

lemma timers_ok_head:
  "timers_ok (t # ys) s \<Longrightarrow> t = timer_list s \<and> t \<noteq> Sentinel \<and> ys \<noteq> [] \<and> last ys = Sentinel"
  by (erule timers_ok_cases) simp

lemma search_stops_tail:
  assumes "timers_ok xs s" and "static_ok s" and "\<not> timer_is_before w (wake s (hd xs))"
  shows "\<exists>y\<in>set (tl xs). timer_is_before w (wake s y)"
proof -
  obtain ys where xs: "xs = timer_list s # ys" and P: "Periodic \<in> set ys \<or> timer_list s = Periodic"
    and ne: "ys \<noteq> []" "last ys = Sentinel"
    using assms(1) by (rule timers_ok_cases)
  have S: "Sentinel \<in> set ys" using ne last_in_set by metis
  show ?thesis
  proof (cases "timer_list s = Periodic")
    case True
    then have "timer_is_before w (wake s Sentinel)"
      using assms(2,3) xs before_sentinel [of w "wake s Periodic"] by (simp add: static_ok_def)
    then show ?thesis using S xs by auto
  next
    case False
    then show ?thesis using P S xs search_stops [OF assms(2), of ys w] by simp
  qed
qed

text \<open>
  The operations on the list touch nothing but links, the list head, the insertion hint and the
  board; only the deleted timer changes its waketime.
\<close>

definition links_only :: "'a sched_scheme \<Rightarrow> 'a sched_scheme \<Rightarrow> bool" where
  "links_only s s' \<longleftrightarrow>
     (\<exists>h hp li ep ks.
        s' = s\<lparr>env_pos := ep, trace := trace s @ ks, tm := h, timer_list := hp, last_insert := li\<rparr> \<and>
        set ks \<subseteq> {TimerKick} \<and>
        (\<forall>z. z \<noteq> Deleted \<longrightarrow> t_waketime (h z) = wake s z) \<and> (\<forall>z. t_func (h z) = t_func (tm s z)))"

lemma links_onlyI:
  assumes "s' = s\<lparr>env_pos := ep, trace := trace s @ ks, tm := h, timer_list := hp, last_insert := li\<rparr>"
    and "set ks \<subseteq> {TimerKick}" and "\<And>z. z \<noteq> Deleted \<Longrightarrow> t_waketime (h z) = wake s z"
    and "\<And>z. t_func (h z) = t_func (tm s z)"
  shows "links_only s s'"
  using assms unfolding links_only_def by blast

lemma links_only_wake: "links_only s s' \<Longrightarrow> z \<noteq> Deleted \<Longrightarrow> wake s' z = wake s z"
  by (auto simp: links_only_def)

lemma links_only_func: "links_only s s' \<Longrightarrow> t_func (tm s' z) = t_func (tm s z)"
  by (auto simp: links_only_def)

lemma links_only_static:
  "links_only s s' \<Longrightarrow> static_ok s \<Longrightarrow> timers_ok xs s' \<Longrightarrow> static_ok s'"
proof -
  assume l: "links_only s s'" and s: "static_ok s" and t: "timers_ok xs s'"
  have "t_next (tm s' Sentinel) = None"
    using t chain_append [of "tm s'" "butlast xs" Sentinel "[]"]
    by (simp add: timers_ok_def) (metis append_butlast_last_id chain_not_Nil)
  with l s show ?thesis
    by (simp add: static_ok_def links_only_wake links_only_func)
qed

section \<open>Adding a timer\<close>

text \<open>The list after \<open>sched_add_timer t\<close>.\<close>

definition add_list :: "'a sched_scheme \<Rightarrow> tref \<Rightarrow> tref list \<Rightarrow> tref list" where
  "add_list s t xs =
     (if timer_is_before (wake s t) (wake s (hd xs))
      then Deleted # t # (if hd xs = Deleted then tl xs else xs)
      else hd xs # ins (\<lambda>y. \<not> timer_is_before (wake s t) (wake s y)) t (tl xs))"

lemma chain_set_new_head:
  assumes "chain h xs" and "t \<notin> set xs" and "Deleted \<notin> set xs" and "t \<noteq> Deleted"
    and "t_next (h' Deleted) = Some t" and "t_next (h' t) = Some (hd xs)"
    and "\<And>x. x \<noteq> Deleted \<Longrightarrow> x \<noteq> t \<Longrightarrow> h' x = h x"
  shows "chain h' (Deleted # t # xs)"
proof -
  have "chain h xs = chain h' xs"
    by (rule chain_cong) (use assms in \<open>metis\<close>)
  then show ?thesis using assms by (cases xs) auto
qed

lemma add_timer_ok:
  assumes "timers_ok xs s" and "static_ok s" and "user_timer t" and "t \<notin> set xs"
  shows "wp (sched_add_timer t)
    (\<lambda>_ s'. timers_ok (add_list s t xs) s' \<and> links_only s s' \<and>
       wake s' Deleted = (if timer_is_before (wake s t) (wake s (hd xs)) then wake s t else wake s Deleted))
    (\<lambda>e s'. e = ''Timer too close'' \<and> shutdown_status s = 0 \<and> s' = s\<lparr>env_pos := Suc (env_pos s)\<rparr>) s"
proof -
  obtain ys where xs: "xs = timer_list s # ys" and P: "Periodic \<in> set ys \<or> timer_list s = Periodic"
    and ne: "timer_list s \<noteq> Sentinel" "ys \<noteq> []" "last ys = Sentinel"
    using assms(1) by (rule timers_ok_cases)
  let ?w = "wake s t" and ?tl = "timer_list s"
  show ?thesis
  proof (cases "timer_is_before ?w (wake s ?tl)")
    case True
    let ?rest = "if ?tl = Deleted then ys else xs"
    let ?h = "(tm s)(t := (tm s t)\<lparr>t_next := Some (hd ?rest)\<rparr>,
        Deleted := (tm s Deleted)\<lparr>t_waketime := ?w, t_next := Some t\<rparr>)"
    have rest: "chain (tm s) ?rest" "Deleted \<notin> set ?rest" "t \<notin> set ?rest"
      using assms(1,4) xs ne(2) by (auto simp: timers_ok_def chain_Cons)
    have nd: "t \<noteq> Deleted" using assms(3) by (simp add: user_timer_def)
    have next_rest: "(if ?tl = Deleted then t_next (tm s Deleted) else Some ?tl) = Some (hd ?rest)"
      using assms(1) xs ne(2) by (auto simp: timers_ok_def chain_Cons)
    let ?s = "s\<lparr>env_pos := Suc (env_pos s), tm := ?h, timer_list := Deleted, trace := trace s @ [TimerKick]\<rparr>"
    have "chain ?h (Deleted # t # ?rest)"
      by (rule chain_set_new_head [OF rest(1,3,2) nd]) (use nd in auto)
    then have "timers_ok (add_list s t xs) ?s"
      using assms xs nd True by (auto simp: timers_ok_def add_list_def user_timer_def ne)
    moreover have "links_only s ?s"
      using nd by (intro links_onlyI [where ks = "[TimerKick]" and li = "last_insert s" and h = ?h
            and hp = Deleted and ep = "Suc (env_pos s)"] sched.equality) auto
    ultimately show ?thesis
      using True next_rest nd xs
      by (auto simp: sched_add_timer_def timer_read_time_def sched_try_shutdown_def set_next_def set_waketime_def
          upd_tm_def timer_kick_def wp_simps fun_upd_twist split: if_splits)
  next
    case False
    have "\<exists>y\<in>set ys. timer_is_before ?w (wake s y)"
      using search_stops_tail [OF assms(1,2)] False xs by simp
    then obtain h where h: "insert_timer ?tl t ?w s = Some (Inr (), s\<lparr>tm := h\<rparr>)"
      "chain h (?tl # ins (\<lambda>y. \<not> timer_is_before ?w (wake s y)) t ys)" "same_but_next (tm s) h"
      "last (ins (\<lambda>y. \<not> timer_is_before ?w (wake s y)) t ys) = Sentinel"
      using insert_timer_chain [of s "[]" ?tl ys t ?w] assms(1,4) xs last_ins [of ys] ne(3)
      by (auto simp: timers_ok_def)
    have "timers_ok (add_list s t xs) (s\<lparr>tm := h\<rparr>)"
      using assms xs h(2,4) False by (auto simp: timers_ok_def add_list_def user_timer_def)
    moreover have "links_only s (s\<lparr>tm := h\<rparr>)"
      using h(3) by (intro links_onlyI [where ks = "[]" and h = h and li = "last_insert s" and hp = ?tl
            and ep = "env_pos s"]) (auto simp: same_but_next_def)
    ultimately show ?thesis
      using False h(1,3) xs by (simp add: sched_add_timer_def wp_simps) (simp add: wp_def same_but_next_def)
  qed
qed

section \<open>Deleting a timer\<close>

definition del_list :: "tref \<Rightarrow> tref list \<Rightarrow> tref list" where
  "del_list d xs = (if hd xs = d then Deleted # tl xs else remove1 d xs)"

lemma del_find_chain:
  assumes "chain h (x # ys)"
  shows "del_find h x d = Some (if d \<in> set ys then Some (last (x # takeWhile (\<lambda>y. y \<noteq> d) ys)) else None)"
  using assms
proof (induction ys arbitrary: x)
  case Nil
  then show ?case by (subst del_find.simps) simp
next
  case (Cons y ys)
  then show ?case by (subst del_find.simps) auto
qed

lemma chain_unlink:
  assumes "chain h (as @ p # d # bs)" and "distinct (as @ p # d # bs)" and "bs \<noteq> []"
  shows "chain (h(p := (h p)\<lparr>t_next := t_next (h d)\<rparr>)) (as @ p # bs)"
proof -
  let ?h = "h(p := (h p)\<lparr>t_next := t_next (h d)\<rparr>)"
  have *: "path h as p" "chain h bs" "t_next (h d) = Some (hd bs)"
    using assms by (simp_all add: chain_append chain_Cons)
  have "path ?h as p" by (subst path_cong [of as ?h h]) (use assms(2) *(1) in auto)
  moreover have "chain ?h bs" by (subst chain_cong [of bs ?h h]) (use assms(2) *(2) in auto)
  ultimately show ?thesis
    using assms(3) *(3) by (simp add: chain_append chain_Cons)
qed

lemma takeWhile_neq: "d \<notin> set as \<Longrightarrow> takeWhile (\<lambda>y. y \<noteq> d) (as @ d # bs) = as"
  by (induction as) auto

lemma del_timer_ok:
  assumes "timers_ok xs s" and "user_timer d"
  shows "wp (sched_del_timer d)
    (\<lambda>_ s'. timers_ok (del_list d xs) s' \<and> links_only s s' \<and>
       wake s' Deleted = (if hd xs = d then wake s d else wake s Deleted)) (\<lambda>_ _. False) s"
proof -
  obtain ys where xs: "xs = timer_list s # ys" and P: "Periodic \<in> set ys \<or> timer_list s = Periodic"
    and ne: "timer_list s \<noteq> Sentinel" "ys \<noteq> []" "last ys = Sentinel"
    using assms(1) by (rule timers_ok_cases)
  let ?tl = "timer_list s"
  let ?li = "if last_insert s = d then Periodic else last_insert s"
  have d: "d \<noteq> Deleted" "d \<noteq> Periodic" "d \<noteq> Sentinel" using assms(2) by (auto simp: user_timer_def)
  note defs = sched_del_timer_def set_waketime_def set_next_def upd_tm_def
  consider (head) "?tl = d" | (inside) "?tl \<noteq> d" "d \<in> set ys" | (absent) "?tl \<noteq> d" "d \<notin> set ys" by blast
  then show ?thesis
  proof cases
    case head
    let ?h = "(tm s)(Deleted := (tm s Deleted)\<lparr>t_waketime := wake s d, t_next := t_next (tm s d)\<rparr>)"
    let ?s = "s\<lparr>tm := ?h, timer_list := Deleted, last_insert := ?li\<rparr>"
    have D: "Deleted \<notin> set ys" using assms(1) xs by (simp add: timers_ok_def)
    have "chain (tm s) ys = chain ?h ys" by (rule chain_cong) (use D in auto)
    then have "timers_ok (del_list d xs) ?s"
      using assms(1) xs head d ne P by (auto simp: timers_ok_def del_list_def chain_Cons)
    moreover have "links_only s ?s"
      by (rule links_onlyI [where ks = "[]" and h = ?h and hp = Deleted and li = ?li and ep = "env_pos s"]) auto
    ultimately show ?thesis
      using head d xs by (auto simp: defs wp_simps split: if_splits)
  next
    case inside
    then obtain as bs where ys: "ys = as @ d # bs" "d \<notin> set as" by (meson split_list_first)
    have bs: "bs \<noteq> []" using ys d ne(3) by auto
    obtain zs p where sp: "?tl # as = zs @ [p]" by (metis list.distinct(1) rev_exhaust)
    let ?h = "(tm s)(p := (tm s p)\<lparr>t_next := t_next (tm s d)\<rparr>)"
    let ?s = "s\<lparr>tm := ?h, last_insert := ?li\<rparr>"
    have xs': "xs = zs @ p # d # bs" using xs ys sp by (metis append.assoc append_Cons append_Nil)
    have "d \<notin> set (zs @ [p])" using inside ys by (simp flip: sp)
    then have rem: "remove1 d xs = zs @ p # bs" by (simp add: xs' remove1_append)
    have "chain ?h (zs @ p # bs)"
      using assms(1) xs' bs by (intro chain_unlink) (auto simp: timers_ok_def)
    moreover have "last (remove1 d xs) = Sentinel"
      using assms(1) bs unfolding rem by (simp add: timers_ok_def xs')
    moreover have "tl (remove1 d xs) = remove1 d ys" "hd (remove1 d xs) = ?tl" using xs inside by simp_all
    moreover have "set (remove1 d xs) = set xs - {d}" "distinct (remove1 d xs)"
      using assms(1) by (simp_all add: timers_ok_def set_remove1_eq)
    ultimately have "timers_ok (remove1 d xs) ?s"
      using assms(1) d inside xs unfolding timers_ok_def rem [symmetric]
      by (auto simp: notin_set_remove1)
    then have "timers_ok (del_list d xs) ?s" using xs inside by (simp add: del_list_def)
    moreover have "links_only s ?s"
      by (rule links_onlyI [where ks = "[]" and h = ?h and hp = ?tl and li = ?li and ep = "env_pos s"]) auto
    moreover have "takeWhile (\<lambda>y. y \<noteq> d) ys = as" using ys by (simp add: takeWhile_neq)
    then have "del_find (tm s) ?tl d = Some (Some (last (?tl # as)))"
      using del_find_chain [of "tm s" ?tl ys d] assms(1) xs inside by (simp add: timers_ok_def)
    then have "del_find (tm s) ?tl d = Some (Some p)" by (simp only: sp last_snoc)
    ultimately show ?thesis
      using inside d xs by (auto simp: defs wp_simps split: if_splits)
  next
    case absent
    let ?s = "s\<lparr>last_insert := ?li\<rparr>"
    have "del_find (tm s) ?tl d = Some None"
      using del_find_chain [of "tm s" ?tl ys d] assms(1) xs absent by (simp add: timers_ok_def)
    moreover have "timers_ok (del_list d xs) ?s"
      using assms(1) xs absent d by (auto simp: timers_ok_def del_list_def remove1_idem)
    moreover have "links_only s ?s"
      by (rule links_onlyI [where ks = "[]" and h = "tm s" and hp = ?tl and li = ?li and ep = "env_pos s"]) auto
    ultimately show ?thesis
      using absent d xs by (auto simp: defs wp_simps split: if_splits)
  qed
qed

section \<open>Order of the timer list\<close>

text \<open>
  Waketimes are compared modulo \<open>2 ^ 32\<close>.  Relative to a base time \<open>b\<close> with all timers at
  most \<open>2 ^ 31\<close> ticks behind it, the list is sorted; the sentinel counts as infinitely late.
\<close>

definition tkey :: "u32 \<Rightarrow> 'a sched_scheme \<Rightarrow> tref \<Rightarrow> nat" where
  "tkey b s x = (if x = Sentinel then 2 ^ 32 else unat (wake s x - b))"

definition wsorted :: "u32 \<Rightarrow> 'a sched_scheme \<Rightarrow> tref list \<Rightarrow> bool" where
  "wsorted b s xs \<longleftrightarrow>
     sorted (map (tkey b s) xs) \<and> (\<forall>x\<in>set xs. x \<noteq> Sentinel \<longrightarrow> unat (wake s x - b) < 2 ^ 31)"

lemma sorted_ins: "sorted (map k ys) \<Longrightarrow> sorted (map k (ins (\<lambda>y. k y \<le> k t) t ys))"
  by (induction ys) (auto simp: ins_Cons)

lemma ins_cong_last:
  assumes "\<And>y. y \<in> set (butlast ys) \<Longrightarrow> P y = P' y" and "\<not> P' (last ys)" and "\<exists>y\<in>set ys. \<not> P y"
  shows "ins P t ys = ins P' t ys"
  using assms
proof (induction ys)
  case (Cons y ys)
  then show ?case by (cases "ys = []") (auto simp: ins_Cons)
qed simp

lemma wsorted_cong:
  "(\<And>x. x \<in> set xs \<Longrightarrow> x \<noteq> Sentinel \<Longrightarrow> wake s' x = wake s x) \<Longrightarrow> wsorted b s' xs = wsorted b s xs"
proof -
  assume *: "\<And>x. x \<in> set xs \<Longrightarrow> x \<noteq> Sentinel \<Longrightarrow> wake s' x = wake s x"
  have "map (tkey b s') xs = map (tkey b s) xs" using * by (simp add: tkey_def)
  moreover have "(\<forall>x\<in>set xs. x \<noteq> Sentinel \<longrightarrow> unat (wake s' x - b) < 2 ^ 31)
      = (\<forall>x\<in>set xs. x \<noteq> Sentinel \<longrightarrow> unat (wake s x - b) < 2 ^ 31)" using * by auto
  ultimately show ?thesis unfolding wsorted_def by (rule arg_cong2 [where f = "\<lambda>x y. sorted x \<and> y"])
qed

lemma wsorted_Cons:
  "wsorted b s (x # xs) \<longleftrightarrow> (x \<noteq> Sentinel \<longrightarrow> unat (wake s x - b) < 2 ^ 31) \<and>
     (\<forall>y\<in>set xs. tkey b s x \<le> tkey b s y) \<and> wsorted b s xs"
  by (auto simp: wsorted_def)

lemma tkey_user: "x \<noteq> Sentinel \<Longrightarrow> tkey b s x = unat (wake s x - b)"
  by (simp add: tkey_def)

text \<open>Inserting by \<open>timer_is_before\<close> is inserting by key.\<close>

lemma ins_before_key:
  assumes "wsorted b s ys" and "ys \<noteq> []" and "last ys = Sentinel" and "distinct ys"
    and "t \<noteq> Sentinel" and "unat (wake s t - b) < 2 ^ 31" and "\<exists>y\<in>set ys. timer_is_before (wake s t) (wake s y)"
  shows "ins (\<lambda>y. \<not> timer_is_before (wake s t) (wake s y)) t ys = ins (\<lambda>y. tkey b s y \<le> tkey b s t) t ys"
proof (rule ins_cong_last)
  fix y assume y: "y \<in> set (butlast ys)"
  have "distinct (butlast ys @ [last ys])" using assms(2,4) by simp
  then have "y \<noteq> Sentinel" using y assms(3) by auto
  then show "(\<not> timer_is_before (wake s t) (wake s y)) = (tkey b s y \<le> tkey b s t)"
    using assms(1,5,6) y timer_is_before_offset [of "wake s t" b "wake s y"]
    by (auto simp: wsorted_def tkey_user dest!: in_set_butlastD)
next
  show "\<not> tkey b s (last ys) \<le> tkey b s t"
    using assms(3,5) unat_u32_less [of "wake s t - b"] by (simp add: tkey_def)
qed (use assms(7) in auto)

lemma wsorted_ins:
  assumes "wsorted b s ys" and "t \<noteq> Sentinel" and "unat (wake s t - b) < 2 ^ 31"
  shows "wsorted b s (ins (\<lambda>y. tkey b s y \<le> tkey b s t) t ys)"
  using assms by (auto simp: wsorted_def sorted_ins)

lemma ins_prefix: "(\<And>x. x \<in> set as \<Longrightarrow> P x) \<Longrightarrow> as @ ins P t ys = ins P t (as @ ys)"
  by (induction as) (auto simp: ins_Cons)

text \<open>\<open>add_list\<close> keeps the order.\<close>

lemma add_list_sorted:
  assumes "timers_ok xs s" and "static_ok s" and "user_timer t" and "t \<notin> set xs"
    and "wsorted b s xs" and "unat (wake s t - b) < 2 ^ 31"
    and "links_only s s'"
    and "wake s' Deleted = (if timer_is_before (wake s t) (wake s (hd xs)) then wake s t else wake s Deleted)"
  shows "wsorted b s' (add_list s t xs)"
proof -
  obtain ys where xs: "xs = timer_list s # ys" and P: "Periodic \<in> set ys \<or> timer_list s = Periodic"
    and ne: "timer_list s \<noteq> Sentinel" "ys \<noteq> []" "last ys = Sentinel"
    using assms(1) by (rule timers_ok_cases)
  have t: "t \<noteq> Sentinel" "t \<noteq> Deleted" using assms(3) by (auto simp: user_timer_def)
  have D: "Deleted \<notin> set ys" using assms(1) xs by (simp add: timers_ok_def)
  have key: "timer_is_before (wake s t) (wake s (hd xs)) \<longleftrightarrow> tkey b s t < tkey b s (hd xs)"
    using timer_is_before_offset [of "wake s t" b "wake s (hd xs)"] assms(5,6) xs ne t
    by (simp add: wsorted_Cons tkey_user)
  show ?thesis
  proof (cases "timer_is_before (wake s t) (wake s (hd xs))")
    case True
    let ?rest = "if hd xs = Deleted then tl xs else xs"
    have DR: "Deleted \<notin> set ?rest" "set ?rest \<subseteq> set xs" using D xs by auto
    have w: "wake s' x = wake s x" if "x \<in> set ?rest" for x
      using links_only_wake [OF assms(7), of x] DR(1) that by metis
    have "wsorted b s' ?rest = wsorted b s ?rest"
      by (rule wsorted_cong) (rule w)
    moreover have "tkey b s' t = tkey b s t" "tkey b s' Deleted = tkey b s t"
      using assms(7,8) t True by (simp_all add: tkey_def links_only_wake)
    moreover have "\<forall>y\<in>set ?rest. tkey b s' y = tkey b s y"
      using w by (simp add: tkey_def)
    moreover have "\<forall>y\<in>set xs. tkey b s t \<le> tkey b s y"
      using True key assms(5) xs by (auto simp: wsorted_Cons)
    moreover have "wsorted b s ?rest" using assms(5) xs by (simp add: wsorted_Cons)
    moreover have "add_list s t xs = Deleted # t # ?rest" using True by (simp add: add_list_def)
    ultimately show ?thesis
      using assms(6,8) links_only_wake [OF assms(7) t(2)] t DR(2) True
      by (simp only: wsorted_Cons) auto
  next
    case False
    have ex: "\<exists>y\<in>set ys. timer_is_before (wake s t) (wake s y)"
      using search_stops_tail [OF assms(1,2)] False xs by simp
    have "wsorted b s ys" using assms(5) xs by (simp add: wsorted_Cons)
    then have "ins (\<lambda>y. \<not> timer_is_before (wake s t) (wake s y)) t ys = ins (\<lambda>y. tkey b s y \<le> tkey b s t) t ys"
      using ins_before_key [of b s ys t] ne t ex assms(1,6) xs by (simp add: timers_ok_def)
    moreover have "wsorted b s (timer_list s # ins (\<lambda>y. tkey b s y \<le> tkey b s t) t ys)"
      using wsorted_ins [of b s xs t] assms(5,6) t False key xs by (simp add: ins_Cons not_less)
    moreover have "wsorted b s' (add_list s t xs) = wsorted b s (add_list s t xs)"
      by (rule wsorted_cong) (metis assms(7,8) False links_only_wake)
    ultimately show ?thesis using False xs by (simp add: add_list_def)
  qed
qed


section \<open>Dispatching a timer\<close>

lemma links_only_refl: "links_only s s"
  by (rule links_onlyI [where ks = "[]" and h = "tm s" and hp = "timer_list s" and li = "last_insert s"
      and ep = "env_pos s"]) auto

text \<open>
  The part of \<^verbatim>\<open>sched_timer_dispatch\<close> behind the callback: from a state in which the
  callback of the head \<open>t\<close> has returned \<open>res\<close>.
\<close>

definition redispatch :: "tref \<Rightarrow> sf \<Rightarrow> ('a sched_scheme, u32) prog" where
  "redispatch t res =
     bnd (gets (\<lambda>s. wake s t)) (\<lambda>updated_waketime.
     bnd (gets (\<lambda>s. t_next (tm s t))) (\<lambda>np.
     bnd (deref np) (\<lambda>nxt.
     bnd (gets (\<lambda>s. wake s nxt)) (\<lambda>nxt_waketime.
     if res = SF_DONE then
       sq (upd (timer_list_update (\<lambda>_. nxt)))
      (sq (upd (\<lambda>s. s\<lparr>last_insert := (if last_insert s = t then nxt else last_insert s)\<rparr>))
          (ret nxt_waketime))
     else if \<not> timer_is_before updated_waketime nxt_waketime then
       sq (upd (timer_list_update (\<lambda>_. nxt)))
      (bnd (gets last_insert) (\<lambda>li.
       bnd (gets (\<lambda>s. wake s li)) (\<lambda>liw.
       sq (insert_timer (if timer_is_before updated_waketime liw then nxt else li) t updated_waketime)
      (sq (upd (last_insert_update (\<lambda>_. t)))
          (ret nxt_waketime)))))
     else ret updated_waketime))))"

lemma dispatch_redispatch:
  "sched_timer_dispatch stepper_event call =
     bnd (gets timer_list) (\<lambda>t.
     bnd (gets (\<lambda>s. t_func (tm s t))) (\<lambda>f.
     bnd (gets cfg) (\<lambda>c.
     bnd (if CONFIG_INLINE_STEPPER_HACK c \<and> f = Fn_NULL then stepper_event t else call f t) (redispatch t))))"
  by (simp add: sched_timer_dispatch_def redispatch_def [abs_def])

text \<open>
  What a callback must leave behind: its timer \<open>t\<close> still in front, the others in order, and
  for a timer that wants to run again a waketime in the window; the periodic timer always runs
  again and the deleted one never.
\<close>

definition callback_ok :: "u32 \<Rightarrow> tref \<Rightarrow> sf \<Rightarrow> 'a sched_scheme \<Rightarrow> tref list \<Rightarrow> bool" where
  "callback_ok b t res s ys \<longleftrightarrow>
     timers_ok (t # ys) s \<and> static_ok s \<and> wsorted b s ys \<and>
     (case res of SF_DONE \<Rightarrow> t \<noteq> Periodic
      | SF_RESCHEDULE \<Rightarrow> t \<noteq> Deleted \<and> unat (wake s t - b) < 2 ^ 31)"

definition dispatch_list :: "u32 \<Rightarrow> tref \<Rightarrow> sf \<Rightarrow> 'a sched_scheme \<Rightarrow> tref list \<Rightarrow> tref list" where
  "dispatch_list b t res s ys =
     (case res of SF_DONE \<Rightarrow> ys | SF_RESCHEDULE \<Rightarrow> ins (\<lambda>y. tkey b s y \<le> tkey b s t) t ys)"

lemma redispatch_done:
  assumes ok: "timers_ok (t # ys) s" and t: "t \<noteq> Periodic"
  shows "wp (redispatch t SF_DONE)
    (\<lambda>r s'. timers_ok ys s' \<and> links_only s s' \<and> tm s' = tm s \<and> r = wake s' (timer_list s')) (\<lambda>_ _. False) s"
proof -
  obtain P: "Periodic \<in> set ys" and ne: "ys \<noteq> []" and hd: "t = timer_list s" "t \<noteq> Sentinel"
    using timers_ok_cases [OF ok] t by (metis list.inject)
  let ?li = "if last_insert s = t then hd ys else last_insert s"
  let ?s = "s\<lparr>timer_list := hd ys, last_insert := ?li\<rparr>"
  have c: "t_next (tm s t) = Some (hd ys)" "chain (tm s) ys"
    using ok ne by (auto simp: timers_ok_def chain_Cons)
  have "hd ys \<noteq> Sentinel"
  proof
    assume "hd ys = Sentinel"
    then have "tl ys = []"
      using ok ne by (cases ys) (auto simp: timers_ok_def split: if_splits dest: last_in_set)
    with \<open>hd ys = Sentinel\<close> P ne show False by (cases ys) auto
  qed
  then have "timers_ok ys ?s"
    using ok ne c P hd_in_set [OF ne] by (auto simp: timers_ok_def dest: list.set_sel(2))
  moreover have "links_only s ?s"
    by (rule links_onlyI [where ks = "[]" and h = "tm s" and hp = "hd ys" and li = ?li and ep = "env_pos s"]) auto
  ultimately show ?thesis
    using c by (auto simp: redispatch_def wp_simps split: if_splits)
qed

lemma redispatch_search:
  assumes "callback_ok b t SF_RESCHEDULE s ys" and "ys = zs @ x # us" and "x \<noteq> Sentinel"
    and "\<not> timer_is_before (wake s t) (wake s x)"
  shows "(\<forall>z\<in>set (zs @ [x]). tkey b s z \<le> tkey b s t) \<and> (\<exists>y\<in>set us. timer_is_before (wake s t) (wake s y))"
proof -
  have ok: "timers_ok (t # ys) s" and st: "static_ok s" and w: "wsorted b s ys"
    and t: "unat (wake s t - b) < 2 ^ 31" using assms(1) by (auto simp: callback_ok_def)
  have ts: "t \<noteq> Sentinel" using timers_ok_cases [OF ok] by (metis list.inject)
  have "tkey b s x \<le> tkey b s t"
    using assms(2-4) w t ts timer_is_before_offset [of "wake s t" b "wake s x"]
    by (auto simp: wsorted_def tkey_user)
  then have le: "\<forall>z\<in>set (zs @ [x]). tkey b s z \<le> tkey b s t"
    using w assms(2) by (auto simp: wsorted_def sorted_append intro: order_trans)
  have S: "Sentinel \<in> set us"
  proof -
    have "last (x # us) = Sentinel" using ok assms(2) by (auto simp: timers_ok_def)
    then show ?thesis using assms(3) last_in_set by (metis last.simps)
  qed
  show ?thesis
  proof (cases "timer_is_before (wake s t) (wake s Sentinel)")
    case True
    with le S show ?thesis by auto
  next
    case False
    then have before: "timer_is_before (wake s t) (wake s Periodic)"
      using st before_sentinel [of "wake s t" "wake s Periodic"] by (simp add: static_ok_def)
    then have "t \<noteq> Periodic" by (auto simp: timer_is_before_def)
    then have P: "Periodic \<in> set ys" using ok by (auto simp: timers_ok_def)
    then have "tkey b s t < tkey b s Periodic"
      using before w t ts timer_is_before_offset [of "wake s t" b "wake s Periodic"]
      by (auto simp: wsorted_def tkey_user)
    then have "Periodic \<in> set us" using P le assms(2) by fastforce
    with le before show ?thesis by auto
  qed
qed

lemma redispatch_insert:
  assumes "callback_ok b t SF_RESCHEDULE s ys" and "x \<in> set ys" and "x \<noteq> Sentinel"
    and "\<not> timer_is_before (wake s t) (wake s x)"
  obtains h where "insert_timer x t (wake s t) (s\<lparr>timer_list := p\<rparr>) = Some (Inr (), s\<lparr>timer_list := p, tm := h\<rparr>)"
    and "chain h (ins (\<lambda>y. tkey b s y \<le> tkey b s t) t ys)"
    and "same_but_next (tm s) h" and "last (ins (\<lambda>y. tkey b s y \<le> tkey b s t) t ys) = Sentinel"
proof -
  let ?s = "s\<lparr>timer_list := p\<rparr>"
  let ?P = "\<lambda>y. \<not> timer_is_before (wake s t) (wake s y)" and ?K = "\<lambda>y. tkey b s y \<le> tkey b s t"
  have ok: "timers_ok (t # ys) s" and w: "wsorted b s ys" and t: "unat (wake s t - b) < 2 ^ 31"
    using assms(1) by (auto simp: callback_ok_def)
  have ts: "t \<noteq> Sentinel" using timers_ok_cases [OF ok] by (metis list.inject)
  obtain zs us where ys: "ys = zs @ x # us" using assms(2) by (meson split_list)
  note s = redispatch_search [OF assms(1) ys assms(3,4)]
  have c: "chain (tm s) ys" "distinct ys" "t \<notin> set ys" and last: "last us = Sentinel" "us \<noteq> []"
    using ok assms(3) ys by (auto simp: timers_ok_def chain_Cons split: if_splits)
  obtain h where h: "insert_timer x t (wake s t) ?s = Some (Inr (), ?s\<lparr>tm := h\<rparr>)"
    "chain h (zs @ x # ins ?P t us)" "same_but_next (tm s) h"
    using insert_timer_chain [of ?s zs x us t "wake s t"] c ys s by auto
  have "wsorted b s us" using w ys by (auto simp: wsorted_def sorted_append)
  then have "ins ?P t us = ins ?K t us"
    using ins_before_key [of b s us t] last s ts t c(2) ys by simp
  then have "zs @ x # ins ?P t us = ins ?K t ys"
    using ins_prefix [of "zs @ [x]" ?K t us] s ys by simp
  moreover have "last (ins ?P t us) = Sentinel" using last_ins [of us ?P t] s last(1) by auto
  ultimately show thesis
    using that h by (metis (no_types, lifting) last.simps last_append ins_not_Nil list.distinct(1))
qed

lemma redispatch_again:
  assumes "callback_ok b t SF_RESCHEDULE s ys"
  shows "wp (redispatch t SF_RESCHEDULE)
    (\<lambda>r s'. timers_ok (ins (\<lambda>y. tkey b s y \<le> tkey b s t) t ys) s' \<and> links_only s s' \<and>
       wake s' Deleted = wake s Deleted \<and> r = wake s' (timer_list s')) (\<lambda>_ _. False) s"
proof -
  let ?w = "wake s t" and ?K = "\<lambda>y. tkey b s y \<le> tkey b s t"
  have ok: "timers_ok (t # ys) s" and st: "static_ok s" and w: "wsorted b s ys"
    and t: "t \<noteq> Deleted" "unat (?w - b) < 2 ^ 31"
    using assms by (auto simp: callback_ok_def)
  obtain ne: "ys \<noteq> []" and hd: "t = timer_list s" "t \<noteq> Sentinel" and last: "last ys = Sentinel"
    using timers_ok_cases [OF ok] by (metis list.inject)
  have c: "t_next (tm s t) = Some (hd ys)" "chain (tm s) ys" using ok ne by (auto simp: timers_ok_def chain_Cons)
  show ?thesis
  proof (cases "timer_is_before ?w (wake s (hd ys))")
    case True
    have "tkey b s t < tkey b s (hd ys)"
      using True w t hd ne timer_is_before_offset [of ?w b "wake s (hd ys)"] unat_u32_less [of "?w - b"]
      by (cases "hd ys = Sentinel") (auto simp: wsorted_def tkey_def)
    then have "ins ?K t ys = t # ys" using ne by (cases ys) (auto simp: ins_Cons)
    moreover note links_only_refl [of s]
    ultimately show ?thesis
      using True c ok hd by (simp add: redispatch_def wp_simps)
  next
    case False
    have nS: "hd ys \<noteq> Sentinel"
    proof
      assume S: "hd ys = Sentinel"
      then have "t = Periodic" using ok ne by (cases ys) (auto simp: timers_ok_def split: if_splits dest: last_in_set)
      then show False using False S st before_sentinel [of ?w ?w] by (simp add: static_ok_def timer_is_before_def)
    qed
    let ?li = "last_insert s"
    let ?s = "s\<lparr>timer_list := hd ys\<rparr>"
    let ?pos = "if timer_is_before ?w (wake s ?li) then hd ys else ?li"
    let ?x = "if ?pos = t then hd ys else ?pos"
    have x: "?x \<in> set ys" "?x \<noteq> Sentinel" "\<not> timer_is_before ?w (wake s ?x)"
      using ok ne nS False by (auto simp: timers_ok_def)
    obtain h where h: "insert_timer ?x t ?w ?s = Some (Inr (), ?s\<lparr>tm := h\<rparr>)"
      "chain h (ins ?K t ys)" "same_but_next (tm s) h" "last (ins ?K t ys) = Sentinel"
      using redispatch_insert [OF assms x, of "hd ys"] by blast
    have "insert_find (tm s) t ?w = insert_find (tm s) (hd ys) ?w"
      using c False by (subst insert_find.simps) simp
    then have "insert_timer t t ?w ?s = insert_timer (hd ys) t ?w ?s"
      by (simp add: insert_timer_def prog_defs)
    then have pos: "insert_timer ?pos t ?w ?s = Some (Inr (), ?s\<lparr>tm := h\<rparr>)"
      using h(1) by (auto split: if_splits)
    have "?K (hd ys)"
      using redispatch_search [OF assms, of "[]" "hd ys" "tl ys"] ne nS False by simp
    then have hdi: "hd (ins ?K t ys) = hd ys" using ne by (cases ys) (auto simp: ins_Cons)
    let ?s' = "s\<lparr>timer_list := hd ys, tm := h, last_insert := t\<rparr>"
    have "Deleted \<notin> set (ins ?K t ys)" using ok t by (simp add: timers_ok_def)
    then have "timers_ok (ins ?K t ys) ?s'"
      using ok ne hd t h hdi by (auto simp: timers_ok_def dest: list.set_sel(2) [rotated])
    moreover have "links_only s ?s'"
      using h(3) by (intro links_onlyI [where ks = "[]" and h = h and hp = "hd ys" and li = t and ep = "env_pos s"])
        (auto simp: same_but_next_def)
    ultimately show ?thesis
      using False c pos h(3)
      by (cases "timer_is_before ?w (wake s ?li)") (simp_all add: redispatch_def wp_simps wp_ok same_but_next_def)
  qed
qed

lemma insert_find_stops:
  assumes "chain h (x # ys)" and "insert_find h x w = Some r"
  shows "\<exists>y\<in>set ys. timer_is_before w (t_waketime (h y))"
  using assms
proof (induction ys arbitrary: x)
  case Nil
  then show ?case by (simp add: insert_find.simps [of h x])
next
  case (Cons y ys)
  then show ?case by (simp add: insert_find.simps [of h x]) (auto split: if_splits)
qed

text \<open>
  Whatever waketime a callback leaves, a dispatch that returns keeps the list intact and loses no
  timer but one that is done.
\<close>

lemma redispatch_struct:
  assumes ok: "timers_ok (t # ys) s" and run: "redispatch t res s = Some (r, s')"
    and t: "res = SF_DONE \<longrightarrow> t \<noteq> Periodic" "res = SF_RESCHEDULE \<longrightarrow> t \<noteq> Deleted"
  shows "\<exists>xs v. timers_ok xs s' \<and> links_only s s' \<and> r = Inr v \<and>
    set xs = (if res = SF_DONE then set ys else set (t # ys))"
proof (cases res)
  case SF_DONE
  then show ?thesis
    using redispatch_done [OF ok] t run by (cases r) (auto simp: wp_def)
next
  case SF_RESCHEDULE
  let ?w = "wake s t"
  obtain ne: "ys \<noteq> []" and hd: "t = timer_list s" "t \<noteq> Sentinel" and last: "last ys = Sentinel"
    using timers_ok_cases [OF ok] by (metis list.inject)
  have c: "t_next (tm s t) = Some (hd ys)" "chain (tm s) ys" using ok ne by (auto simp: timers_ok_def chain_Cons)
  show ?thesis
  proof (cases "timer_is_before ?w (wake s (hd ys))")
    case True
    then have "r = Inr ?w \<and> s' = s"
      using run SF_RESCHEDULE c by (auto simp: redispatch_def prog_defs)
    then show ?thesis using ok links_only_refl [of s] SF_RESCHEDULE by auto
  next
    case False
    let ?li = "last_insert s"
    let ?s = "s\<lparr>timer_list := hd ys\<rparr>"
    let ?pos = "if timer_is_before ?w (wake s ?li) then hd ys else ?li"
    define x where "x = (if ?pos = t then hd ys else ?pos)"
    have "insert_find (tm s) t ?w = insert_find (tm s) (hd ys) ?w"
      using c False by (subst insert_find.simps) simp
    then have pos: "insert_find (tm s) ?pos ?w = insert_find (tm s) x ?w" by (auto simp: x_def)
    then have same: "insert_timer ?pos t ?w ?s = insert_timer x t ?w ?s"
      unfolding insert_timer_def bnd_def from_opt_def by simp
    have "x \<in> set ys" using ok ne by (auto simp: timers_ok_def x_def)
    then obtain zs us where ys: "ys = zs @ x # us" by (meson split_list)
    obtain r' where r': "insert_find (tm s) x ?w = Some r'"
      using run SF_RESCHEDULE c False pos
      by (cases "insert_find (tm s) x ?w")
         (auto simp: redispatch_def insert_timer_def prog_defs split: option.splits if_splits)
    have "chain (tm s) (x # us)" using c(2) ys chain_append by metis
    then have ex: "\<exists>y\<in>set us. timer_is_before ?w (wake s y)" using insert_find_stops r' by blast
    obtain h where h: "insert_timer x t ?w ?s = Some (Inr (), ?s\<lparr>tm := h\<rparr>)"
      "chain h (zs @ x # ins (\<lambda>y. \<not> timer_is_before ?w (wake s y)) t us)" "same_but_next (tm s) h"
      using insert_timer_chain [of ?s zs x us t ?w] ok ys c(2) ex by (auto simp: timers_ok_def)
    let ?xs = "zs @ x # ins (\<lambda>y. \<not> timer_is_before ?w (wake s y)) t us"
    let ?s' = "s\<lparr>timer_list := hd ys, tm := h, last_insert := t\<rparr>"
    have us: "last us = Sentinel" using ok ys ex by (auto simp: timers_ok_def split: if_splits)
    have "set ?xs = set (t # ys)" "distinct ?xs" "hd ?xs = hd ys" "last ?xs = Sentinel"
      using ok ys us ex last_ins [of us "\<lambda>y. \<not> timer_is_before ?w (wake s y)" t]
      by (auto simp: timers_ok_def hd_append)
    moreover have "Deleted \<notin> set ?xs" using ok t SF_RESCHEDULE ys by (auto simp: timers_ok_def)
    ultimately have "timers_ok ?xs ?s'"
      using ok hd h(2) by (auto simp: timers_ok_def dest: list.set_sel(2) [rotated])
    moreover have "links_only s ?s'"
      using h(3) by (intro links_onlyI [where ks = "[]" and h = h and hp = "hd ys" and li = t and ep = "env_pos s"])
        (auto simp: same_but_next_def)
    moreover have "r = Inr (wake s (hd ys)) \<and> s' = ?s'"
      using run SF_RESCHEDULE c False h(1) same
      by (cases "timer_is_before ?w (wake s ?li)") (auto simp: redispatch_def prog_defs)
    ultimately show ?thesis using \<open>set ?xs = set (t # ys)\<close> SF_RESCHEDULE by auto
  qed
qed

lemma redispatch_sorted:
  assumes "callback_ok b t res s ys"
  shows "wp (redispatch t res)
    (\<lambda>r s'. \<exists>xs. timers_ok xs s' \<and> static_ok s' \<and> wsorted b s' xs \<and> r = wake s' (timer_list s')) E s"
proof (cases res)
  case SF_DONE
  have ok: "timers_ok (t # ys) s" "t \<noteq> Periodic" "static_ok s" "wsorted b s ys"
    using assms SF_DONE by (auto simp: callback_ok_def)
  show ?thesis
    unfolding SF_DONE
  proof (rule wp_mono [OF redispatch_done [OF ok(1,2)]])
    fix r s'
    assume p: "timers_ok ys s' \<and> links_only s s' \<and> tm s' = tm s \<and> r = wake s' (timer_list s')"
    then have "wsorted b s' ys = wsorted b s ys" by (intro wsorted_cong) simp
    then show "\<exists>xs. timers_ok xs s' \<and> static_ok s' \<and> wsorted b s' xs \<and> r = wake s' (timer_list s')"
      using p ok links_only_static by blast
  qed simp
next
  case SF_RESCHEDULE
  let ?xs = "ins (\<lambda>y. tkey b s y \<le> tkey b s t) t ys"
  have ok: "static_ok s" "wsorted b s ?xs"
    using assms SF_RESCHEDULE wsorted_ins [of b s ys t] timers_ok_head [of t ys s]
    by (auto simp: callback_ok_def)
  show ?thesis
    unfolding SF_RESCHEDULE
  proof (rule wp_mono [OF redispatch_again [OF assms [unfolded SF_RESCHEDULE]]])
    fix r s'
    assume p: "timers_ok ?xs s' \<and> links_only s s' \<and> wake s' Deleted = wake s Deleted \<and> r = wake s' (timer_list s')"
    then have "wsorted b s' ?xs = wsorted b s ?xs"
      by (intro wsorted_cong) (metis links_only_wake)
    then show "\<exists>xs. timers_ok xs s' \<and> static_ok s' \<and> wsorted b s' xs \<and> r = wake s' (timer_list s')"
      using p ok links_only_static by blast
  qed simp
qed

section \<open>Reset and start\<close>

lemma timer_reset_ok:
  assumes "static_ok s"
  shows "wp sched_timer_reset (\<lambda>_ s'. timers_ok [Deleted, Periodic, Sentinel] s' \<and> static_ok s' \<and> links_only s s')
    (\<lambda>_ _. False) s"
proof -
  let ?h = "(tm s)(Deleted := (tm s Deleted)\<lparr>t_waketime := wake s Periodic, t_next := Some Periodic\<rparr>,
      Periodic := (tm s Periodic)\<lparr>t_next := Some Sentinel\<rparr>)"
  let ?s = "s\<lparr>timer_list := Deleted, last_insert := Periodic, tm := ?h, trace := trace s @ [TimerKick]\<rparr>"
  have "links_only s ?s"
    by (rule links_onlyI [where ks = "[TimerKick]" and h = ?h and hp = Deleted and li = Periodic
          and ep = "env_pos s"]) (auto intro: sched.equality)
  moreover have "timers_ok [Deleted, Periodic, Sentinel] ?s" and "static_ok ?s"
    using assms by (auto simp: timers_ok_def static_ok_def)
  ultimately show ?thesis
    by (simp add: sched_timer_reset_def set_waketime_def set_next_def upd_tm_def timer_kick_def wp_simps)
qed

lemma periodic_event_ok:
  assumes "timers_ok (Periodic # ys) s" and "static_ok s" and "wsorted b s ys"
    and "unat (wake s Periodic + timer_from_us s 100000 - b) < 2 ^ 31"
  shows "wp periodic_event (\<lambda>res s'. res = SF_RESCHEDULE \<and> callback_ok b Periodic res s' ys) E s"
proof -
  let ?w = "wake s Periodic + timer_from_us s 100000"
  let ?h = "(tm s)(Periodic := (tm s Periodic)\<lparr>t_waketime := ?w\<rparr>,
      Sentinel := (tm s Sentinel)\<lparr>t_waketime := ?w + 0x80000000\<rparr>)"
  let ?s = "s\<lparr>tasks_status := TS_REQUESTED, tm := ?h\<rparr>"
  have "chain (tm s) (Periodic # ys) = chain ?h (Periodic # ys)" by (rule chain_cong) auto
  then have "timers_ok (Periodic # ys) ?s" using assms(1) by (auto simp: timers_ok_def)
  moreover have "Periodic \<notin> set ys" using assms(1) by (simp add: timers_ok_def)
  then have "wsorted b ?s ys = wsorted b s ys" by (intro wsorted_cong) auto
  moreover have "static_ok ?s" using assms(2) by (simp add: static_ok_def)
  ultimately have "callback_ok b Periodic SF_RESCHEDULE ?s ys"
    using assms(3,4) by (simp add: callback_ok_def)
  then show ?thesis
    by (simp add: periodic_event_def sched_wake_tasks_def set_waketime_def upd_tm_def wp_simps timer_from_us_def)
qed

lemma sched_init_ok: "timers_ok [Periodic, Sentinel] (sched_init c e m)" "static_ok (sched_init c e m)"
  by (simp_all add: timers_ok_def static_ok_def sched_init_def)

lemma static_ok_more: "static_ok (s\<lparr>env_pos := n\<rparr>) = static_ok s"
  by (simp add: static_ok_def)

section \<open>The scheduler's contract\<close>

text \<open>
  C23.  \<^verbatim>\<open>sched_add_timer\<close> is memory safe for every waketime, because the sentinel ends the
  search: in a well-formed list it returns with the timer in the list, all the others kept, or shuts
  down with the reason "Timer too close" when the machine is not shut down already.  If all
  waketimes lie within \<open>2 ^ 31\<close> ticks of a common base, the list stays sorted.
\<close>

theorem sched_add_timer_inserts:
  assumes "timers_ok xs s" and "static_ok s" and "user_timer t" and "t \<notin> set xs"
  shows "wp (sched_add_timer t)
    (\<lambda>_ s'. timers_ok (add_list s t xs) s' \<and> static_ok s' \<and>
       set (add_list s t xs) - {Deleted} = insert t (set xs - {Deleted}) \<and>
       (wsorted b s xs \<and> unat (wake s t - b) < 2 ^ 31 \<longrightarrow> wsorted b s' (add_list s t xs)))
    (\<lambda>e s'. e = ''Timer too close'' \<and> shutdown_status s = 0) s"
proof (rule wp_mono [OF add_timer_ok [OF assms]])
  fix s'
  assume post: "timers_ok (add_list s t xs) s' \<and> links_only s s' \<and>
    wake s' Deleted = (if timer_is_before (wake s t) (wake s (hd xs)) then wake s t else wake s Deleted)"
  obtain ys where "xs = timer_list s # ys" using timers_ok_cases [OF assms(1)] by metis
  then have "set (add_list s t xs) - {Deleted} = insert t (set xs - {Deleted})"
    using assms(3) by (auto simp: add_list_def user_timer_def)
  then show "timers_ok (add_list s t xs) s' \<and> static_ok s' \<and>
       set (add_list s t xs) - {Deleted} = insert t (set xs - {Deleted}) \<and>
       (wsorted b s xs \<and> unat (wake s t - b) < 2 ^ 31 \<longrightarrow> wsorted b s' (add_list s t xs))"
    using post assms(2) links_only_static add_list_sorted [OF assms, of b s'] by blast
qed simp

theorem sched_add_timer_inserts_witness:
  "\<exists>s :: sched. timers_ok [Periodic, Sentinel] s \<and> wsorted 0 s [Periodic, Sentinel] \<and>
     wp (sched_add_timer (ObjTimer 3 TMain)) (\<lambda>_ s'. wsorted 0 s' [Periodic, ObjTimer 3 TMain, Sentinel]) (\<lambda>_ _. False) s"
proof -
  let ?s = "(sched_init example_config (\<lambda>_ _. 0) () :: sched)\<lparr>tm := tm_init(ObjTimer 3 TMain := \<lparr>t_next = None,
      t_func = Fn_NULL, t_waketime = 50\<rparr>)\<rparr>"
  have ok: "timers_ok [Periodic, Sentinel] ?s" "static_ok ?s" "wsorted 0 ?s [Periodic, Sentinel]"
    by (simp_all add: timers_ok_def static_ok_def sched_init_def wsorted_def tkey_def)
  have nb: "\<not> timer_is_before 50 0" "timer_is_before 50 0x80000000" by code_simp+
  have al: "add_list ?s (ObjTimer 3 TMain) [Periodic, Sentinel] = [Periodic, ObjTimer 3 TMain, Sentinel]"
    using nb by (simp add: add_list_def sched_init_def ins_def)
  have "sched_add_timer (ObjTimer 3 TMain) ?s \<noteq> None"
    "\<And>e s'. sched_add_timer (ObjTimer 3 TMain) ?s \<noteq> Some (Inl e, s')"
    using sched_add_timer_inserts [OF ok(1,2), of "ObjTimer 3 TMain" 0]
    by (auto simp: wp_def sched_add_timer_def sched_init_def nb insert_timer_def prog_defs set_next_def upd_tm_def
        split: option.splits)
  moreover have "unat (wake ?s (ObjTimer 3 TMain) - 0) < 2 ^ 31" by simp
  ultimately show ?thesis
    using sched_add_timer_inserts [OF ok(1,2), of "ObjTimer 3 TMain" 0] ok al
    by (intro exI [of _ ?s]) (auto simp: wp_exec)
qed

text \<open>
  \<^verbatim>\<open>sched_del_timer\<close> always returns and removes exactly the given timer: if it was in
  front, the deleted timer takes its place with the same waketime, so that the hardware timer
  already set for it stays valid; a timer that is not in the list changes nothing.  The order is
  kept.
\<close>

lemma sched_del_timer_removes:
  assumes "timers_ok xs s" and "static_ok s" and "user_timer d"
  shows "wp (sched_del_timer d)
    (\<lambda>_ s'. timers_ok (if hd xs = d then Deleted # tl xs else remove1 d xs) s' \<and> static_ok s' \<and>
       (hd xs = d \<longrightarrow> wake s' (timer_list s') = wake s d) \<and>
       (\<forall>x. x \<noteq> Deleted \<longrightarrow> wake s' x = wake s x))
    (\<lambda>_ _. False) s"
proof (rule wp_mono [OF del_timer_ok [OF assms(1,3)]])
  fix s'
  assume post: "timers_ok (del_list d xs) s' \<and> links_only s s' \<and>
    wake s' Deleted = (if hd xs = d then wake s d else wake s Deleted)"
  then have "hd xs = d \<longrightarrow> timer_list s' = Deleted" by (auto simp: timers_ok_def del_list_def)
  with post assms(2) show "timers_ok (if hd xs = d then Deleted # tl xs else remove1 d xs) s' \<and> static_ok s' \<and>
       (hd xs = d \<longrightarrow> wake s' (timer_list s') = wake s d) \<and> (\<forall>x. x \<noteq> Deleted \<longrightarrow> wake s' x = wake s x)"
    using links_only_static links_only_wake by (fastforce simp: del_list_def)
qed

text \<open>
  C5.  Timers run in order: the timer \<^verbatim>\<open>sched_timer_dispatch\<close> calls is an earliest one.
  If its callback leaves a well-formed list behind and asks for a waketime in the window, the
  dispatch returns with the list well formed and sorted again and reports the waketime of the timer
  that is now in front, also when it starts its search at the last insertion instead of the
  head.
\<close>

theorem sched_dispatch_order:
  assumes "timers_ok xs s" and "wsorted b s xs"
    and "wp (if CONFIG_INLINE_STEPPER_HACK (cfg s) \<and> t_func (tm s (hd xs)) = Fn_NULL then stepper_event (hd xs)
             else call (t_func (tm s (hd xs))) (hd xs))
          (\<lambda>res s'. \<exists>ys. callback_ok b (hd xs) res s' ys) E s"
  shows "(\<forall>x\<in>set xs. tkey b s (hd xs) \<le> tkey b s x) \<and>
    wp (sched_timer_dispatch stepper_event call)
      (\<lambda>r s'. \<exists>xs'. timers_ok xs' s' \<and> static_ok s' \<and> wsorted b s' xs' \<and> r = wake s' (timer_list s')) E s"
proof
  obtain ys where xs: "xs = timer_list s # ys" using timers_ok_cases [OF assms(1)] by metis
  then show "\<forall>x\<in>set xs. tkey b s (hd xs) \<le> tkey b s x" using assms(2) by (auto simp: wsorted_Cons)
  have hd: "timer_list s = hd xs" using xs by simp
  show "wp (sched_timer_dispatch stepper_event call)
      (\<lambda>r s'. \<exists>xs'. timers_ok xs' s' \<and> static_ok s' \<and> wsorted b s' xs' \<and> r = wake s' (timer_list s')) E s"
    unfolding dispatch_redispatch wp_bnd wp_gets hd
    by (rule wp_mono [OF assms(3)]) (auto intro: redispatch_sorted)
qed

theorem sched_dispatch_order_witness:
  "\<exists>s :: sched. timers_ok [Periodic, Sentinel] s \<and>
     wp (sched_timer_dispatch (\<lambda>_. stuck) (\<lambda>_ _. periodic_event))
       (\<lambda>r s'. \<exists>xs'. timers_ok xs' s' \<and> static_ok s' \<and> wsorted 0 s' xs' \<and> r = wake s' (timer_list s')) (\<lambda>_ _. False) s"
proof -
  let ?s = "sched_init example_config (\<lambda>_ _. 0) () :: sched"
  note ok = sched_init_ok [of example_config "\<lambda>_ _. 0" "()"]
  have w: "wsorted 0 ?s [Periodic, Sentinel]" "wsorted 0 ?s [Sentinel]"
    by (simp_all add: wsorted_def tkey_def sched_init_def)
  have "unat (wake ?s Periodic + timer_from_us ?s 100000 - 0) < 2 ^ 31"
    by (simp add: sched_init_def timer_from_us_def example_config_def)
  then have "wp periodic_event (\<lambda>res s'. \<exists>ys. callback_ok 0 Periodic res s' ys) (\<lambda>_ _. False) ?s"
    by (rule wp_mono [OF periodic_event_ok [OF ok w(2)]]) auto
  then show ?thesis
    using sched_dispatch_order [OF ok(1) w(1), of "\<lambda>_. stuck" "\<lambda>_ _. periodic_event" "\<lambda>_ _. False"] ok(1)
    by (auto simp: sched_init_def)
qed

end
