(* ===== verification/Basecmd.thy ===== *)
theory Basecmd
  imports Sched
begin

text \<open>
  Basic infrastructure commands, \<^verbatim>\<open>src/basecmd.c\<close>: the bump allocator, the pool of
  move nodes and the queues built from them, object identifiers, the configuration CRC and the load
  statistics.
\<close>

section \<open>Data\<close>

text \<open>
  Move nodes are numbered from 0 in the array \<^verbatim>\<open>move_list\<close>; \<open>move_next\<close> holds
  their \<^verbatim>\<open>next\<close> pointers.  The payload behind a node belongs to the component that
  queues it and has a heap of its own there.
\<close>

record move_queue_head =
  mq_first :: "nat option"
  mq_last :: "nat option"

definition mq_null :: move_queue_head where
  "mq_null = \<lparr>mq_first = None, mq_last = None\<rparr>"

text \<open>
  The \<^verbatim>\<open>type\<close> of an oid is the address of its configuration command.  Objects are
  addressed by their oid, so of \<^verbatim>\<open>data\<close> it only matters whether it is null.
\<close>

datatype oid_type =
    OT_stepper | OT_trsync | OT_endstop | OT_digital_out | OT_pwm_out | OT_analog_in
  | OT_buttons | OT_counter | OT_tmcuart | OT_spi | OT_spi_shutdown | OT_i2c
  | OT_thermocouple | OT_adxl345 | OT_mpu9250 | OT_spi_angle
  | OT_st7920 | OT_hd44780 | OT_neopixel

record oid_s =
  oid_type :: "oid_type option"
  oid_data :: bool

record basecmd = sched +
  alloc_end :: nat
  move_free_list :: "nat option"
  move_list :: "nat option"
  move_count :: u16
  move_item_size :: nat
  move_next :: "nat \<Rightarrow> nat option"
  oids :: "oid_s list option"
  oid_count :: u8
  config_crc :: u32
  stats_send_time :: u32
  stats_send_time_high :: u32
  stats_count :: u32
  stats_sum :: u32
  stats_sumsq :: u32

section \<open>Low level allocation\<close>

definition ALIGN :: "nat \<Rightarrow> nat \<Rightarrow> nat" where
  "ALIGN x a = (x + a - 1) div a * a"

definition alloc_init :: "('a basecmd_scheme, unit) prog" where
  "alloc_init = upd (\<lambda>s. s\<lparr>alloc_end := ALIGN (dynmem_start (cfg s)) (alignof_ptr (cfg s))\<rparr>)"

text \<open>The result is the address of the chunk; its contents are zero.\<close>

definition alloc_chunk :: "nat \<Rightarrow> ('a basecmd_scheme, nat) prog" where
  "alloc_chunk sz =
     bnd (gets alloc_end) (\<lambda>data.
     bnd (gets cfg) (\<lambda>c.
     if data + sz > dynmem_end c then shutdown ''alloc_chunk failed''
     else sq (upd (alloc_end_update (\<lambda>_. data + ALIGN sz (alignof_ptr c)))) (ret data)))"

text \<open>The loop of \<^verbatim>\<open>alloc_chunks\<close>: the final \<^verbatim>\<open>can_alloc\<close> and \<^verbatim>\<open>p\<close>.\<close>

primrec alloc_fit :: "nat \<Rightarrow> nat \<Rightarrow> nat \<Rightarrow> nat \<Rightarrow> nat \<times> nat" where
  "alloc_fit sz dend 0 p = (0, p)"
| "alloc_fit sz dend (Suc count) p =
     (if p + sz \<le> dend then (let (can_alloc, q) = alloc_fit sz dend count (p + sz) in (Suc can_alloc, q))
      else (0, p))"

definition alloc_chunks :: "nat \<Rightarrow> nat \<Rightarrow> ('a basecmd_scheme, nat \<times> u16) prog" where
  "alloc_chunks sz count =
     bnd (gets (\<lambda>s. alloc_fit sz (dynmem_end (cfg s)) count (alloc_end s))) (\<lambda>(can_alloc, p).
     bnd (gets alloc_end) (\<lambda>start.
     if can_alloc = 0 then shutdown ''alloc_chunks failed''
     else bnd (alloc_chunk (p - start)) (\<lambda>data. ret (data, of_nat can_alloc))))"

section \<open>Move queue\<close>

definition is_finalized :: "'a basecmd_scheme \<Rightarrow> bool" where
  "is_finalized s \<longleftrightarrow> move_count s \<noteq> 0"

definition move_free :: "nat \<Rightarrow> ('a basecmd_scheme, unit) prog" where
  "move_free m = upd (\<lambda>s. s\<lparr>move_next := (move_next s)(m := move_free_list s), move_free_list := Some m\<rparr>)"

definition move_alloc :: "('a basecmd_scheme, nat) prog" where
  "move_alloc =
     bnd (gets move_free_list) (\<lambda>mf.
     case mf of
       None \<Rightarrow> shutdown ''Move queue overflow''
     | Some m \<Rightarrow> sq (upd (\<lambda>s. s\<lparr>move_free_list := move_next s m\<rparr>)) (ret m))"

definition move_queue_empty :: "move_queue_head \<Rightarrow> bool" where
  "move_queue_empty mh \<longleftrightarrow> mq_first mh = None"

definition move_queue_first :: "move_queue_head \<Rightarrow> nat option" where
  "move_queue_first mh = mq_first mh"

text \<open>The return value (whether the node is the first one) and the updated head.\<close>

definition move_queue_push :: "nat \<Rightarrow> move_queue_head \<Rightarrow> ('a basecmd_scheme, bool \<times> move_queue_head) prog" where
  "move_queue_push m mh =
     sq (upd (\<lambda>s. s\<lparr>move_next := (move_next s)(m := None)\<rparr>))
        (if mq_first mh \<noteq> None then
           bnd (deref (mq_last mh)) (\<lambda>l.
           sq (upd (\<lambda>s. s\<lparr>move_next := (move_next s)(l := Some m)\<rparr>))
              (ret (False, mh\<lparr>mq_last := Some m\<rparr>)))
         else ret (True, \<lparr>mq_first = Some m, mq_last = Some m\<rparr>))"

definition move_queue_pop :: "move_queue_head \<Rightarrow> ('a basecmd_scheme, nat \<times> move_queue_head) prog" where
  "move_queue_pop mh =
     bnd (deref (mq_first mh)) (\<lambda>mn.
     bnd (gets (\<lambda>s. move_next s mn)) (\<lambda>nxt.
     ret (mn, mh\<lparr>mq_first := nxt\<rparr>)))"

definition move_queue_clear :: "move_queue_head \<Rightarrow> move_queue_head" where
  "move_queue_clear mh = mh\<lparr>mq_first := None\<rparr>"

definition move_queue_setup :: "nat \<Rightarrow> ('a basecmd_scheme, move_queue_head) prog" where
  "move_queue_setup sz =
     bnd (gets is_finalized) (\<lambda>fin.
     if sz > 255 \<or> fin then shutdown ''Invalid move request size''
     else
       sq (upd (\<lambda>s. s\<lparr>move_item_size := (if sz > move_item_size s then sz else move_item_size s)\<rparr>))
          (ret mq_null))"

definition move_reset :: "('a basecmd_scheme, unit) prog" where
  "move_reset =
     upd (\<lambda>s. if move_count s = 0 then s
        else
          (let n = unat (move_count s);
               h = fold (\<lambda>i h. h(i := Some (Suc i))) [0..<n - 1] (move_next s)
           in s\<lparr>move_next := h(n - 1 := None), move_free_list := Some 0\<rparr>))"

definition move_finalize :: "('a basecmd_scheme, unit) prog" where
  "move_finalize =
     bnd (gets is_finalized) (\<lambda>fin.
     if fin then shutdown ''Already finalized''
     else
       bnd (gets (\<lambda>s. c_sizeof (cfg s) ''move_node'')) (\<lambda>sz.
       sq (move_queue_setup sz)
      (bnd (gets move_item_size) (\<lambda>item.
       bnd (alloc_chunks item 1024) (\<lambda>(data, avail).
       sq (upd (\<lambda>s. s\<lparr>move_list := Some data, move_count := avail\<rparr>))
          move_reset)))))"

section \<open>Object identifiers\<close>

definition oid_entry :: "'a basecmd_scheme \<Rightarrow> u8 \<Rightarrow> oid_s" where
  "oid_entry s oid = the (oids s) ! unat oid"

text \<open>The result is the data pointer: the object's address or null.\<close>

definition oid_lookup :: "u8 \<Rightarrow> oid_type \<Rightarrow> ('a basecmd_scheme, u8 option) prog" where
  "oid_lookup oid ty =
     bnd (gets (\<lambda>s. oid \<ge> oid_count s \<or> oid_type (oid_entry s oid) \<noteq> Some ty)) (\<lambda>bad.
     if bad then shutdown ''Invalid oid type''
     else gets (\<lambda>s. if oid_data (oid_entry s oid) then Some oid else None))"

text \<open>Where the source goes on to dereference the result.\<close>

definition obj_lookup :: "u8 \<Rightarrow> oid_type \<Rightarrow> ('a basecmd_scheme, u8) prog" where
  "obj_lookup oid ty = bnd (oid_lookup oid ty) deref"

definition upd_oid :: "u8 \<Rightarrow> (oid_s \<Rightarrow> oid_s) \<Rightarrow> ('a basecmd_scheme, unit) prog" where
  "upd_oid oid f = upd (\<lambda>s. s\<lparr>oids := map_option (\<lambda>os. os[unat oid := f (os ! unat oid)]) (oids s)\<rparr>)"

text \<open>
  \<^verbatim>\<open>oid_alloc\<close>; the chunk is zeroed, in particular the timers of the object.
\<close>

definition oid_alloc :: "u8 \<Rightarrow> oid_type \<Rightarrow> nat \<Rightarrow> ('a basecmd_scheme, unit) prog" where
  "oid_alloc oid ty sz =
     bnd (gets (\<lambda>s. oid \<ge> oid_count s \<or> oid_type (oid_entry s oid) \<noteq> None \<or> is_finalized s)) (\<lambda>bad.
     if bad then shutdown ''Can't assign oid''
     else
       sq (upd_oid oid (oid_type_update (\<lambda>_. Some ty)))
      (sq (alloc_chunk sz)
      (sq (upd (\<lambda>s. s\<lparr>tm := (tm s)(ObjTimer oid TMain := timer_zero, ObjTimer oid TExpire := timer_zero)\<rparr>))
          (upd_oid oid (oid_data_update (\<lambda>_. True))))))"

text \<open>
  \<^verbatim>\<open>oid_next\<close>: the next oid of the type behind \<open>i\<close> and whether its data pointer is not
  null.
\<close>

definition oid_next :: "'a basecmd_scheme \<Rightarrow> u8 \<Rightarrow> oid_type \<Rightarrow> (u8 \<times> bool) option" where
  "oid_next s i ty =
     map_option (\<lambda>k. (of_nat k, oid_data (oid_entry s (of_nat k))))
       (find (\<lambda>k. oid_type (oid_entry s (of_nat k)) = Some ty) [unat (i + 1)..<unat (oid_count s)])"

text \<open>
  The loop \<^verbatim>\<open>foreach_oid\<close> from position \<open>pos\<close>; it ends at the first null data pointer.
  There are at most 255 oids, so 256 rounds are enough.
\<close>

primrec foreach_from :: "nat \<Rightarrow> oid_type \<Rightarrow> (u8 \<Rightarrow> ('a basecmd_scheme, unit) prog) \<Rightarrow> u8
    \<Rightarrow> ('a basecmd_scheme, unit) prog" where
  "foreach_from 0 ty body pos = stuck"
| "foreach_from (Suc n) ty body pos =
     bnd (gets (\<lambda>s. oid_next s pos ty)) (\<lambda>r.
     case r of
       Some (oid, True) \<Rightarrow> sq (body oid) (foreach_from n ty body oid)
     | _ \<Rightarrow> ret ())"

definition foreach_oid :: "oid_type \<Rightarrow> (u8 \<Rightarrow> ('a basecmd_scheme, unit) prog) \<Rightarrow> ('a basecmd_scheme, unit) prog" where
  "foreach_oid ty body = foreach_from 256 ty body (- 1)"

definition command_allocate_oids :: "u32 list \<Rightarrow> ('a basecmd_scheme, unit) prog" where
  "command_allocate_oids args =
     bnd (gets oids) (\<lambda>os.
     if os \<noteq> None then shutdown ''oids already allocated''
     else
       (let count = ucast (args ! 0) :: u8 in
        bnd (gets (\<lambda>s. c_sizeof (cfg s) ''oid_s'')) (\<lambda>sz.
        sq (alloc_chunk (sz * unat count))
           (upd (\<lambda>s. s\<lparr>oids := Some (replicate (unat count) \<lparr>oid_type = None, oid_data = False\<rparr>),
              oid_count := count\<rparr>)))))"

section \<open>Configuration\<close>

definition command_get_config :: "u32 list \<Rightarrow> ('a basecmd_scheme, unit) prog" where
  "command_get_config args =
     bnd (gets (\<lambda>s. [VInt (of_bool (is_finalized s)), VInt (config_crc s),
        VInt (of_bool (sched_is_shutdown s)), VInt (ucast (move_count s))]))
       (sendf ''config is_config=%c crc=%u is_shutdown=%c move_count=%hu'')"

definition command_finalize_config :: "u32 list \<Rightarrow> ('a basecmd_scheme, unit) prog" where
  "command_finalize_config args =
     sq move_finalize (upd (config_crc_update (\<lambda>_. args ! 0)))"

definition config_reset :: "u32 list \<Rightarrow> ('a basecmd_scheme, unit) prog" where
  "config_reset args =
     bnd (gets sched_is_shutdown) (\<lambda>sd.
     if \<not> sd then shutdown ''config_reset only available when shutdown''
     else
       sq (upd (\<lambda>s. s\<lparr>config_crc := 0, oid_count := 0, oids := None, move_free_list := None,
            move_list := None, move_count := 0, move_item_size := 0\<rparr>))
      (sq alloc_init
      (sq sched_timer_reset
          sched_clear_shutdown)))"

section \<open>Timing and load statistics\<close>

definition command_get_clock :: "u32 list \<Rightarrow> ('a basecmd_scheme, unit) prog" where
  "command_get_clock args = bnd timer_read_time (\<lambda>t. sendf ''clock clock=%u'' [VInt t])"

definition command_get_uptime :: "u32 list \<Rightarrow> ('a basecmd_scheme, unit) prog" where
  "command_get_uptime args =
     bnd timer_read_time (\<lambda>cur.
     bnd (gets (\<lambda>s. stats_send_time_high s + of_bool (cur < stats_send_time s))) (\<lambda>high.
     sendf ''uptime high=%u clock=%u'' [VInt high, VInt cur]))"

definition SUMSQ_BASE :: u32 where "SUMSQ_BASE = 256"

definition DIV_ROUND_UP :: "u32 \<Rightarrow> u32 \<Rightarrow> u32" where
  "DIV_ROUND_UP n d = (n + d - 1) div d"

definition next_sumsq :: "u32 \<Rightarrow> u32 \<Rightarrow> u32" where
  "next_sumsq sumsq diff =
     (let nextsumsq =
            (if diff \<le> 0xffff then sumsq + DIV_ROUND_UP (diff * diff) SUMSQ_BASE
             else if diff \<le> 0xfffff then sumsq + DIV_ROUND_UP diff SUMSQ_BASE * diff
             else 0xffffffff)
      in if nextsumsq < sumsq then 0xffffffff else nextsumsq)"

definition stats_update :: "u32 \<Rightarrow> u32 \<Rightarrow> ('a basecmd_scheme, unit) prog" where
  "stats_update start cur =
     sq (upd (\<lambda>s. s\<lparr>stats_count := stats_count s + 1, stats_sum := stats_sum s + (cur - start),
          stats_sumsq := next_sumsq (stats_sumsq s) (cur - start)\<rparr>))
    (bnd (gets (\<lambda>s. timer_is_before cur (stats_send_time s + timer_from_us s 5000000))) (\<lambda>early.
     if early then ret ()
     else
       bnd (gets (\<lambda>s. [VInt (stats_count s), VInt (stats_sum s), VInt (stats_sumsq s)])) (\<lambda>vs.
       sq (sendf ''stats count=%u sum=%u sumsq=%u'' vs)
          (upd (\<lambda>s. s\<lparr>stats_send_time_high := stats_send_time_high s + of_bool (cur < stats_send_time s),
             stats_send_time := cur, stats_count := 0, stats_sum := 0, stats_sumsq := 0\<rparr>)))))"

section \<open>Miscellaneous commands\<close>

definition command_emergency_stop :: "u32 list \<Rightarrow> ('a basecmd_scheme, unit) prog" where
  "command_emergency_stop args = shutdown ''Command request''"

definition command_clear_shutdown :: "u32 list \<Rightarrow> ('a basecmd_scheme, unit) prog" where
  "command_clear_shutdown args = sched_clear_shutdown"

definition identify_count :: "u32 \<Rightarrow> u8 \<Rightarrow> u32 \<Rightarrow> u8" where
  "identify_count offset count isize =
     (if offset \<ge> isize then 0
      else if offset + ucast count > isize then ucast (isize - offset)
      else count)"

text \<open>
  The data pointer is passed on with the bytes it points to; reading outside the identify data
  has no result.
\<close>

definition command_identify :: "u32 list \<Rightarrow> ('a basecmd_scheme, unit) prog" where
  "command_identify args =
     (let offset = args ! 0 in
      bnd (gets (\<lambda>s. command_identify_data (cfg s))) (\<lambda>idata.
      (let count = identify_count offset (ucast (args ! 1)) (of_nat (length idata))
       in if count \<noteq> 0 \<and> unat offset + unat count > length idata then stuck
          else
            sendf ''identify_response offset=%u data=%.*s''
              [VInt offset, VInt (ucast count), VPtr (take (unat count) (drop (unat offset) idata))])))"

text \<open>The state at power-on, after \<^verbatim>\<open>alloc_init\<close>.\<close>

definition basecmd_init :: "config \<Rightarrow> (hwreq \<Rightarrow> nat \<Rightarrow> u32) \<Rightarrow> 'a \<Rightarrow> 'a basecmd_scheme" where
  "basecmd_init c e m =
     sched_init c e
       (basecmd_ext (ALIGN (dynmem_start c) (alignof_ptr c)) None None 0 0 (\<lambda>_. None) None 0 0 0 0 0 0 0 m)"

section \<open>Allocation\<close>

lemma ALIGN_bounds: "0 < a \<Longrightarrow> x \<le> ALIGN x a \<and> a dvd ALIGN x a"
proof -
  assume a: "0 < a"
  have "(x + a - 1) div a * a + (x + a - 1) mod a = x + a - 1" by (rule div_mult_mod_eq)
  moreover have "(x + a - 1) mod a < a" using a by simp
  ultimately have "x \<le> (x + a - 1) div a * a" using a by linarith
  then show ?thesis by (simp add: ALIGN_def)
qed

text \<open>A sequence of allocations; the results are the addresses.\<close>

primrec allocs :: "nat list \<Rightarrow> ('a basecmd_scheme, nat list) prog" where
  "allocs [] = ret []"
| "allocs (sz # szs) = bnd (alloc_chunk sz) (\<lambda>a. bnd (allocs szs) (\<lambda>as. ret (a # as)))"

lemma alloc_chunk_ok:
  assumes "alloc_chunk sz s = Some (Inr a, s')" and "0 < alignof_ptr (cfg s)"
  shows "a = alloc_end s \<and> a + sz \<le> dynmem_end (cfg s) \<and> a + sz \<le> alloc_end s' \<and> cfg s' = cfg s \<and>
    (alignof_ptr (cfg s) dvd alloc_end s \<longrightarrow> alignof_ptr (cfg s) dvd alloc_end s')"
  using assms ALIGN_bounds [of "alignof_ptr (cfg s)" sz]
  by (auto simp: alloc_chunk_def prog_defs split: if_splits)

lemma allocs_ok:
  assumes "allocs szs s = Some (Inr as, s')" and "0 < alignof_ptr (cfg s)" and "alignof_ptr (cfg s) dvd alloc_end s"
  shows "length as = length szs \<and> (\<forall>i<length szs. alloc_end s \<le> as ! i \<and> as ! i + szs ! i \<le> dynmem_end (cfg s) \<and>
     alignof_ptr (cfg s) dvd as ! i \<and> (\<forall>j<i. as ! j + szs ! j \<le> as ! i))"
  using assms
proof (induction szs arbitrary: s as)
  case Nil
  then show ?case by (simp add: ret_def)
next
  case (Cons sz szs)
  obtain a s1 bs where a: "alloc_chunk sz s = Some (Inr a, s1)" "allocs szs s1 = Some (Inr bs, s')" "as = a # bs"
    using Cons.prems(1) by (auto simp: bnd_def ret_def split: option.splits sum.splits prod.splits)
  note ok = alloc_chunk_ok [OF a(1) Cons.prems(2)]
  note IH = Cons.IH [OF a(2)]
  show ?case
    using ok IH Cons.prems(2,3) a(3) by (fastforce simp: nth_Cons' less_Suc_eq_0_disj)
qed

section \<open>Move queues\<close>

text \<open>\<open>nlist h p xs\<close>: following \<open>h\<close> from \<open>p\<close> visits exactly \<open>xs\<close> and ends in null.\<close>

primrec nlist :: "(nat \<Rightarrow> nat option) \<Rightarrow> nat option \<Rightarrow> nat list \<Rightarrow> bool" where
  "nlist h p [] \<longleftrightarrow> p = None"
| "nlist h p (x # xs) \<longleftrightarrow> p = Some x \<and> nlist h (h x) xs"

lemma nlist_cong: "(\<And>x. x \<in> set xs \<Longrightarrow> h x = h' x) \<Longrightarrow> nlist h p xs = nlist h' p xs"
  by (induction xs arbitrary: p) auto

lemma nlist_upd [simp]: "m \<notin> set xs \<Longrightarrow> nlist (h(m := v)) p xs = nlist h p xs"
  by (rule nlist_cong) auto

lemma nlist_None: "nlist h None xs \<longleftrightarrow> xs = []"
  by (cases xs) auto

lemma nlist_snoc:
  "nlist h p xs \<Longrightarrow> distinct xs \<Longrightarrow> m \<notin> set xs \<Longrightarrow> xs \<noteq> [] \<Longrightarrow>
   nlist (h(m := None, last xs := Some m)) p (xs @ [m])"
proof (induction xs arbitrary: p)
  case (Cons x xs)
  then show ?case by (cases "xs = []") (auto simp: fun_upd_twist)
qed simp

definition mq_rep :: "'a basecmd_scheme \<Rightarrow> move_queue_head \<Rightarrow> nat list \<Rightarrow> bool" where
  "mq_rep s mh xs \<longleftrightarrow>
     nlist (move_next s) (mq_first mh) xs \<and> distinct xs \<and> (xs \<noteq> [] \<longrightarrow> mq_last mh = Some (last xs))"

lemma mq_rep_empty: "mq_rep s mh xs \<Longrightarrow> move_queue_empty mh \<longleftrightarrow> xs = []"
  by (cases xs) (auto simp: mq_rep_def move_queue_empty_def)

lemma push_run:
  assumes "mq_rep s mh xs" and "m \<notin> set xs"
  obtains h mh' where "move_queue_push m mh s = Some (Inr (xs = [], mh'), s\<lparr>move_next := h\<rparr>)"
    and "mq_rep (s\<lparr>move_next := h\<rparr>) mh' (xs @ [m])"
    and "\<And>x. x \<notin> set (xs @ [m]) \<Longrightarrow> h x = move_next s x"
proof (cases "xs = []")
  case True
  then show thesis
    using assms
    by (intro that [of "\<lparr>mq_first = Some m, mq_last = Some m\<rparr>" "(move_next s)(m := None)"])
       (auto simp: mq_rep_def move_queue_push_def prog_defs)
next
  case False
  then have "mq_first mh \<noteq> None" "mq_last mh = Some (last xs)" "last xs \<noteq> m"
    using assms by (cases xs; auto simp: mq_rep_def)+
  with False show thesis
    using assms nlist_snoc [of "move_next s" "mq_first mh" xs m]
    by (intro that [of "mh\<lparr>mq_last := Some m\<rparr>" "(move_next s)(m := None, last xs := Some m)"])
       (auto simp: mq_rep_def move_queue_push_def prog_defs)
qed

lemma pop_run:
  assumes "mq_rep s mh (x # xs)"
  obtains mh' where "move_queue_pop mh s = Some (Inr (x, mh'), s)" and "mq_rep s mh' xs"
  using assms
  by (intro that [of "mh\<lparr>mq_first := move_next s x\<rparr>"])
     (auto simp: mq_rep_def move_queue_pop_def prog_defs)

text \<open>
  The interface the components rely on: a queue of nodes that keeps the order in which they
  were pushed.  \<open>rep s q xs\<close> says that the queue \<open>q\<close> holds the nodes \<open>xs\<close> in state \<open>s\<close>.
\<close>

primrec push_all :: "(nat \<Rightarrow> 'q \<Rightarrow> ('s, bool \<times> 'q) prog) \<Rightarrow> nat list \<Rightarrow> 'q \<Rightarrow> ('s, 'q) prog" where
  "push_all push [] q = ret q"
| "push_all push (m # ms) q = bnd (push m q) (\<lambda>(_, q'). push_all push ms q')"

primrec pop_n :: "('q \<Rightarrow> ('s, nat \<times> 'q) prog) \<Rightarrow> nat \<Rightarrow> 'q \<Rightarrow> ('s, nat list \<times> 'q) prog" where
  "pop_n pop 0 q = ret ([], q)"
| "pop_n pop (Suc n) q = bnd (pop q) (\<lambda>(m, q'). bnd (pop_n pop n q') (\<lambda>(ms, q''). ret (m # ms, q'')))"

locale node_queue =
  fixes rep :: "'s \<Rightarrow> 'q \<Rightarrow> nat list \<Rightarrow> bool"
    and is_empty :: "'q \<Rightarrow> bool"
    and push :: "nat \<Rightarrow> 'q \<Rightarrow> ('s, bool \<times> 'q) prog"
    and pop :: "'q \<Rightarrow> ('s, nat \<times> 'q) prog"
  assumes empty_iff: "rep s q xs \<Longrightarrow> is_empty q \<longleftrightarrow> xs = []"
    and push_ok: "rep s q xs \<Longrightarrow> m \<notin> set xs \<Longrightarrow>
      \<exists>s' q'. push m q s = Some (Inr (xs = [], q'), s') \<and> rep s' q' (xs @ [m])"
    and pop_ok: "rep s q (x # xs) \<Longrightarrow> \<exists>s' q'. pop q s = Some (Inr (x, q'), s') \<and> rep s' q' xs"
begin

lemma push_all_ok:
  assumes "rep s q xs" and "distinct (xs @ ms)"
  shows "\<exists>s' q'. push_all push ms q s = Some (Inr q', s') \<and> rep s' q' (xs @ ms)"
  using assms
proof (induction ms arbitrary: s q xs)
  case Nil
  then show ?case by (auto simp: ret_def)
next
  case (Cons m ms)
  then obtain s1 q1 where 1: "push m q s = Some (Inr (xs = [], q1), s1)" "rep s1 q1 (xs @ [m])"
    using push_ok [of s q xs m] by auto
  with Cons.IH [OF 1(2)] Cons.prems(2) show ?case by (auto simp: bnd_def)
qed

lemma pop_n_ok:
  assumes "rep s q (ms @ xs)"
  shows "\<exists>s' q'. pop_n pop (length ms) q s = Some (Inr (ms, q'), s') \<and> rep s' q' xs"
  using assms
proof (induction ms arbitrary: s q)
  case Nil
  then show ?case by (auto simp: ret_def)
next
  case (Cons m ms)
  then obtain s1 q1 where 1: "pop q s = Some (Inr (m, q1), s1)" "rep s1 q1 (ms @ xs)"
    using pop_ok [of s q m "ms @ xs"] by auto
  with Cons.IH [OF 1(2)] show ?case by (auto simp: bnd_def ret_def)
qed

lemma fifo:
  assumes "rep s q xs" and "distinct (xs @ ms)"
  shows "\<exists>s' q'. bnd (push_all push ms q) (pop_n pop (length xs + length ms)) s = Some (Inr (xs @ ms, q'), s') \<and> is_empty q'"
proof -
  obtain s1 q1 where 1: "push_all push ms q s = Some (Inr q1, s1)" "rep s1 q1 (xs @ ms)"
    using push_all_ok [OF assms] by blast
  moreover obtain s2 q2 where "pop_n pop (length (xs @ ms)) q1 s1 = Some (Inr (xs @ ms, q2), s2)" "rep s2 q2 []"
    using pop_n_ok [of s1 q1 "xs @ ms" "[]"] 1(2) by auto
  ultimately show ?thesis using empty_iff by (auto simp: bnd_def)
qed

end

interpretation mq: node_queue mq_rep move_queue_empty move_queue_push move_queue_pop
proof
  fix s :: "'a basecmd_scheme" and q :: move_queue_head and xs :: "nat list"
  show "mq_rep s q xs \<Longrightarrow> move_queue_empty q \<longleftrightarrow> xs = []" by (rule mq_rep_empty)
  show "\<exists>s' q'. move_queue_push m q s = Some (Inr (xs = [], q'), s') \<and> mq_rep s' q' (xs @ [m])"
    if "mq_rep s q xs" "m \<notin> set xs" for m
    by (rule push_run [OF that]) blast
  show "\<exists>s' q'. move_queue_pop q s = Some (Inr (x, q'), s') \<and> mq_rep s' q' xs" if "mq_rep s q (x # xs)" for x
    by (rule pop_run [OF that]) blast
qed

section \<open>Iteration over objects\<close>

text \<open>The oids of a type, and the condition that none of them has a null pointer.\<close>

definition oids_of :: "'a basecmd_scheme \<Rightarrow> oid_type \<Rightarrow> u8 set" where
  "oids_of s ty = {oid. oid < oid_count s \<and> oid_type (oid_entry s oid) = Some ty}"

definition oids_data :: "'a basecmd_scheme \<Rightarrow> oid_type \<Rightarrow> bool" where
  "oids_data s ty \<longleftrightarrow> (\<forall>oid\<in>oids_of s ty. oid_data (oid_entry s oid))"

lemma unat_u8_less: "unat (x :: u8) < 256"
  using unsigned_less [of x] by simp

lemma of_nat_unat_u8: "of_nat (unat (x :: u8)) = x"
  by simp

lemma oid_next_None:
  assumes "oid_next s i ty = None" and "oid \<in> oids_of s ty"
  shows "unat oid < unat (i + 1)"
proof (rule ccontr)
  assume "\<not> ?thesis"
  then have "unat oid \<in> set [unat (i + 1)..<unat (oid_count s)]"
    using assms(2) by (simp add: oids_of_def word_less_nat_alt)
  then have "oid_type (oid_entry s (of_nat (unat oid))) \<noteq> Some ty"
    using assms(1) unfolding oid_next_def by (auto simp: find_None_iff)
  then show False using assms(2) by (simp add: oids_of_def)
qed

lemma oid_next_Some:
  assumes "oid_next s i ty = Some (oid, d)"
  shows "oid \<in> oids_of s ty" and "unat (i + 1) \<le> unat oid" and "d = oid_data (oid_entry s oid)"
    and "\<And>oid'. oid' \<in> oids_of s ty \<Longrightarrow> unat (i + 1) \<le> unat oid' \<Longrightarrow> unat oid \<le> unat oid'"
proof -
  let ?P = "\<lambda>k. oid_type (oid_entry s (of_nat k)) = Some ty" and ?ks = "[unat (i + 1)..<unat (oid_count s)]"
  obtain k where k: "find ?P ?ks = Some k" "oid = of_nat k" "d = oid_data (oid_entry s oid)"
    using assms by (auto simp: oid_next_def)
  obtain n where n: "n < length ?ks" "?P (?ks ! n)" "k = ?ks ! n" "\<And>j. j < n \<Longrightarrow> \<not> ?P (?ks ! j)"
    using k(1) by (auto simp: find_Some_iff simp del: upt_Suc)
  then have kn: "k = unat (i + 1) + n" "k < unat (oid_count s)" by auto
  then have "k < 256" using unat_u8_less [of "oid_count s"] by linarith
  then have u: "unat oid = k" by (simp only: k(2) unat_of_nat) simp
  show "oid \<in> oids_of s ty" and "unat (i + 1) \<le> unat oid" and "d = oid_data (oid_entry s oid)"
    using n(2,3) u k(2,3) kn by (auto simp: oids_of_def word_less_nat_alt)
  fix oid'
  assume o': "oid' \<in> oids_of s ty" "unat (i + 1) \<le> unat oid'"
  show "unat oid \<le> unat oid'"
  proof (rule ccontr)
    assume "\<not> ?thesis"
    then have "unat oid' - unat (i + 1) < n" using u kn o'(2) by linarith
    moreover from this have "?ks ! (unat oid' - unat (i + 1)) = unat oid'" using n(1) o'(2) by simp
    ultimately have "\<not> ?P (unat oid')" using n(4) by metis
    then show False using o'(1) by (simp add: oids_of_def)
  qed
qed

text \<open>
  The loop runs its body once for every object of the type, in the order of the oids.  \<open>I D\<close>
  holds when the objects \<open>D\<close> have been visited.
\<close>

lemma foreach_from_rule:
  assumes body: "\<And>oid D s. I D s \<Longrightarrow> oid \<in> oids_of s ty - D \<Longrightarrow>
      wp (body oid) (\<lambda>_ s'. I (insert oid D) s' \<and> oids s' = oids s \<and> oid_count s' = oid_count s) E s"
    and "I D s" and "oids_data s ty" and "D = {oid \<in> oids_of s ty. unat oid < unat (pos + 1)}"
    and "unat (pos + 1) \<le> unat (oid_count s)" and "unat (oid_count s) < unat (pos + 1) + n"
  shows "wp (foreach_from n ty body pos) (\<lambda>_ s'. I (oids_of s ty) s' \<and> oids s' = oids s \<and> oid_count s' = oid_count s) E s"
  using assms(2-)
proof (induction n arbitrary: pos s D)
  case (Suc n)
  show ?case
  proof (cases "oid_next s pos ty")
    case None
    then have "D = oids_of s ty" using Suc.prems(3) oid_next_None [OF None] by auto
    then show ?thesis using None Suc.prems(1) by (simp add: wp_simps)
  next
    case (Some r)
    then obtain oid d where r: "oid_next s pos ty = Some (oid, d)" by (cases r) auto
    note nx = oid_next_Some [OF r]
    have d: "d" using nx(1,3) Suc.prems(2) by (auto simp: oids_data_def)
    have new: "oid \<in> oids_of s ty - D" using nx(1,2) Suc.prems(3) by simp
    have lt: "unat oid < unat (oid_count s)" using nx(1) by (simp add: oids_of_def word_less_nat_alt)
    have suc: "unat (oid + 1) = unat oid + 1"
      using lt unat_u8_less [of "oid_count s"] by (simp add: unat_plus_if_size word_size)
    have "unat x < unat (pos + 1)" if "x \<in> oids_of s ty" "x \<noteq> oid" "unat x \<le> unat oid" for x
    proof (rule ccontr)
      assume "\<not> ?thesis"
      then have "unat x = unat oid" using nx(4) [of x] that by simp
      then show False using that(2) by (simp add: word_unat_eq_iff)
    qed
    then have D: "insert oid D = {o' \<in> oids_of s ty. unat o' < unat (oid + 1)}"
      using nx(1,2) Suc.prems(3) suc by (auto simp: less_Suc_eq_le)
    have "wp (foreach_from n ty body oid)
        (\<lambda>_ s''. I (oids_of s ty) s'' \<and> oids s'' = oids s \<and> oid_count s'' = oid_count s) E s'"
      if "I (insert oid D) s'" "oids s' = oids s" "oid_count s' = oid_count s" for s'
    proof -
      have same: "oids_of s' ty = oids_of s ty" "oids_data s' ty = oids_data s ty"
        using that by (auto simp: oids_of_def oids_data_def oid_entry_def)
      have "wp (foreach_from n ty body oid)
          (\<lambda>_ s''. I (oids_of s' ty) s'' \<and> oids s'' = oids s' \<and> oid_count s'' = oid_count s') E s'"
        by (rule Suc.IH) (use that same D lt suc Suc.prems nx(2) in auto)
      then show ?thesis using that same by simp
    qed
    then have "wp (body oid) (\<lambda>_. wp (foreach_from n ty body oid)
        (\<lambda>_ s''. I (oids_of s ty) s'' \<and> oids s'' = oids s \<and> oid_count s'' = oid_count s) E) E s"
      by (intro wp_mono [OF body [OF Suc.prems(1) new]]) auto
    then show ?thesis using r d by (simp add: wp_simps)
  qed
qed simp

lemma foreach_oid_rule:
  assumes "\<And>oid D s. I D s \<Longrightarrow> oid \<in> oids_of s ty - D \<Longrightarrow>
      wp (body oid) (\<lambda>_ s'. I (insert oid D) s' \<and> oids s' = oids s \<and> oid_count s' = oid_count s) E s"
    and "I {} s" and "oids_data s ty"
  shows "wp (foreach_oid ty body) (\<lambda>_ s'. I (oids_of s ty) s' \<and> oids s' = oids s \<and> oid_count s' = oid_count s) E s"
  unfolding foreach_oid_def
  by (rule foreach_from_rule [OF assms]) (use unat_u8_less [of "oid_count s"] in auto)

section \<open>Statistics\<close>

lemma unat_DIV_ROUND_UP:
  assumes "unat n + 255 < 2 ^ 32"
  shows "unat (DIV_ROUND_UP n SUMSQ_BASE) = (unat n + 255) div 256"
proof -
  have "DIV_ROUND_UP n SUMSQ_BASE = (n + 255) div 256"
    by (simp add: DIV_ROUND_UP_def SUMSQ_BASE_def add.commute)
  moreover have "unat (n + 255) = unat n + 255" using assms by (simp add: unat_plus_if_size word_size)
  ultimately show ?thesis by (simp add: unat_div)
qed

lemma unat_mult_u32: "unat x * unat y < 2 ^ 32 \<Longrightarrow> unat (x * y :: u32) = unat x * unat y"
  by (simp add: unat_mult_lem [THEN iffD1])

text \<open>
  The contribution of one round to the sum of squares, as a natural number.
\<close>

definition sumsq_term :: "nat \<Rightarrow> nat" where
  "sumsq_term d = (if d \<le> 0xffff then (d * d + 255) div 256 else (d + 255) div 256 * d)"

lemma next_sumsq_term:
  assumes "diff \<le> 0xfffff"
  shows "sumsq_term (unat diff) < 2 ^ 32 \<and>
    next_sumsq q diff = (let n = q + of_nat (sumsq_term (unat diff)) in if n < q then 0xffffffff else n)"
proof (cases "diff \<le> 0xffff")
  case True
  then have d: "unat diff \<le> 0xffff" by (simp add: word_le_nat_alt)
  then have sq: "unat diff * unat diff \<le> 0xffff * 0xffff" by (intro mult_le_mono)
  then have "unat (diff * diff) = unat diff * unat diff" by (intro unat_mult_u32) simp
  then have "unat (DIV_ROUND_UP (diff * diff) SUMSQ_BASE) = sumsq_term (unat diff)"
    using sq d unat_DIV_ROUND_UP [of "diff * diff"] by (simp add: sumsq_term_def)
  then have "DIV_ROUND_UP (diff * diff) SUMSQ_BASE = of_nat (sumsq_term (unat diff))"
    by (metis of_nat_unat ucast_id)
  moreover have "sumsq_term (unat diff) < 2 ^ 32" using sq d by (simp add: sumsq_term_def)
  ultimately show ?thesis using True by (simp add: next_sumsq_def)
next
  case False
  have d: "unat diff \<le> 0xfffff" "\<not> unat diff \<le> 0xffff" using assms False by (simp_all add: word_le_nat_alt)
  then have q: "(unat diff + 255) div 256 \<le> 4096" by simp
  have r: "unat (DIV_ROUND_UP diff SUMSQ_BASE) = (unat diff + 255) div 256"
    using d by (intro unat_DIV_ROUND_UP) simp
  have lt: "(unat diff + 255) div 256 * unat diff \<le> 4096 * 0xfffff" using q d(1) by (rule mult_le_mono)
  then have "unat (DIV_ROUND_UP diff SUMSQ_BASE * diff) = sumsq_term (unat diff)"
    using unat_mult_u32 [of "DIV_ROUND_UP diff SUMSQ_BASE" diff] r d by (simp add: sumsq_term_def)
  then have "DIV_ROUND_UP diff SUMSQ_BASE * diff = of_nat (sumsq_term (unat diff))"
    by (metis of_nat_unat ucast_id)
  moreover have "sumsq_term (unat diff) < 2 ^ 32" using lt d by (simp add: sumsq_term_def)
  ultimately show ?thesis using False assms by (simp add: next_sumsq_def)
qed

text \<open>
  The sum of squares of the load statistics saturates: as long as a round takes at most
  \<open>0xfffff\<close> ticks, the new value is the exact sum, or \<open>0xffffffff\<close> if that exceeds 32 bits; no
  intermediate product overflows.  For longer rounds it is \<open>0xffffffff\<close>.
\<close>

lemma next_sumsq_saturates:
  "unat (next_sumsq q diff) =
     (if diff \<le> 0xfffff then min (2 ^ 32 - 1) (unat q + sumsq_term (unat diff)) else 2 ^ 32 - 1)"
proof (cases "diff \<le> 0xfffff")
  case True
  let ?t = "sumsq_term (unat diff)"
  note n = next_sumsq_term [OF True, of q]
  then have ut: "unat (of_nat ?t :: u32) = ?t" by (simp add: unat_of_nat)
  have "unat (q + of_nat ?t) = (if unat q + ?t < 2 ^ 32 then unat q + ?t else unat q + ?t - 2 ^ 32)"
    using ut by (simp add: unat_plus_if_size word_size)
  then show ?thesis
    using n True ut unat_u32_less [of q] by (auto simp: Let_def word_less_nat_alt)
next
  case False
  then have "\<not> diff \<le> 0xffff" by (auto simp: word_le_nat_alt)
  with False have "next_sumsq q diff = 0xffffffff" by (simp add: next_sumsq_def Let_def)
  then show ?thesis using False by simp
qed

text \<open>
  \<open>uptime_ok s T\<close>: the statistics variables hold the 64-bit time \<open>T\<close> of the last report.
\<close>

definition uptime_ok :: "'a basecmd_scheme \<Rightarrow> nat \<Rightarrow> bool" where
  "uptime_ok s T \<longleftrightarrow> stats_send_time s = of_nat T \<and> stats_send_time_high s = of_nat (T div 2 ^ 32)"

lemma high_word_step:
  assumes "T0 \<le> T" and "T < T0 + 2 ^ 32"
  shows "(of_nat (T0 div 2 ^ 32) :: u32) + of_bool ((of_nat T :: u32) < of_nat T0) = of_nat (T div 2 ^ 32)"
proof -
  have lt: "(of_nat T :: u32) < of_nat T0 \<longleftrightarrow> T mod 2 ^ 32 < T0 mod 2 ^ 32"
    by (simp add: word_less_nat_alt unat_of_nat)
  let ?M = "2 ^ 32 :: nat"
  define q r q0 r0 where "q = T div ?M" and "r = T mod ?M" and "q0 = T0 div ?M" and "r0 = T0 mod ?M"
  then have T: "T = q * ?M + r" "T0 = q0 * ?M + r0" "r < ?M" "r0 < ?M" by simp_all
  have ge: "q0 \<le> q" using assms(1) T by simp
  have le: "q \<le> q0 + 1"
  proof (rule ccontr)
    assume "\<not> ?thesis"
    then have "(q0 + 2) * ?M \<le> q * ?M" by (intro mult_le_mono1) simp
    then show False using assms(2) T by simp
  qed
  have "q = q0 + of_bool (r < r0)"
    using ge le assms T by (cases "q = q0") auto
  then show ?thesis unfolding lt q_def r_def q0_def r0_def by simp
qed

text \<open>
  The reported uptime is the true 64-bit time: if the statistics variables hold the time
  \<open>T0\<close> of the last report and less than \<open>2 ^ 32\<close> ticks have passed, \<^verbatim>\<open>get_uptime\<close> at
  time \<open>T\<close> sends the two halves of \<open>T\<close>, and \<^verbatim>\<open>stats_update\<close> at time \<open>T\<close> leaves
  variables that hold \<open>T\<close> or, when it does not report yet, still \<open>T0\<close>.
\<close>

lemma uptime_exact:
  assumes "uptime_ok s T0" and "T0 \<le> T" and "T < T0 + 2 ^ 32"
    and "in_sendf s = 0" and "env s ReadTime (env_pos s) = of_nat T"
  shows "wp (command_get_uptime args)
      (\<lambda>_ s'. trace s' = trace s @ [Sendf ''uptime high=%u clock=%u'' [VInt (of_nat (T div 2 ^ 32)), VInt (of_nat T)]])
      (\<lambda>_ _. False) s \<and>
    wp (stats_update start (of_nat T)) (\<lambda>_ s'. uptime_ok s' T \<or> uptime_ok s' T0 \<and> trace s' = trace s) (\<lambda>_ _. False) s"
  using assms high_word_step [OF assms(2,3)]
  by (auto simp: command_get_uptime_def stats_update_def timer_read_time_def uptime_ok_def wp_simps)

section \<open>Identification data\<close>

lemma unat_ucast_u8_u32: "unat (ucast (x :: u8) :: u32) = unat x"
  using unat_u8_less [of x] by (simp add: unsigned_ucast_eq take_bit_nat_eq_self)

lemma unat_ucast_u32_u8: "unat (x :: u32) < 256 \<Longrightarrow> unat (ucast x :: u8) = unat x"
  by (simp add: unsigned_ucast_eq take_bit_nat_eq_self)

text \<open>
  \<^verbatim>\<open>identify\<close> never reads outside the identification data: whatever offset and count the
  host asks for, the response holds the part of the requested range that exists, which is empty
  from the end of the data on.
\<close>

lemma identify_in_bounds:
  assumes "length (command_identify_data (cfg s)) < 2 ^ 32 - 256" and "in_sendf s = 0"
  shows "\<exists>n data. wp (command_identify args)
      (\<lambda>_ s'. trace s' = trace s @ [Sendf ''identify_response offset=%u data=%.*s'' [VInt (args ! 0), VInt n, VPtr data]])
      (\<lambda>_ _. False) s \<and>
    data = take (unat (ucast (args ! 1) :: u8)) (drop (unat (args ! 0)) (command_identify_data (cfg s))) \<and>
    unat n = length data"
proof -
  let ?d = "command_identify_data (cfg s)" and ?off = "args ! 0" and ?c = "ucast (args ! 1) :: u8"
  let ?isize = "of_nat (length ?d) :: u32"
  have u: "unat ?isize = length ?d" using assms(1) by (simp add: unat_of_nat)
  have c: "unat ?c < 256" by (rule unat_u8_less)
  have uc: "unat (ucast ?c :: u32) = unat ?c" by (rule unat_ucast_u8_u32)
  define n where "n = identify_count ?off ?c ?isize"
  have n: "unat n = length (take (unat ?c) (drop (unat ?off) ?d))"
  proof (cases "?off \<ge> ?isize")
    case True
    then show ?thesis using u by (simp add: n_def identify_count_def word_le_nat_alt)
  next
    case False
    then have off: "unat ?off < length ?d" using u by (simp add: word_le_nat_alt)
    have "unat (?off + ucast ?c) = unat ?off + unat ?c"
      using off c uc assms(1) by (simp add: unat_plus_if_size word_size)
    moreover have "unat (?isize - ?off) = length ?d - unat ?off"
      using off u by (simp add: unat_sub_if')
    moreover have "unat (ucast (?isize - ?off) :: u8) = length ?d - unat ?off" if "length ?d - unat ?off < 256"
      using that calculation(2) unat_ucast_u32_u8 [of "?isize - ?off"] by simp
    ultimately show ?thesis
      using False off u c by (auto simp: n_def identify_count_def word_less_nat_alt)
  qed
  have "n \<noteq> 0 \<Longrightarrow> unat ?off + unat n \<le> length ?d"
    using n by (cases "unat ?off \<le> length ?d") (auto simp: unat_eq_0)
  then have "wp (command_identify args)
      (\<lambda>_ s'. trace s' = trace s @ [Sendf ''identify_response offset=%u data=%.*s''
         [VInt ?off, VInt (ucast n), VPtr (take (unat n) (drop (unat ?off) ?d))]]) (\<lambda>_ _. False) s"
    using assms(2) unfolding n_def command_identify_def by (auto simp: Let_def wp_simps)
  moreover have "take (unat n) (drop (unat ?off) ?d) = take (unat ?c) (drop (unat ?off) ?d)"
    using n by (simp add: min_def) 
  moreover have "unat (ucast n :: u32) = unat n" by (rule unat_ucast_u8_u32)
  ultimately show ?thesis using n by metis
qed

section \<open>The pool of move nodes\<close>

definition free_ok :: "'a basecmd_scheme \<Rightarrow> nat list \<Rightarrow> bool" where
  "free_ok s fs \<longleftrightarrow> nlist (move_next s) (move_free_list s) fs \<and> distinct fs"

lemma nlist_range:
  "a \<le> n \<Longrightarrow> (\<And>i. a \<le> i \<Longrightarrow> i < n \<Longrightarrow> h i = Some (Suc i)) \<Longrightarrow> h n = None \<Longrightarrow> nlist h (Some a) [a..<Suc n]"
proof (induction "n - a" arbitrary: a)
  case (Suc k)
  then have "a < n" by simp
  then have "[a..<Suc n] = a # [Suc a..<Suc n]" by (simp add: upt_conv_Cons)
  with Suc \<open>a < n\<close> show ?case by (simp del: upt_Suc)
qed simp

lemma fold_links:
  "fold (\<lambda>i h. h(i := Some (Suc i))) [0..<n] h i = (if i < n then Some (Suc i) else h i)"
  by (induction n) (auto simp: less_Suc_eq)

lemma move_reset_ok:
  "move_count s \<noteq> 0 \<Longrightarrow>
   wp move_reset (\<lambda>_ s'. free_ok s' [0..<unat (move_count s)] \<and> move_count s' = move_count s) E s"
proof -
  assume "move_count s \<noteq> 0"
  then have "unat (move_count s) \<noteq> 0" by (simp add: unsigned_eq_0_iff)
  then have n: "unat (move_count s) = Suc (unat (move_count s) - 1)" by simp
  let ?n = "unat (move_count s) - 1"
  let ?h = "(fold (\<lambda>i h. h(i := Some (Suc i))) [0..<?n] (move_next s))(?n := None)"
  have "nlist ?h (Some 0) [0..<Suc ?n]" by (rule nlist_range) (auto simp: fold_links)
  then show ?thesis
    using \<open>move_count s \<noteq> 0\<close> n by (simp add: move_reset_def wp_simps Let_def free_ok_def del: upt_Suc)
qed

lemma alloc_fit_ok:
  "alloc_fit sz dend count p = (n, q) \<Longrightarrow> q = p + n * sz \<and> n \<le> count \<and> (0 < n \<longrightarrow> q \<le> dend)"
proof (induction count arbitrary: p n)
  case (Suc count)
  show ?case
  proof (cases "p + sz \<le> dend")
    case True
    then obtain k where k: "alloc_fit sz dend count (p + sz) = (k, q)" "n = Suc k"
      using Suc.prems by (auto split: prod.splits)
    have "q = p + sz" if "k = 0" using Suc.IH [OF k(1)] that by simp
    then show ?thesis using Suc.IH [OF k(1)] k(2) True by (cases k) auto
  qed (use Suc.prems in simp)
qed simp

text \<open>
  C37.  \<^verbatim>\<open>finalize_config\<close> builds the pool of move nodes: it returns with between 1 and 1024
  nodes that all lie inside the dynamic memory, all of them on the free list, or shuts down.
\<close>

theorem finalize_builds_pool:
  "wp (command_finalize_config args)
    (\<lambda>_ s'. \<exists>n data. 0 < n \<and> n \<le> 1024 \<and> move_count s' = of_nat n \<and> move_list s' = Some data \<and>
       alloc_end s \<le> data \<and> data + n * move_item_size s' \<le> dynmem_end (cfg s) \<and>
       free_ok s' [0..<n] \<and> config_crc s' = args ! 0)
    (\<lambda>e _. e \<in> {''Already finalized'', ''Invalid move request size'', ''alloc_chunks failed'', ''alloc_chunk failed''}) s"
proof -
  let ?item = "max (c_sizeof (cfg s) ''move_node'') (move_item_size s)"
  let ?s = "s\<lparr>move_item_size := ?item\<rparr>"
  obtain n q where nq: "alloc_fit ?item (dynmem_end (cfg s)) 1024 (alloc_end s) = (n, q)" by force
  note fit = alloc_fit_ok [OF nq]
  have un: "unat (of_nat n :: u16) = n" using fit by (simp add: unat_of_nat)
  have if_max: "(if x > y then x else y) = max x y" for x y :: nat by (simp add: max_def)
  have reset: "wp move_reset (\<lambda>_ s''. free_ok s'' [0..<n] \<and> move_count s'' = of_nat n \<and>
      move_list s'' = move_list s' \<and> move_item_size s'' = move_item_size s') E s'"
    if "0 < n" "move_count s' = of_nat n" for s' :: "'a basecmd_scheme" and E
  proof -
    have "move_count s' \<noteq> 0" using that un by (metis unat_0 less_numeral_extra(3))
    then have "wp move_reset (\<lambda>_ s''. free_ok s'' [0..<n] \<and> move_count s'' = of_nat n) E s'"
      using move_reset_ok [of s' E] that un by simp
    then show ?thesis
      by (simp add: move_reset_def wp_simps Let_def split: if_splits)
  qed
  have post: "wp (upd (config_crc_update (\<lambda>_. args ! 0)))
      (\<lambda>_ s'. \<exists>n>0. n \<le> 1024 \<and> move_count s' = of_nat n \<and> (\<exists>data. move_list s' = Some data \<and> alloc_end s \<le> data \<and>
         data + n * move_item_size s' \<le> dynmem_end (cfg s) \<and> free_ok s' [0..<n] \<and> config_crc s' = args ! 0)) E s'"
    if "0 < n" "free_ok s' [0..<n]" "move_count s' = of_nat n" "move_list s' = Some (alloc_end s)" "move_item_size s' = ?item"
    for s' :: "'a basecmd_scheme" and E
    unfolding wp_upd
    by (rule exI [of _ n]) (use that fit in \<open>simp add: free_ok_def add.commute\<close>)
  show ?thesis
    by (simp add: command_finalize_config_def move_finalize_def move_queue_setup_def alloc_chunks_def alloc_chunk_def
        wp_simps if_max nq is_finalized_def)
       (intro impI, rule wp_mono [OF reset], simp_all add: post)
qed

section \<open>Contracts\<close>

text \<open>
  Memory handed out by the allocator is disjoint: in any sequence of allocations that
  succeeds, every chunk lies inside the dynamic memory, is aligned, and begins behind the end of
  all chunks allocated before it.
\<close>

lemma alloc_disjoint:
  assumes "allocs szs s = Some (Inr as, s')" and "0 < alignof_ptr (cfg s)" and "alignof_ptr (cfg s) dvd alloc_end s"
  shows "length as = length szs \<and>
    (\<forall>i<length szs. alloc_end s \<le> as ! i \<and> as ! i + szs ! i \<le> dynmem_end (cfg s) \<and>
       alignof_ptr (cfg s) dvd as ! i \<and> (\<forall>j<i. as ! j + szs ! j \<le> as ! i))"
  using assms by (rule allocs_ok)

text \<open>
  C30.  Move queues keep the order: moves pushed onto a queue come out in the order they were
  pushed, behind those that were in the queue before, and leave it empty.
\<close>

theorem move_queue_fifo:
  assumes "mq_rep s mh xs" and "distinct (xs @ ms)"
  shows "\<exists>s' mh'. bnd (push_all move_queue_push ms mh) (pop_n move_queue_pop (length xs + length ms)) s
      = Some (Inr (xs @ ms, mh'), s') \<and> move_queue_empty mh'"
  using assms by (rule mq.fifo)

theorem move_queue_fifo_witness:
  "\<exists>s' mh'. bnd (push_all move_queue_push [4, 2, 7] mq_null) (pop_n move_queue_pop 3)
     (basecmd_init example_config (\<lambda>_ _. 0) () :: basecmd) = Some (Inr ([4, 2, 7], mh'), s') \<and> move_queue_empty mh'"
  using move_queue_fifo [of "basecmd_init example_config (\<lambda>_ _. 0) () :: basecmd" mq_null "[]" "[4, 2, 7]"]
  by (simp add: mq_rep_def mq_null_def eval_nat_numeral)



end
