(* ===== verification/Timer_irq.thy ===== *)
theory Timer_irq
  imports Basecmd
begin

text \<open>
  The interrupt side of the scheduler, \<^verbatim>\<open>src/generic/timer_irq.c\<close>: the loop that runs all
  timers that are due and computes the time of the next hardware interrupt.
\<close>

section \<open>Definitions\<close>

record timer_irq = basecmd +
  timer_repeat_until :: u32

abbreviation TIMER_IDLE_REPEAT_TICKS :: "'a hw_scheme \<Rightarrow> u32" where
  "TIMER_IDLE_REPEAT_TICKS s \<equiv> timer_from_us s 500"

abbreviation TIMER_REPEAT_TICKS :: "'a hw_scheme \<Rightarrow> u32" where
  "TIMER_REPEAT_TICKS s \<equiv> timer_from_us s 100"

abbreviation TIMER_MIN_TRY_TICKS :: "'a hw_scheme \<Rightarrow> u32" where
  "TIMER_MIN_TRY_TICKS s \<equiv> timer_from_us s 2"

abbreviation TIMER_DEFER_REPEAT_TICKS :: "'a hw_scheme \<Rightarrow> u32" where
  "TIMER_DEFER_REPEAT_TICKS s \<equiv> timer_from_us s 5"

text \<open>The check for too many repeated timers: the interrupt time to return, or the new limit.\<close>

definition check_repeat :: "u32 \<Rightarrow> u32 \<Rightarrow> u32 \<Rightarrow> ('a timer_irq_scheme, u32 + u32) prog" where
  "check_repeat tru now diff =
     (if timer_is_before tru now then
        bnd (gets (\<lambda>s. sint diff < sint (- timer_from_us s 1000))) (\<lambda>past.
        sq (whenp past (sched_try_shutdown ''Rescheduled timer in the past''))
       (bnd (gets sched_tasks_busy) (\<lambda>busy.
        if busy then
          sq (upd (\<lambda>s. s\<lparr>timer_repeat_until := now + TIMER_REPEAT_TICKS s\<rparr>))
             (gets (\<lambda>s. Inr (now + TIMER_DEFER_REPEAT_TICKS s)))
        else
          sq (upd (\<lambda>s. s\<lparr>timer_repeat_until := now + TIMER_IDLE_REPEAT_TICKS s\<rparr>))
             (gets (\<lambda>s. Inl (now + TIMER_IDLE_REPEAT_TICKS s))))))
      else ret (Inl tru))"

definition wait_ready :: "u32 \<Rightarrow> u32 \<Rightarrow> ('a timer_irq_scheme, unit) prog" where
  "wait_ready nxt = loopp (\<lambda>diff.
     if sint diff > 0 then bnd timer_read_time (\<lambda>t. ret (Inl (nxt - t))) else ret (Inr ()))"

definition timer_dispatch_many ::
  "(tref \<Rightarrow> ('a timer_irq_scheme, sf) prog) \<Rightarrow> (timer_fn \<Rightarrow> tref \<Rightarrow> ('a timer_irq_scheme, sf) prog)
    \<Rightarrow> ('a timer_irq_scheme, u32) prog" where
  "timer_dispatch_many stepper_event call =
     bnd (gets timer_repeat_until) (loopp (\<lambda>tru.
       bnd (sched_timer_dispatch stepper_event call) (\<lambda>nxt.
       bnd timer_read_time (\<lambda>now.
       bnd (gets (\<lambda>s. sint (nxt - now) > sint (TIMER_MIN_TRY_TICKS s))) (\<lambda>later.
       if later then ret (Inr nxt)
       else
         bnd (check_repeat tru now (nxt - now)) (\<lambda>r.
         case r of
           Inr w \<Rightarrow> ret (Inr w)
         | Inl tru' \<Rightarrow> sq (wait_ready nxt (nxt - now)) (ret (Inl tru'))))))))"

definition timer_task :: "('a timer_irq_scheme, unit) prog" where
  "timer_task =
     bnd timer_read_time (\<lambda>now.
     upd (\<lambda>s. s\<lparr>timer_repeat_until :=
       (if timer_is_before (timer_repeat_until s) now then now else timer_repeat_until s)\<rparr>))"

text \<open>The state at power-on.\<close>

definition timer_irq_init :: "config \<Rightarrow> (hwreq \<Rightarrow> nat \<Rightarrow> u32) \<Rightarrow> 'a \<Rightarrow> 'a timer_irq_scheme" where
  "timer_irq_init c e m = basecmd_init c e (timer_irq_ext 0 m)"

end
