(* ===== verification/Trsync.thy ===== *)
theory Trsync
  imports Timer_irq
begin

text \<open>
  Trigger synchronisation, \<^verbatim>\<open>src/trsync.c\<close>: when an endstop or the host triggers, or a
  timeout expires, all registered signals are dispatched once.
\<close>

section \<open>Data\<close>

text \<open>
  The timers of a \<^verbatim>\<open>struct trsync\<close> are \<open>ObjTimer oid TMain\<close> (\<^verbatim>\<open>report_time\<close>) and
  \<open>ObjTimer oid TExpire\<close> (\<^verbatim>\<open>expire_time\<close>).  A \<^verbatim>\<open>struct trsync_signal\<close> is part of a
  stepper and addressed by the stepper's oid.
\<close>

datatype trsync_callback = Cb_stepper_stop

record trsync_signal =
  sg_next :: "u8 option"
  sg_func :: "trsync_callback option"

record trsync =
  ts_report_ticks :: u32
  ts_signals :: "u8 option"
  ts_flags :: u8
  ts_trigger_reason :: u8
  ts_expire_reason :: u8

record trsync_state = timer_irq +
  trsyncs :: "u8 \<Rightarrow> trsync"
  signals :: "u8 \<Rightarrow> trsync_signal"

definition TSF_CAN_TRIGGER :: u8 where "TSF_CAN_TRIGGER = 1"
definition TSF_REPORT :: u8 where "TSF_REPORT = 4"

definition trsync_zero :: trsync where
  "trsync_zero = \<lparr>ts_report_ticks = 0, ts_signals = None, ts_flags = 0, ts_trigger_reason = 0, ts_expire_reason = 0\<rparr>"

definition signal_null :: trsync_signal where
  "signal_null = \<lparr>sg_next = None, sg_func = None\<rparr>"

abbreviation ts_report_time :: "u8 \<Rightarrow> tref" where "ts_report_time ts \<equiv> ObjTimer ts TMain"
abbreviation ts_expire_time :: "u8 \<Rightarrow> tref" where "ts_expire_time ts \<equiv> ObjTimer ts TExpire"

definition upd_trsync :: "u8 \<Rightarrow> (trsync \<Rightarrow> trsync) \<Rightarrow> ('a trsync_state_scheme, unit) prog" where
  "upd_trsync ts f = upd (\<lambda>s. s\<lparr>trsyncs := (trsyncs s)(ts := f (trsyncs s ts))\<rparr>)"

definition set_signal :: "u8 \<Rightarrow> trsync_signal \<Rightarrow> ('a trsync_state_scheme, unit) prog" where
  "set_signal tss v = upd (\<lambda>s. s\<lparr>signals := (signals s)(tss := v)\<rparr>)"

section \<open>Operations\<close>

text \<open>
  The loop of \<^verbatim>\<open>trsync_do_trigger\<close>; \<open>call\<close> calls a callback by its pointer.  A null
  pointer cannot be called.
\<close>

definition dispatch_signals ::
  "(trsync_callback \<Rightarrow> u8 \<Rightarrow> u8 \<Rightarrow> ('a trsync_state_scheme, unit) prog) \<Rightarrow> u8 \<Rightarrow> u8
    \<Rightarrow> ('a trsync_state_scheme, unit) prog" where
  "dispatch_signals call ts reason =
     loopp (\<lambda>_.
       bnd (gets (\<lambda>s. ts_signals (trsyncs s ts))) (\<lambda>p.
       case p of
         None \<Rightarrow> ret (Inr ())
       | Some tss \<Rightarrow>
           bnd (gets (\<lambda>s. signals s tss)) (\<lambda>sg.
           sq (upd_trsync ts (ts_signals_update (\<lambda>_. sg_next sg)))
          (sq (set_signal tss signal_null)
          (bnd (deref (sg_func sg)) (\<lambda>func.
           sq (call func tss reason)
              (ret (Inl ()))))))) ) ()"

definition trsync_do_trigger ::
  "(trsync_callback \<Rightarrow> u8 \<Rightarrow> u8 \<Rightarrow> ('a trsync_state_scheme, unit) prog) \<Rightarrow> u8 \<Rightarrow> u8
    \<Rightarrow> ('a trsync_state_scheme, unit) prog" where
  "trsync_do_trigger call ts reason =
     bnd (gets (\<lambda>s. ts_flags (trsyncs s ts))) (\<lambda>flags.
     if flags AND TSF_CAN_TRIGGER = 0 then ret ()
     else
       sq (upd_trsync ts (\<lambda>t. t\<lparr>ts_trigger_reason := reason,
             ts_flags := (flags AND NOT TSF_CAN_TRIGGER) OR TSF_REPORT\<rparr>))
      (sq (dispatch_signals call ts reason)
          (sched_wake_task trsync_wake)))"

definition trsync_expire_event ::
  "(trsync_callback \<Rightarrow> u8 \<Rightarrow> u8 \<Rightarrow> ('a trsync_state_scheme, unit) prog) \<Rightarrow> u8 \<Rightarrow> ('a trsync_state_scheme, sf) prog" where
  "trsync_expire_event call ts =
     bnd (gets (\<lambda>s. ts_expire_reason (trsyncs s ts))) (\<lambda>reason.
     sq (trsync_do_trigger call ts reason)
        (ret SF_DONE))"

definition trsync_report_event :: "u8 \<Rightarrow> ('a trsync_state_scheme, sf) prog" where
  "trsync_report_event ts =
     sq (upd_trsync ts (\<lambda>t. t\<lparr>ts_flags := ts_flags t OR TSF_REPORT\<rparr>))
    (sq (sched_wake_task trsync_wake)
    (bnd (gets (\<lambda>s. wake s (ts_report_time ts) + ts_report_ticks (trsyncs s ts))) (\<lambda>w.
     sq (set_waketime (ts_report_time ts) w)
        (ret SF_RESCHEDULE))))"

definition command_config_trsync :: "u32 list \<Rightarrow> ('a trsync_state_scheme, unit) prog" where
  "command_config_trsync args =
     (let oid = ucast (args ! 0) in
      bnd (gets (\<lambda>s. c_sizeof (cfg s) ''trsync'')) (\<lambda>sz.
      sq (oid_alloc oid OT_trsync sz)
     (sq (upd_trsync oid (\<lambda>_. trsync_zero))
     (sq (set_func (ts_report_time oid) Fn_trsync_report_event)
         (set_func (ts_expire_time oid) Fn_trsync_expire_event)))))"

definition trsync_oid_lookup :: "u8 \<Rightarrow> ('a trsync_state_scheme, u8 option) prog" where
  "trsync_oid_lookup oid = oid_lookup oid OT_trsync"

definition trsync_add_signal :: "u8 \<Rightarrow> u8 \<Rightarrow> trsync_callback option \<Rightarrow> ('a trsync_state_scheme, unit) prog" where
  "trsync_add_signal ts tss func =
     bnd (gets (\<lambda>s. sg_func (signals s tss))) (\<lambda>old.
     if old \<noteq> None \<or> func = None then shutdown ''Can't add signal that is already active''
     else
       bnd (gets (\<lambda>s. ts_signals (trsyncs s ts))) (\<lambda>sigs.
       sq (set_signal tss \<lparr>sg_next = sigs, sg_func = func\<rparr>)
          (upd_trsync ts (ts_signals_update (\<lambda>_. Some tss)))))"

definition clear_signals :: "u8 option \<Rightarrow> ('a trsync_state_scheme, unit) prog" where
  "clear_signals =
     loopp (\<lambda>p.
       case p of
         None \<Rightarrow> ret (Inr ())
       | Some tss \<Rightarrow>
           bnd (gets (\<lambda>s. sg_next (signals s tss))) (\<lambda>nxt.
           sq (set_signal tss signal_null)
              (ret (Inl nxt))))"

definition trsync_clear :: "u8 \<Rightarrow> ('a trsync_state_scheme, unit) prog" where
  "trsync_clear ts =
     sq (sched_del_timer (ts_report_time ts))
    (sq (sched_del_timer (ts_expire_time ts))
    (bnd (gets (\<lambda>s. ts_signals (trsyncs s ts))) (\<lambda>tss.
     sq (clear_signals tss)
        (upd_trsync ts (\<lambda>t. t\<lparr>ts_signals := None, ts_expire_reason := 0, ts_trigger_reason := 0, ts_flags := 0\<rparr>)))))"

definition command_trsync_start :: "u32 list \<Rightarrow> ('a trsync_state_scheme, unit) prog" where
  "command_trsync_start args =
     bnd (trsync_oid_lookup (ucast (args ! 0))) (\<lambda>p.
     bnd (deref p) (\<lambda>ts.
     sq (trsync_clear ts)
    (sq (upd_trsync ts (ts_flags_update (\<lambda>_. TSF_CAN_TRIGGER)))
    (sq (set_waketime (ts_report_time ts) (args ! 1))
    (sq (upd_trsync ts (ts_report_ticks_update (\<lambda>_. args ! 2)))
    (sq (whenp (args ! 2 \<noteq> 0) (sched_add_timer (ts_report_time ts)))
        (upd_trsync ts (ts_expire_reason_update (\<lambda>_. ucast (args ! 3))))))))))"

definition command_trsync_set_timeout :: "u32 list \<Rightarrow> ('a trsync_state_scheme, unit) prog" where
  "command_trsync_set_timeout args =
     bnd (trsync_oid_lookup (ucast (args ! 0))) (\<lambda>p.
     bnd (deref p) (\<lambda>ts.
     bnd (gets (\<lambda>s. ts_flags (trsyncs s ts))) (\<lambda>flags.
     whenp (flags AND TSF_CAN_TRIGGER \<noteq> 0)
       (sq (sched_del_timer (ts_expire_time ts))
       (sq (set_waketime (ts_expire_time ts) (args ! 1))
           (sched_add_timer (ts_expire_time ts)))))))"

definition trsync_report :: "u8 \<Rightarrow> u8 \<Rightarrow> u8 \<Rightarrow> u32 \<Rightarrow> ('a trsync_state_scheme, unit) prog" where
  "trsync_report oid flags reason clock =
     sendf ''trsync_state oid=%c can_trigger=%c trigger_reason=%c clock=%u''
       [VInt (ucast oid), VInt (of_bool (flags AND TSF_CAN_TRIGGER \<noteq> 0)), VInt (ucast reason), VInt clock]"

definition command_trsync_trigger ::
  "(trsync_callback \<Rightarrow> u8 \<Rightarrow> u8 \<Rightarrow> ('a trsync_state_scheme, unit) prog) \<Rightarrow> u32 list
    \<Rightarrow> ('a trsync_state_scheme, unit) prog" where
  "command_trsync_trigger call args =
     (let oid = ucast (args ! 0) in
      bnd (trsync_oid_lookup oid) (\<lambda>p.
      bnd (deref p) (\<lambda>ts.
      sq (trsync_do_trigger call ts (ucast (args ! 1)))
     (sq (sched_del_timer (ts_report_time ts))
     (sq (sched_del_timer (ts_expire_time ts))
     (sq (upd_trsync ts (ts_flags_update (\<lambda>_. 0)))
     (bnd (gets (\<lambda>s. ts_trigger_reason (trsyncs s ts))) (\<lambda>reason.
      trsync_report oid 0 reason 0))))))))"

definition trsync_task :: "('a trsync_state_scheme, unit) prog" where
  "trsync_task =
     bnd (sched_check_wake trsync_wake) (\<lambda>w.
     whenp w (foreach_oid OT_trsync (\<lambda>ts.
       bnd (gets (\<lambda>s. ts_flags (trsyncs s ts) AND TSF_REPORT = 0)) (\<lambda>skip.
       whenp (\<not> skip)
         (bnd timer_read_time (\<lambda>time.
          bnd (gets (\<lambda>s. trsyncs s ts)) (\<lambda>t.
          sq (upd_trsync ts (ts_flags_update (\<lambda>_. ts_flags t AND NOT TSF_REPORT)))
             (trsync_report ts (ts_flags t) (ts_trigger_reason t) time))))))))"

definition trsync_shutdown :: "('a trsync_state_scheme, unit) prog" where
  "trsync_shutdown = foreach_oid OT_trsync trsync_clear"

text \<open>The state at power-on.\<close>

definition trsync_init :: "config \<Rightarrow> (hwreq \<Rightarrow> nat \<Rightarrow> u32) \<Rightarrow> 'a \<Rightarrow> 'a trsync_state_scheme" where
  "trsync_init c e m = timer_irq_init c e (trsync_state_ext (\<lambda>_. trsync_zero) (\<lambda>_. signal_null) m)"

section \<open>Triggering\<close>

text \<open>\<open>sig_chain h p xs\<close>: from \<open>p\<close> the registered signals are \<open>xs\<close>, each with a callback.\<close>

fun sig_chain :: "(u8 \<Rightarrow> trsync_signal) \<Rightarrow> u8 option \<Rightarrow> u8 list \<Rightarrow> bool" where
  "sig_chain h p [] \<longleftrightarrow> p = None"
| "sig_chain h p (x # xs) \<longleftrightarrow> p = Some x \<and> sg_func (h x) \<noteq> None \<and> sig_chain h (sg_next (h x)) xs"

lemma sig_chain_upd [simp]: "x \<notin> set xs \<Longrightarrow> sig_chain (h(x := v)) p xs = sig_chain h p xs"
  by (induction xs arbitrary: p) auto

lemma wp_dispatch_signals:
  "wp (dispatch_signals call ts reason) Q E s =
     (case ts_signals (trsyncs s ts) of
        None \<Rightarrow> Q () s
      | Some x \<Rightarrow>
          (\<exists>cb. sg_func (signals s x) = Some cb \<and>
             wp (call cb x reason) (\<lambda>_. wp (dispatch_signals call ts reason) Q E) E
               (s\<lparr>trsyncs := (trsyncs s)(ts := (trsyncs s ts)\<lparr>ts_signals := sg_next (signals s x)\<rparr>),
                  signals := (signals s)(x := signal_null)\<rparr>)))"
  unfolding dispatch_signals_def
  by (subst wp_loopp_unfold) (simp add: wp_simps upd_trsync_def set_signal_def split: option.split)

text \<open>
  What the trigger code relies on of a callback: it always returns, it reaches its goal \<open>halted x\<close>
  without undoing that of others, and it leaves the registrations alone.
\<close>

locale signal_callback =
  fixes call :: "trsync_callback \<Rightarrow> u8 \<Rightarrow> u8 \<Rightarrow> ('a trsync_state_scheme, unit) prog"
    and good :: "'a trsync_state_scheme \<Rightarrow> bool"
    and halted :: "u8 \<Rightarrow> 'a trsync_state_scheme \<Rightarrow> bool"
  assumes call_ok: "good s \<Longrightarrow> wp (call cb x r)
      (\<lambda>_ s'. good s' \<and> halted x s' \<and> (\<forall>y. halted y s \<longrightarrow> halted y s') \<and> trsyncs s' = trsyncs s \<and> signals s' = signals s)
      (\<lambda>_ _. False) s"
    and good_frame: "good (s\<lparr>trsyncs := a\<rparr>) = good s" "good (s\<lparr>signals := b\<rparr>) = good s"
      "good (s\<lparr>tasks_status := i, wakes := w\<rparr>) = good s"
    and halted_frame: "halted x (s\<lparr>trsyncs := a\<rparr>) = halted x s" "halted x (s\<lparr>signals := b\<rparr>) = halted x s"
      "halted x (s\<lparr>tasks_status := i, wakes := w\<rparr>) = halted x s"
begin

definition signalled :: "u8 \<Rightarrow> u8 list \<Rightarrow> 'a trsync_state_scheme \<Rightarrow> 'a trsync_state_scheme \<Rightarrow> bool" where
  "signalled ts xs s s' \<longleftrightarrow>
     good s' \<and> (\<forall>x\<in>set xs. halted x s') \<and> (\<forall>y. halted y s \<longrightarrow> halted y s') \<and>
     trsyncs s' = (trsyncs s)(ts := (trsyncs s ts)\<lparr>ts_signals := None\<rparr>) \<and>
     (\<forall>x. signals s' x = (if x \<in> set xs then signal_null else signals s x))"

lemma dispatch_signals_ok:
  assumes "good s" and "sig_chain (signals s) (ts_signals (trsyncs s ts)) xs" and "distinct xs"
  shows "wp (dispatch_signals call ts reason) (\<lambda>_ s'. signalled ts xs s s') (\<lambda>_ _. False) s"
  using assms
proof (induction xs arbitrary: s)
  case Nil
  then have "signalled ts [] s s" by (simp add: signalled_def fun_upd_idem)
  with Nil show ?case by (subst wp_dispatch_signals) simp
next
  case (Cons x xs)
  let ?sg = "signals s x"
  let ?s1 = "s\<lparr>trsyncs := (trsyncs s)(ts := (trsyncs s ts)\<lparr>ts_signals := sg_next ?sg\<rparr>),
      signals := (signals s)(x := signal_null)\<rparr>"
  obtain cb where cb: "sg_func ?sg = Some cb" and p: "ts_signals (trsyncs s ts) = Some x"
    and rest: "sig_chain (signals s) (sg_next ?sg) xs" using Cons.prems(2) by auto
  have good1: "good ?s1" using Cons.prems(1) by (simp add: good_frame)
  have "wp (dispatch_signals call ts reason) (\<lambda>_ s'. signalled ts (x # xs) s s') (\<lambda>_ _. False) s2"
    if s2: "good s2" "halted x s2" "\<forall>y. halted y ?s1 \<longrightarrow> halted y s2" "trsyncs s2 = trsyncs ?s1" "signals s2 = signals ?s1" for s2
  proof -
    have "sig_chain (signals s2) (ts_signals (trsyncs s2 ts)) xs" using s2 rest Cons.prems(3) by simp
    then have "wp (dispatch_signals call ts reason) (\<lambda>_ s'. signalled ts xs s2 s') (\<lambda>_ _. False) s2"
      using Cons.IH s2(1) Cons.prems(3) by simp
    then show ?thesis
      by (rule wp_mono) (use s2 Cons.prems(3) in \<open>auto simp: signalled_def halted_frame\<close>)
  qed
  then have step: "wp (call cb x reason) (\<lambda>_ s2. wp (dispatch_signals call ts reason) (\<lambda>_ s'. signalled ts (x # xs) s s') (\<lambda>_ _. False) s2)
      (\<lambda>_ _. False) ?s1"
    by (intro wp_mono [OF call_ok [OF good1, of cb x reason]]) blast+
  show ?case
    using step cb p by (subst wp_dispatch_signals) simp
qed

lemma do_trigger_ok:
  assumes "good s" and "sig_chain (signals s) (ts_signals (trsyncs s ts)) xs" and "distinct xs"
    and "ts_flags (trsyncs s ts) AND TSF_CAN_TRIGGER \<noteq> 0"
  shows "wp (trsync_do_trigger call ts reason)
    (\<lambda>_ s'. good s' \<and> (\<forall>x\<in>set xs. halted x s') \<and> wakes s' trsync_wake = 1 \<and>
       trsyncs s' = (trsyncs s)(ts := (trsyncs s ts)\<lparr>ts_trigger_reason := reason,
         ts_flags := (ts_flags (trsyncs s ts) AND NOT TSF_CAN_TRIGGER) OR TSF_REPORT, ts_signals := None\<rparr>)) (\<lambda>_ _. False) s"
proof -
  let ?t = "(trsyncs s ts)\<lparr>ts_trigger_reason := reason,
      ts_flags := (ts_flags (trsyncs s ts) AND NOT TSF_CAN_TRIGGER) OR TSF_REPORT\<rparr>"
  let ?s1 = "s\<lparr>trsyncs := (trsyncs s)(ts := ?t)\<rparr>"
  have "wp (dispatch_signals call ts reason) (\<lambda>_ s'. signalled ts xs ?s1 s') (\<lambda>_ _. False) ?s1"
    by (rule dispatch_signals_ok) (use assms in \<open>simp_all add: good_frame\<close>)
  then show ?thesis
    using assms(4)
    by (simp add: trsync_do_trigger_def wp_simps upd_trsync_def sched_wake_task_def sched_wake_tasks_def)
      (erule wp_mono, auto simp: signalled_def good_frame halted_frame wp_simps)
qed

end

end
