(* ===== verification/Stepper.thy ===== *)
theory Stepper
  imports Trsync
begin

text \<open>
  Stepper motors, \<^verbatim>\<open>src/stepper.c\<close>: step pulses are generated from queued moves of an
  interval, a count and an increment of the interval, and the position is tracked.
\<close>

section \<open>Data\<close>

definition HAVE_EDGE_OPTIMIZATION :: "config \<Rightarrow> bool" where
  "HAVE_EDGE_OPTIMIZATION c \<longleftrightarrow> CONFIG_INLINE_STEPPER_HACK c \<and> CONFIG_HAVE_STEPPER_BOTH_EDGE c"

definition HAVE_AVR_OPTIMIZATION :: "config \<Rightarrow> bool" where
  "HAVE_AVR_OPTIMIZATION c \<longleftrightarrow>
     \<not> HAVE_EDGE_OPTIMIZATION c \<and> CONFIG_INLINE_STEPPER_HACK c \<and> CONFIG_MACH_AVR c"

definition HAVE_SINGLE_SCHEDULE :: "config \<Rightarrow> bool" where
  "HAVE_SINGLE_SCHEDULE c \<longleftrightarrow> HAVE_EDGE_OPTIMIZATION c \<or> HAVE_AVR_OPTIMIZATION c"

record stepper_move =
  m_interval :: u32
  m_add :: u16
  m_count :: u16
  m_flags :: u8

definition MF_DIR :: u8 where "MF_DIR = 1"

text \<open>
  The timer is \<open>ObjTimer oid TMain\<close>; the \<^verbatim>\<open>stop_signal\<close> is the entry of the stepper's
  oid in \<open>signals\<close>.  \<^verbatim>\<open>add\<close> is a signed 16-bit number.
\<close>

record stepper =
  st_interval :: u32
  st_add :: u16
  st_count :: u32
  st_next_step_time :: u32
  st_step_pulse_ticks :: u32
  st_step_pin :: u32
  st_dir_pin :: u32
  st_position :: u32
  st_mq :: move_queue_head
  st_flags :: u8

record stepper_state = trsync_state +
  steppers :: "u8 \<Rightarrow> stepper"
  stepper_moves :: "nat \<Rightarrow> stepper_move"

definition POSITION_BIAS :: u32 where "POSITION_BIAS = 0x40000000"

abbreviation SF_LAST_DIR :: u8 where "SF_LAST_DIR \<equiv> 1"
abbreviation SF_NEXT_DIR :: u8 where "SF_NEXT_DIR \<equiv> 2"
abbreviation SF_INVERT_STEP :: u8 where "SF_INVERT_STEP \<equiv> 4"
definition SF_NEED_RESET :: u8 where "SF_NEED_RESET = 8"
abbreviation SF_SINGLE_SCHED :: u8 where "SF_SINGLE_SCHED \<equiv> 16"
abbreviation SF_HAVE_ADD :: u8 where "SF_HAVE_ADD \<equiv> 32"

definition stepper_zero :: stepper where
  "stepper_zero = \<lparr>st_interval = 0, st_add = 0, st_count = 0, st_next_step_time = 0, st_step_pulse_ticks = 0,
     st_step_pin = 0, st_dir_pin = 0, st_position = 0, st_mq = mq_null, st_flags = 0\<rparr>"

abbreviation st_time :: "u8 \<Rightarrow> tref" where "st_time oid \<equiv> ObjTimer oid TMain"

definition upd_stepper :: "u8 \<Rightarrow> (stepper \<Rightarrow> stepper) \<Rightarrow> ('a stepper_state_scheme, unit) prog" where
  "upd_stepper oid f = upd (\<lambda>s. s\<lparr>steppers := (steppers s)(oid := f (steppers s oid))\<rparr>)"

text \<open>Whether the stepper needs only one timer event per step.\<close>

definition single_sched :: "config \<Rightarrow> stepper \<Rightarrow> bool" where
  "single_sched c st \<longleftrightarrow> HAVE_SINGLE_SCHEDULE c \<and> st_flags st AND SF_SINGLE_SCHED \<noteq> 0"

section \<open>Step events\<close>

definition stepper_load_next :: "u8 \<Rightarrow> ('a stepper_state_scheme, sf) prog" where
  "stepper_load_next oid =
     bnd (gets (\<lambda>s. st_mq (steppers s oid))) (\<lambda>mq.
     if move_queue_empty mq then
       sq (upd_stepper oid (st_count_update (\<lambda>_. 0))) (ret SF_DONE)
     else
       bnd (move_queue_pop mq) (\<lambda>(mn, mq').
       bnd (gets (\<lambda>s. stepper_moves s mn)) (\<lambda>m.
       bnd (gets cfg) (\<lambda>c.
       sq (upd_stepper oid (\<lambda>st. st\<lparr>st_mq := mq', st_add := m_add m, st_interval := m_interval m + scast (m_add m)\<rparr>))
      (bnd (gets (\<lambda>s. single_sched c (steppers s oid))) (\<lambda>single.
       sq (if single then
             bnd (gets (\<lambda>s. wake s (st_time oid) + m_interval m)) (\<lambda>w.
             sq (set_waketime (st_time oid) w)
            (sq (upd_stepper oid (\<lambda>st. if HAVE_AVR_OPTIMIZATION c then
                   st\<lparr>st_flags := (if m_add m \<noteq> 0 then st_flags st OR SF_HAVE_ADD else st_flags st AND NOT SF_HAVE_ADD)\<rparr>
                   else st))
                (upd_stepper oid (st_count_update (\<lambda>_. ucast (m_count m))))))
           else
             sq (upd_stepper oid (\<lambda>st. st\<lparr>st_next_step_time := st_next_step_time st + m_interval m\<rparr>))
            (bnd (gets (\<lambda>s. st_next_step_time (steppers s oid))) (\<lambda>w.
             sq (set_waketime (st_time oid) w)
                (upd_stepper oid (st_count_update (\<lambda>_. ucast (m_count m) * 2))))))
      (sq (if m_flags m AND MF_DIR \<noteq> 0 then
             sq (upd_stepper oid (\<lambda>st. st\<lparr>st_position := - st_position st + ucast (m_count m)\<rparr>))
            (bnd (gets (\<lambda>s. st_dir_pin (steppers s oid))) gpio_out_toggle_noirq)
           else upd_stepper oid (\<lambda>st. st\<lparr>st_position := st_position st + ucast (m_count m)\<rparr>))
      (sq (move_free mn)
          (ret SF_RESCHEDULE)))))))))"

definition stepper_event_edge :: "u8 \<Rightarrow> ('a stepper_state_scheme, sf) prog" where
  "stepper_event_edge oid =
     bnd (gets (\<lambda>s. st_step_pin (steppers s oid))) (\<lambda>pin.
     sq (gpio_out_toggle_noirq pin)
    (bnd (gets (\<lambda>s. st_count (steppers s oid) - 1)) (\<lambda>count.
     if count \<noteq> 0 then
       bnd (gets (\<lambda>s. wake s (st_time oid) + st_interval (steppers s oid))) (\<lambda>w.
       sq (upd_stepper oid (st_count_update (\<lambda>_. count)))
      (sq (set_waketime (st_time oid) w)
      (sq (upd_stepper oid (\<lambda>st. st\<lparr>st_interval := st_interval st + scast (st_add st)\<rparr>))
          (ret SF_RESCHEDULE))))
     else stepper_load_next oid)))"

abbreviation AVR_STEP_INSNS :: u32 where "AVR_STEP_INSNS \<equiv> 40"

text \<open>The count is accessed through a pointer to its low half on the little-endian AVR.\<close>

definition stepper_event_avr :: "u8 \<Rightarrow> ('a stepper_state_scheme, sf) prog" where
  "stepper_event_avr oid =
     bnd (gets (\<lambda>s. st_step_pin (steppers s oid))) (\<lambda>pin.
     sq (gpio_out_toggle_noirq pin)
    (bnd (gets (\<lambda>s. ucast (st_count (steppers s oid)) - 1 :: u16)) (\<lambda>count.
     if count \<noteq> 0 then
       bnd (gets (\<lambda>s. wake s (st_time oid) + st_interval (steppers s oid))) (\<lambda>w.
       sq (upd_stepper oid (\<lambda>st. st\<lparr>st_count := (st_count st AND 0xffff0000) OR ucast count\<rparr>))
      (sq (set_waketime (st_time oid) w)
      (sq (gpio_out_toggle_noirq pin)
      (sq (upd_stepper oid (\<lambda>st. if st_flags st AND SF_HAVE_ADD \<noteq> 0
             then st\<lparr>st_interval := st_interval st + scast (st_add st)\<rparr> else st))
          (ret SF_RESCHEDULE)))))
     else
       bnd (stepper_load_next oid) (\<lambda>r.
       sq (gpio_out_toggle_noirq pin)
          (ret r)))))"

definition reschedule_min :: "u8 \<Rightarrow> u32 \<Rightarrow> ('a stepper_state_scheme, sf) prog" where
  "reschedule_min oid min_next_time = sq (set_waketime (st_time oid) min_next_time) (ret SF_RESCHEDULE)"

definition stepper_event_full :: "u8 \<Rightarrow> ('a stepper_state_scheme, sf) prog" where
  "stepper_event_full oid =
     bnd (gets (\<lambda>s. st_step_pin (steppers s oid))) (\<lambda>pin.
     sq (gpio_out_toggle_noirq pin)
    (bnd timer_read_time (\<lambda>curtime.
     bnd (gets (\<lambda>s. curtime + st_step_pulse_ticks (steppers s oid))) (\<lambda>min_next_time.
     sq (upd_stepper oid (\<lambda>st. st\<lparr>st_count := st_count st - 1\<rparr>))
    (bnd (gets (\<lambda>s. st_count (steppers s oid))) (\<lambda>count.
     if count AND 1 \<noteq> 0 then reschedule_min oid min_next_time
     else if count \<noteq> 0 then
       sq (upd_stepper oid (\<lambda>st. st\<lparr>st_next_step_time := st_next_step_time st + st_interval st\<rparr>))
      (sq (upd_stepper oid (\<lambda>st. st\<lparr>st_interval := st_interval st + scast (st_add st)\<rparr>))
      (bnd (gets (\<lambda>s. st_next_step_time (steppers s oid))) (\<lambda>next_step_time.
       if timer_is_before next_step_time min_next_time then reschedule_min oid min_next_time
       else sq (set_waketime (st_time oid) next_step_time) (ret SF_RESCHEDULE))))
     else
       bnd (stepper_load_next oid) (\<lambda>r.
       bnd (gets (\<lambda>s. wake s (st_time oid))) (\<lambda>w.
       if r = SF_DONE \<or> \<not> timer_is_before w min_next_time then ret r
       else
         bnd (gets (\<lambda>s. sint (w - min_next_time) < sint (- timer_from_us s 1000))) (\<lambda>past.
         if past then shutdown ''Stepper too far in past''
         else reschedule_min oid min_next_time)))))))))"

definition stepper_event :: "u8 \<Rightarrow> ('a stepper_state_scheme, sf) prog" where
  "stepper_event oid =
     bnd (gets cfg) (\<lambda>c.
     if HAVE_EDGE_OPTIMIZATION c then stepper_event_edge oid
     else if HAVE_AVR_OPTIMIZATION c then stepper_event_avr oid
     else stepper_event_full oid)"

section \<open>Commands\<close>

definition command_config_stepper :: "u32 list \<Rightarrow> ('a stepper_state_scheme, unit) prog" where
  "command_config_stepper args =
     (let oid = ucast (args ! 0) in
      bnd (gets cfg) (\<lambda>c.
      sq (oid_alloc oid OT_stepper (c_sizeof c ''stepper''))
     (sq (upd_stepper oid (\<lambda>_. stepper_zero))
     (sq (set_signal oid signal_null)
     (let invert_step = int_fast8 c (args ! 3);
          flags = (if invert_step > 0 then SF_INVERT_STEP else 0)
      in sq (upd_stepper oid (st_flags_update (\<lambda>_. flags)))
        (sq (hw_setup (GpioOutSetup (args ! 1) (flags AND SF_INVERT_STEP)))
        (sq (upd_stepper oid (st_step_pin_update (\<lambda>_. args ! 1)))
        (sq (hw_setup (GpioOutSetup (args ! 2) 0))
        (sq (upd_stepper oid (\<lambda>st. st\<lparr>st_dir_pin := args ! 2, st_position := - POSITION_BIAS, st_step_pulse_ticks := args ! 4\<rparr>))
        (bnd (move_queue_setup (c_sizeof c ''stepper_move'')) (\<lambda>mq.
         sq (upd_stepper oid (st_mq_update (\<lambda>_. mq)))
            (if HAVE_EDGE_OPTIMIZATION c then
               (if args ! 4 = 0 \<and> invert_step < 0 then upd_stepper oid (\<lambda>st. st\<lparr>st_flags := st_flags st OR SF_SINGLE_SCHED\<rparr>)
                else set_func (st_time oid) Fn_stepper_event_full)
             else if HAVE_AVR_OPTIMIZATION c then
               (if args ! 4 \<le> AVR_STEP_INSNS then upd_stepper oid (\<lambda>st. st\<lparr>st_flags := st_flags st OR SF_SINGLE_SCHED\<rparr>)
                else set_func (st_time oid) Fn_stepper_event_full)
             else if \<not> CONFIG_INLINE_STEPPER_HACK c then set_func (st_time oid) Fn_stepper_event_full
             else ret ()))))))))))))"

definition stepper_oid_lookup :: "u8 \<Rightarrow> ('a stepper_state_scheme, u8) prog" where
  "stepper_oid_lookup oid = obj_lookup oid OT_stepper"

definition upd_move :: "nat \<Rightarrow> (stepper_move \<Rightarrow> stepper_move) \<Rightarrow> ('a stepper_state_scheme, unit) prog" where
  "upd_move mn f = upd (\<lambda>s. s\<lparr>stepper_moves := (stepper_moves s)(mn := f (stepper_moves s mn))\<rparr>)"

definition push_stepper_move :: "u8 \<Rightarrow> nat \<Rightarrow> ('a stepper_state_scheme, unit) prog" where
  "push_stepper_move oid mn =
     bnd (gets (\<lambda>s. st_mq (steppers s oid))) (\<lambda>mq.
     bnd (move_queue_push mn mq) (\<lambda>(_, mq').
     upd_stepper oid (st_mq_update (\<lambda>_. mq'))))"

definition command_queue_step :: "u32 list \<Rightarrow> ('a stepper_state_scheme, unit) prog" where
  "command_queue_step args =
     bnd (stepper_oid_lookup (ucast (args ! 0))) (\<lambda>oid.
     bnd move_alloc (\<lambda>mn.
     sq (upd_move mn (\<lambda>m. m\<lparr>m_interval := args ! 1, m_count := ucast (args ! 2)\<rparr>))
    (if (ucast (args ! 2) :: u16) = 0 then shutdown ''Invalid count parameter''
     else
       sq (upd_move mn (\<lambda>m. m\<lparr>m_add := ucast (args ! 3), m_flags := 0\<rparr>))
      (bnd (gets (\<lambda>s. st_flags (steppers s oid))) (\<lambda>flags0.
       let turn = (flags0 AND SF_LAST_DIR \<noteq> 0) \<noteq> (flags0 AND SF_NEXT_DIR \<noteq> 0);
           flags = (if turn then flags0 XOR SF_LAST_DIR else flags0)
       in sq (whenp turn (upd_move mn (\<lambda>m. m\<lparr>m_flags := m_flags m OR MF_DIR\<rparr>)))
         (bnd (gets (\<lambda>s. st_count (steppers s oid))) (\<lambda>count.
          if count \<noteq> 0 then
            sq (upd_stepper oid (st_flags_update (\<lambda>_. flags)))
               (push_stepper_move oid mn)
          else if flags AND SF_NEED_RESET \<noteq> 0 then move_free mn
          else
            sq (upd_stepper oid (st_flags_update (\<lambda>_. flags)))
           (sq (push_stepper_move oid mn)
           (sq (stepper_load_next oid)
               (sched_add_timer (st_time oid)))))))))))"

definition command_set_next_step_dir :: "u32 list \<Rightarrow> ('a stepper_state_scheme, unit) prog" where
  "command_set_next_step_dir args =
     bnd (stepper_oid_lookup (ucast (args ! 0))) (\<lambda>oid.
     upd_stepper oid (\<lambda>st. st\<lparr>st_flags :=
       (st_flags st AND NOT SF_NEXT_DIR) OR (if args ! 1 \<noteq> 0 then SF_NEXT_DIR else 0)\<rparr>))"

definition command_reset_step_clock :: "u32 list \<Rightarrow> ('a stepper_state_scheme, unit) prog" where
  "command_reset_step_clock args =
     bnd (stepper_oid_lookup (ucast (args ! 0))) (\<lambda>oid.
     bnd (gets (\<lambda>s. st_count (steppers s oid))) (\<lambda>count.
     if count \<noteq> 0 then shutdown ''Can't reset time when stepper active''
     else
       sq (set_waketime (st_time oid) (args ! 1))
          (upd_stepper oid (\<lambda>st. st\<lparr>st_next_step_time := args ! 1, st_flags := st_flags st AND NOT SF_NEED_RESET\<rparr>))))"

definition stepper_get_position :: "config \<Rightarrow> stepper \<Rightarrow> u32" where
  "stepper_get_position c st =
     (let position = (if single_sched c st then st_position st - st_count st
                      else st_position st - st_count st div 2)
      in if position AND 0x80000000 \<noteq> 0 then - position else position)"

definition command_stepper_get_position :: "u32 list \<Rightarrow> ('a stepper_state_scheme, unit) prog" where
  "command_stepper_get_position args =
     bnd (stepper_oid_lookup (ucast (args ! 0))) (\<lambda>oid.
     bnd (gets (\<lambda>s. stepper_get_position (cfg s) (steppers s oid))) (\<lambda>position.
     sendf ''stepper_position oid=%c pos=%i'' [VInt (ucast oid), VInt (position - POSITION_BIAS)]))"

text \<open>The loop at the end of \<^verbatim>\<open>stepper_stop\<close>.\<close>

definition stepper_drain :: "u8 \<Rightarrow> ('a stepper_state_scheme, unit) prog" where
  "stepper_drain oid =
     loopp (\<lambda>_.
       bnd (gets (\<lambda>s. st_mq (steppers s oid))) (\<lambda>mq.
       if move_queue_empty mq then ret (Inr ())
       else
         bnd (move_queue_pop mq) (\<lambda>(mn, mq').
         sq (upd_stepper oid (st_mq_update (\<lambda>_. mq')))
        (sq (move_free mn)
            (ret (Inl ())))))) ()"

definition stepper_stop :: "u8 \<Rightarrow> u8 \<Rightarrow> ('a stepper_state_scheme, unit) prog" where
  "stepper_stop oid reason =
     bnd (gets cfg) (\<lambda>c.
     sq (sched_del_timer (st_time oid))
    (sq (set_waketime (st_time oid) 0)
    (sq (upd_stepper oid (\<lambda>st. st\<lparr>st_next_step_time := 0, st_position := - stepper_get_position c st, st_count := 0,
           st_flags := (st_flags st AND (SF_INVERT_STEP OR SF_SINGLE_SCHED)) OR SF_NEED_RESET\<rparr>))
    (bnd (gets (\<lambda>s. steppers s oid)) (\<lambda>st.
     sq (gpio_out_write (st_dir_pin st) 0)
    (sq (whenp (\<not> (HAVE_EDGE_OPTIMIZATION c \<and> st_flags st AND SF_SINGLE_SCHED \<noteq> 0))
           (gpio_out_write (st_step_pin st) (st_flags st AND SF_INVERT_STEP)))
        (stepper_drain oid)))))))"

text \<open>The callback behind a signal's function pointer.\<close>

definition call_signal :: "trsync_callback \<Rightarrow> u8 \<Rightarrow> u8 \<Rightarrow> ('a stepper_state_scheme, unit) prog" where
  "call_signal cb tss reason = (case cb of Cb_stepper_stop \<Rightarrow> stepper_stop tss reason)"

definition command_stepper_stop_on_trigger :: "u32 list \<Rightarrow> ('a stepper_state_scheme, unit) prog" where
  "command_stepper_stop_on_trigger args =
     bnd (stepper_oid_lookup (ucast (args ! 0))) (\<lambda>oid.
     bnd (trsync_oid_lookup (ucast (args ! 1))) (\<lambda>p.
     bnd (deref p) (\<lambda>ts.
     trsync_add_signal ts oid (Some Cb_stepper_stop))))"

definition stepper_shutdown :: "('a stepper_state_scheme, unit) prog" where
  "stepper_shutdown =
     foreach_oid OT_stepper (\<lambda>oid.
       sq (upd_stepper oid (\<lambda>st. st\<lparr>st_mq := move_queue_clear (st_mq st)\<rparr>))
          (stepper_stop oid 0))"

text \<open>The state at power-on.\<close>

definition stepper_init :: "config \<Rightarrow> (hwreq \<Rightarrow> nat \<Rightarrow> u32) \<Rightarrow> 'a \<Rightarrow> 'a stepper_state_scheme" where
  "stepper_init c e m = trsync_init c e (stepper_state_ext (\<lambda>_. stepper_zero) (\<lambda>_. \<lparr>m_interval = 0, m_add = 0, m_count = 0, m_flags = 0\<rparr>) m)"

section \<open>Move queues of steppers\<close>

text \<open>
  The move nodes are divided among the free list \<open>fs\<close> and the queues \<open>qs oid\<close> of the steppers.
\<close>

definition st_moves_ok :: "'a stepper_state_scheme \<Rightarrow> nat list \<Rightarrow> (u8 \<Rightarrow> nat list) \<Rightarrow> bool" where
  "st_moves_ok s fs qs \<longleftrightarrow>
     free_ok s fs \<and> (\<forall>oid. mq_rep s (st_mq (steppers s oid)) (qs oid) \<and> set (qs oid) \<inter> set fs = {}) \<and>
     (\<forall>o1 o2. o1 \<noteq> o2 \<longrightarrow> set (qs o1) \<inter> set (qs o2) = {})"

lemma st_moves_ok_cong:
  "move_next s' = move_next s \<Longrightarrow> move_free_list s' = move_free_list s \<Longrightarrow>
   (\<And>oid. st_mq (steppers s' oid) = st_mq (steppers s oid)) \<Longrightarrow> st_moves_ok s' fs qs = st_moves_ok s fs qs"
  by (simp add: st_moves_ok_def free_ok_def mq_rep_def)

lemma st_moves_okD: "st_moves_ok s fs qs \<Longrightarrow> mq_rep s (st_mq (steppers s oid)) (qs oid)"
  by (simp add: st_moves_ok_def)

lemma st_moves_ok_pop:
  assumes "st_moves_ok s fs qs" and "qs oid = x # xs"
    and "move_next s' = (move_next s)(x := move_free_list s)" and "move_free_list s' = Some x"
    and "st_mq (steppers s' oid) = (st_mq (steppers s oid))\<lparr>mq_first := move_next s x\<rparr>"
    and "\<And>o'. o' \<noteq> oid \<Longrightarrow> st_mq (steppers s' o') = st_mq (steppers s o')"
  shows "st_moves_ok s' (x # fs) (qs(oid := xs))"
proof -
  have q: "mq_rep s (st_mq (steppers s o')) (qs o')" "set (qs o') \<inter> set fs = {}" for o'
    using assms(1) by (auto simp: st_moves_ok_def)
  have d: "o1 \<noteq> o2 \<Longrightarrow> set (qs o1) \<inter> set (qs o2) = {}" for o1 o2
    using assms(1) by (auto simp: st_moves_ok_def)
  have xo: "x \<notin> set (qs o')" if "o' \<noteq> oid" for o' using d [OF that] assms(2) by auto
  have x: "x \<notin> set fs" "x \<notin> set xs" "distinct xs" using q [of oid] assms(2) by (auto simp: mq_rep_def)
  have "mq_rep s' (st_mq (steppers s' o')) ((qs(oid := xs)) o')" for o'
    using q(1) [of o'] q(1) [of oid] xo [of o'] x assms(2-) by (auto simp: mq_rep_def)
  moreover have "free_ok s' (x # fs)" using assms(1,3,4) x(1) by (simp add: st_moves_ok_def free_ok_def)
  moreover have "set ((qs(oid := xs)) o') \<inter> set (x # fs) = {}" for o'
    using q(2) [of o'] q(2) [of oid] xo [of o'] x assms(2) by auto
  moreover have "set ((qs(oid := xs)) o1) \<inter> set ((qs(oid := xs)) o2) = {}" if "o1 \<noteq> o2" for o1 o2
    using d [OF that] assms(2) by auto
  ultimately show ?thesis by (auto simp: st_moves_ok_def)
qed

lemma stepper_drain_ok:
  assumes "st_moves_ok s fs qs"
  shows "wp (stepper_drain oid)
    (\<lambda>_ s'. st_moves_ok s' (rev (qs oid) @ fs) (qs(oid := [])) \<and>
       (\<exists>h f mq. s' = s\<lparr>steppers := (steppers s)(oid := (steppers s oid)\<lparr>st_mq := mq\<rparr>), move_next := h, move_free_list := f\<rparr>))
    E s"
  using assms
proof (induction "qs oid" arbitrary: s fs qs)
  case Nil
  have "mq_rep s (st_mq (steppers s oid)) []" using st_moves_okD [OF Nil.prems, of oid] Nil.hyps by simp
  then have "move_queue_empty (st_mq (steppers s oid))" using mq_rep_empty by blast
  moreover have "st_moves_ok s (rev (qs oid) @ fs) (qs(oid := []))" using Nil by (simp add: fun_upd_idem)
  moreover have "s = s\<lparr>steppers := (steppers s)(oid := (steppers s oid)\<lparr>st_mq := st_mq (steppers s oid)\<rparr>),
      move_next := move_next s, move_free_list := move_free_list s\<rparr>" by simp
  ultimately show ?case
    unfolding stepper_drain_def by (subst wp_loopp_unfold) (simp only: wp_simps if_True sum.case, blast)
next
  case (Cons x xs)
  let ?mq = "st_mq (steppers s oid)"
  have rep: "mq_rep s ?mq (x # xs)" using st_moves_okD [OF Cons.prems, of oid] Cons.hyps(2) by simp
  then have mq: "\<not> move_queue_empty ?mq" "mq_first ?mq = Some x"
    using mq_rep_empty [OF rep] by (auto simp: mq_rep_def)
  let ?s1 = "s\<lparr>steppers := (steppers s)(oid := (steppers s oid)\<lparr>st_mq := ?mq\<lparr>mq_first := move_next s x\<rparr>\<rparr>),
      move_next := (move_next s)(x := move_free_list s), move_free_list := Some x\<rparr>"
  have ok: "st_moves_ok ?s1 (x # fs) (qs(oid := xs))"
    by (rule st_moves_ok_pop [OF Cons.prems Cons.hyps(2) [symmetric]]) simp_all
  have "wp (stepper_drain oid) (\<lambda>_ s'. st_moves_ok s' (rev xs @ x # fs) (qs(oid := [])) \<and>
       (\<exists>h f mq. s' = ?s1\<lparr>steppers := (steppers ?s1)(oid := (steppers ?s1 oid)\<lparr>st_mq := mq\<rparr>), move_next := h, move_free_list := f\<rparr>))
      E ?s1"
    using Cons.hyps(1) [OF _ ok] by simp
  then have "wp (stepper_drain oid)
    (\<lambda>_ s'. st_moves_ok s' (rev (qs oid) @ fs) (qs(oid := [])) \<and>
       (\<exists>h f mq. s' = s\<lparr>steppers := (steppers s)(oid := (steppers s oid)\<lparr>st_mq := mq\<rparr>), move_next := h, move_free_list := f\<rparr>))
    E ?s1"
    by (rule wp_mono) (auto simp: Cons.hyps(2) [symmetric] intro!: exI stepper_state.equality)
  then show ?case
    unfolding stepper_drain_def
    by (subst wp_loopp_unfold) (simp add: wp_simps mq move_queue_pop_def upd_stepper_def move_free_def)
qed

section \<open>Stopping\<close>

lemma chain_unique: "chain h xs \<Longrightarrow> chain h ys \<Longrightarrow> hd xs = hd ys \<Longrightarrow> xs = ys"
proof (induction h xs arbitrary: ys rule: chain.induct)
  case (2 h x)
  then show ?case by (cases "(h, ys)" rule: chain.cases) auto
next
  case (3 h x y r)
  show ?case
  proof (cases "(h, ys)" rule: chain.cases)
    case (3 h' x' y' r')
    then have "y # r = y' # r'" using "3.prems" by (intro "3.IH") auto
    with 3 "3.prems" show ?thesis by auto
  qed (use "3.prems" in auto)
qed simp

lemma timers_ok_unique: "timers_ok xs s \<Longrightarrow> timers_ok ys s \<Longrightarrow> xs = ys"
  by (auto simp: timers_ok_def intro: chain_unique)

text \<open>\<open>scheduled s t\<close>: timer \<open>t\<close> is in the timer list.\<close>

definition scheduled :: "'a sched_scheme \<Rightarrow> tref \<Rightarrow> bool" where
  "scheduled s t \<longleftrightarrow> (\<exists>xs. timers_ok xs s \<and> t \<in> set xs)"

lemma scheduled_iff: "timers_ok xs s \<Longrightarrow> scheduled s t \<longleftrightarrow> t \<in> set xs"
  using timers_ok_unique by (auto simp: scheduled_def)

lemma timers_ok_cong:
  "(\<And>x. t_next (tm s' x) = t_next (tm s x)) \<Longrightarrow> timer_list s' = timer_list s \<Longrightarrow> last_insert s' = last_insert s \<Longrightarrow>
   timers_ok xs s' = timers_ok xs s"
  using chain_cong [of xs "tm s'" "tm s"] by (simp add: timers_ok_def)

lemma static_ok_cong:
  "(\<And>x. \<not> user_timer x \<Longrightarrow> tm s' x = tm s x) \<Longrightarrow> static_ok s' = static_ok s"
  by (simp add: static_ok_def user_timer_def)

lemma del_list_set:
  assumes "timers_ok xs s" and "user_timer d"
  shows "set (del_list d xs) - {Deleted} = set xs - {d, Deleted}"
proof -
  have "distinct xs" "xs \<noteq> []" using assms(1) by (auto simp: timers_ok_def)
  then show ?thesis
    by (cases xs) (auto simp: del_list_def)
qed

text \<open>A stopped stepper has nothing left to do and takes no moves until its clock is reset.\<close>

definition stepper_good :: "'a stepper_state_scheme \<Rightarrow> bool" where
  "stepper_good s \<longleftrightarrow> (\<exists>xs fs qs. timers_ok xs s \<and> static_ok s \<and> st_moves_ok s fs qs)"

definition stepper_stopped :: "u8 \<Rightarrow> 'a stepper_state_scheme \<Rightarrow> bool" where
  "stepper_stopped oid s \<longleftrightarrow>
     st_count (steppers s oid) = 0 \<and> st_flags (steppers s oid) AND SF_NEED_RESET \<noteq> 0 \<and>
     move_queue_empty (st_mq (steppers s oid)) \<and> \<not> scheduled s (st_time oid)"

definition stopped_of :: "config \<Rightarrow> stepper \<Rightarrow> stepper" where
  "stopped_of c st = st\<lparr>st_next_step_time := 0, st_position := - stepper_get_position c st, st_count := 0,
     st_flags := (st_flags st AND (SF_INVERT_STEP OR SF_SINGLE_SCHED)) OR SF_NEED_RESET\<rparr>"

lemma stopped_flags: "(x AND (SF_INVERT_STEP OR SF_SINGLE_SCHED) OR SF_NEED_RESET) AND SF_NEED_RESET \<noteq> (0 :: u8)"
proof -
  have "bit ((x AND (SF_INVERT_STEP OR SF_SINGLE_SCHED) OR SF_NEED_RESET) AND SF_NEED_RESET) 3"
    by (simp add: bit_simps SF_NEED_RESET_def)
  then show ?thesis by (metis bit_0_eq bot_fun_def bot_bool_def)
qed

lemma stepper_stop_ok:
  assumes "timers_ok xs s" and "static_ok s" and "st_moves_ok s fs qs"
  shows "wp (stepper_stop oid reason)
    (\<lambda>_ s'. (\<exists>xs'. timers_ok xs' s' \<and> set xs' - {Deleted} = set xs - {st_time oid, Deleted}) \<and> static_ok s' \<and>
       st_moves_ok s' (rev (qs oid) @ fs) (qs(oid := [])) \<and>
       (\<exists>mq. steppers s' = (steppers s)(oid := (stopped_of (cfg s) (steppers s oid))\<lparr>st_mq := mq\<rparr>)) \<and>
       trsyncs s' = trsyncs s \<and> signals s' = signals s) (\<lambda>_ _. False) s"
proof -
  let ?post = "\<lambda>s'. (\<exists>xs'. timers_ok xs' s' \<and> set xs' - {Deleted} = set xs - {st_time oid, Deleted}) \<and> static_ok s' \<and>
       st_moves_ok s' (rev (qs oid) @ fs) (qs(oid := [])) \<and>
       (\<exists>mq. steppers s' = (steppers s)(oid := (stopped_of (cfg s) (steppers s oid))\<lparr>st_mq := mq\<rparr>)) \<and>
       trsyncs s' = trsyncs s \<and> signals s' = signals s"
  have rest: "wp (stepper_drain oid) (\<lambda>_. ?post) (\<lambda>_ _. False)
      (s1\<lparr>tm := (tm s1)(st_time oid := (tm s1 (st_time oid))\<lparr>t_waketime := 0\<rparr>),
          steppers := (steppers s1)(oid := stopped_of (cfg s) (steppers s1 oid)), trace := ks\<rparr>)"
    if s1: "timers_ok (del_list (st_time oid) xs) s1" "links_only s s1" for s1 ks
  proof -
    let ?s2 = "s1\<lparr>tm := (tm s1)(st_time oid := (tm s1 (st_time oid))\<lparr>t_waketime := 0\<rparr>),
        steppers := (steppers s1)(oid := stopped_of (cfg s) (steppers s1 oid)), trace := ks\<rparr>"
    have st: "static_ok s1" using links_only_static [OF s1(2) assms(2) s1(1)] .
    have f: "steppers s1 = steppers s" "trsyncs s1 = trsyncs s" "signals s1 = signals s"
      "move_next s1 = move_next s" "move_free_list s1 = move_free_list s"
      using s1(2) by (auto simp: links_only_def)
    have t2: "timers_ok (del_list (st_time oid) xs) ?s2"
      using s1(1) by (subst timers_ok_cong [of _ s1]) auto
    have st2: "static_ok ?s2" using st by (subst static_ok_cong [of _ s1]) auto
    have m2: "st_moves_ok ?s2 fs qs"
      using assms(3) f by (subst st_moves_ok_cong [of _ s]) (auto simp: stopped_of_def)
    show ?thesis
    proof (rule wp_mono [OF stepper_drain_ok [OF m2, of oid "\<lambda>_ _. False"]])
      fix s'
      assume p: "st_moves_ok s' (rev (qs oid) @ fs) (qs(oid := [])) \<and>
        (\<exists>h f mq. s' = ?s2\<lparr>steppers := (steppers ?s2)(oid := (steppers ?s2 oid)\<lparr>st_mq := mq\<rparr>), move_next := h, move_free_list := f\<rparr>)"
      then obtain h fl mq where
        s': "s' = ?s2\<lparr>steppers := (steppers ?s2)(oid := (steppers ?s2 oid)\<lparr>st_mq := mq\<rparr>), move_next := h, move_free_list := fl\<rparr>"
        by blast
      have "timers_ok (del_list (st_time oid) xs) s'" using t2 s' by (subst timers_ok_cong [of _ ?s2]) auto
      moreover have "static_ok s'" using st2 s' by (subst static_ok_cong [of _ ?s2]) auto
      ultimately show "?post s'"
        using p s' f del_list_set [OF assms(1), of "st_time oid"] by auto
    qed
  qed
  show ?thesis
    unfolding stepper_stop_def
    apply (simp add: wp_simps)
    apply (rule wp_mono [OF del_timer_ok [OF assms(1), of "st_time oid"]])
    apply simp
    subgoal for v s1
      using rest [of s1]
      by (auto simp: wp_simps set_waketime_def upd_tm_def upd_stepper_def gpio_out_write_def stopped_of_def)
    by simp
qed

lemma stepper_good_frame:
  "stepper_good (s\<lparr>trsyncs := a\<rparr>) = stepper_good s" "stepper_good (s\<lparr>signals := b\<rparr>) = stepper_good s"
  "stepper_good (s\<lparr>tasks_status := i, wakes := w\<rparr>) = stepper_good s"
  by (simp_all add: stepper_good_def timers_ok_def static_ok_def st_moves_ok_def free_ok_def mq_rep_def)

lemma scheduled_frame [simp]:
  "scheduled (s\<lparr>trsyncs := a\<rparr>) t = scheduled s t" "scheduled (s\<lparr>signals := b\<rparr>) t = scheduled s t"
  "scheduled (s\<lparr>tasks_status := i, wakes := w\<rparr>) t = scheduled s t"
  by (simp_all add: scheduled_def timers_ok_def)

lemma stepper_stopped_frame:
  "stepper_stopped oid (s\<lparr>trsyncs := a\<rparr>) = stepper_stopped oid s" "stepper_stopped oid (s\<lparr>signals := b\<rparr>) = stepper_stopped oid s"
  "stepper_stopped oid (s\<lparr>tasks_status := i, wakes := w\<rparr>) = stepper_stopped oid s"
  by (simp_all add: stepper_stopped_def)

lemma call_signal_ok:
  assumes "stepper_good s"
  shows "wp (call_signal cb x r)
    (\<lambda>_ s'. stepper_good s' \<and> stepper_stopped x s' \<and> (\<forall>y. stepper_stopped y s \<longrightarrow> stepper_stopped y s') \<and>
       trsyncs s' = trsyncs s \<and> signals s' = signals s) (\<lambda>_ _. False) s"
proof -
  obtain xs fs qs where ok: "timers_ok xs s" "static_ok s" "st_moves_ok s fs qs"
    using assms by (auto simp: stepper_good_def)
  have "wp (stepper_stop x r)
    (\<lambda>_ s'. stepper_good s' \<and> stepper_stopped x s' \<and> (\<forall>y. stepper_stopped y s \<longrightarrow> stepper_stopped y s') \<and>
       trsyncs s' = trsyncs s \<and> signals s' = signals s) (\<lambda>_ _. False) s"
  proof (rule wp_mono [OF stepper_stop_ok [OF ok]])
    fix s' :: "'a stepper_state_scheme"
    assume p: "(\<exists>xs'. timers_ok xs' s' \<and> set xs' - {Deleted} = set xs - {st_time x, Deleted}) \<and> static_ok s' \<and>
       st_moves_ok s' (rev (qs x) @ fs) (qs(x := [])) \<and>
       (\<exists>mq. steppers s' = (steppers s)(x := (stopped_of (cfg s) (steppers s x))\<lparr>st_mq := mq\<rparr>)) \<and>
       trsyncs s' = trsyncs s \<and> signals s' = signals s"
    then obtain xs' mq where xs': "timers_ok xs' s'" "set xs' - {Deleted} = set xs - {st_time x, Deleted}"
      and st: "steppers s' = (steppers s)(x := (stopped_of (cfg s) (steppers s x))\<lparr>st_mq := mq\<rparr>)" by blast
    have sch: "scheduled s' (st_time y) \<longleftrightarrow> scheduled s (st_time y) \<and> y \<noteq> x" for y
      using xs'(2) unfolding scheduled_iff [OF xs'(1)] scheduled_iff [OF ok(1)] by auto
    have "st_moves_ok s' (rev (qs x) @ fs) (qs(x := []))" using p by blast
    from st_moves_okD [OF this, of x] have "mq_rep s' mq []" using st by simp
    then have "move_queue_empty mq" using mq_rep_empty by blast
    then have "stepper_stopped x s'"
      using sch st stopped_flags by (simp add: stepper_stopped_def stopped_of_def)
    moreover have "stepper_stopped y s'" if "stepper_stopped y s" "y \<noteq> x" for y
      using that sch st by (simp add: stepper_stopped_def)
    moreover have "stepper_good s'" using p xs' by (auto simp: stepper_good_def)
    ultimately show "stepper_good s' \<and> stepper_stopped x s' \<and> (\<forall>y. stepper_stopped y s \<longrightarrow> stepper_stopped y s') \<and>
       trsyncs s' = trsyncs s \<and> signals s' = signals s" using p by metis
  qed simp
  then show ?thesis by (cases cb) (simp add: call_signal_def)
qed

interpretation stop: signal_callback call_signal stepper_good stepper_stopped
  by unfold_locales (simp_all add: call_signal_ok stepper_good_frame stepper_stopped_frame)

text \<open>
  C6.  A trigger stops every stepper that is registered with it: whatever moves it had, it has no
  steps left, an empty queue and no timer, and ignores moves until its clock is reset.  The first
  trigger wins: its reason is recorded and later triggers change nothing.
\<close>

theorem trigger_stops_steppers:
  assumes "timers_ok xs s" and "static_ok s" and "st_moves_ok s fs qs"
    and "sig_chain (signals s) (ts_signals (trsyncs s ts)) ys" and "distinct ys"
    and "ts_flags (trsyncs s ts) AND TSF_CAN_TRIGGER \<noteq> 0"
  shows "wp (sq (trsync_do_trigger call_signal ts reason) (trsync_do_trigger call_signal ts reason2))
    (\<lambda>_ s'. (\<forall>y\<in>set ys. st_count (steppers s' y) = 0 \<and> st_flags (steppers s' y) AND SF_NEED_RESET \<noteq> 0 \<and>
          move_queue_empty (st_mq (steppers s' y)) \<and> \<not> scheduled s' (st_time y)) \<and>
       ts_trigger_reason (trsyncs s' ts) = reason \<and> ts_signals (trsyncs s' ts) = None \<and>
       ts_flags (trsyncs s' ts) AND TSF_CAN_TRIGGER = 0 \<and> ts_flags (trsyncs s' ts) AND TSF_REPORT \<noteq> 0 \<and>
       wakes s' trsync_wake = 1) (\<lambda>_ _. False) s"
proof -
  have g: "stepper_good s" using assms(1-3) by (auto simp: stepper_good_def)
  have f: "((x AND NOT TSF_CAN_TRIGGER) OR TSF_REPORT) AND TSF_CAN_TRIGGER = 0" for x :: u8
    by (rule bit_word_eqI) (auto simp: bit_simps TSF_CAN_TRIGGER_def TSF_REPORT_def bit_1_iff)
  have r: "TSF_REPORT \<noteq> 0" by (simp add: TSF_REPORT_def)
  show ?thesis
    by (simp only: wp_sq, rule wp_mono [OF stop.do_trigger_ok [OF g assms(4-6), of reason]])
      (auto simp: trsync_do_trigger_def wp_simps f r stepper_stopped_def)
qed

theorem trigger_stops_steppers_witness:
  "\<exists>s :: stepper_state. ts_signals (trsyncs s 1) = Some 2 \<and> st_count (steppers s 2) = 10 \<and> scheduled s (st_time 2) \<and>
     wp (sq (trsync_do_trigger call_signal 1 7) (trsync_do_trigger call_signal 1 8))
       (\<lambda>_ s'. st_count (steppers s' 2) = 0 \<and> \<not> scheduled s' (st_time 2) \<and> ts_trigger_reason (trsyncs s' 1) = 7)
       (\<lambda>_ _. False) s"
proof -
  let ?st = "stepper_zero\<lparr>st_count := 10, st_mq := \<lparr>mq_first = Some 0, mq_last = Some 0\<rparr>\<rparr>"
  let ?s = "(stepper_init example_config (\<lambda>_ _. 0) ())\<lparr>
      tm := tm_init(Periodic := (tm_init Periodic)\<lparr>t_next := Some (st_time 2)\<rparr>,
              st_time 2 := \<lparr>t_next = Some Sentinel, t_func = Fn_stepper_event_full, t_waketime = 50\<rparr>),
      trsyncs := (\<lambda>_. trsync_zero)(1 := trsync_zero\<lparr>ts_flags := TSF_CAN_TRIGGER, ts_signals := Some 2\<rparr>),
      signals := (\<lambda>_. signal_null)(2 := \<lparr>sg_next = None, sg_func = Some Cb_stepper_stop\<rparr>),
      steppers := (\<lambda>_. stepper_zero)(2 := ?st)\<rparr> :: stepper_state"
  note init = stepper_init_def trsync_init_def timer_irq_init_def basecmd_init_def sched_init_def
  let ?xs = "[Periodic, st_time 2, Sentinel]"
  have ok: "timers_ok ?xs ?s" "static_ok ?s" by (simp_all add: timers_ok_def static_ok_def init)
  have mv: "st_moves_ok ?s [] ((\<lambda>_. [])(2 := [0]))"
    by (auto simp: st_moves_ok_def free_ok_def mq_rep_def init stepper_zero_def mq_null_def)
  have sig: "sig_chain (signals ?s) (ts_signals (trsyncs ?s 1)) [2]" "distinct [2 :: u8]"
    "ts_flags (trsyncs ?s 1) AND TSF_CAN_TRIGGER \<noteq> 0" by (simp_all add: TSF_CAN_TRIGGER_def)
  have "scheduled ?s (st_time 2)" unfolding scheduled_iff [OF ok(1)] by simp
  then show ?thesis
    by (intro exI [of _ ?s] conjI wp_mono [OF trigger_stops_steppers [OF ok mv sig]]) auto
qed

section \<open>Step times and position\<close>

text \<open>Consecutive runs of a timer function.\<close>

primrec run_events :: "nat \<Rightarrow> ('s, 'r) prog \<Rightarrow> ('s, unit) prog" where
  "run_events 0 ev = ret ()"
| "run_events (Suc n) ev = sq (run_events n ev) (sq ev (ret ()))"

text \<open>
  Two events of the double scheduled step function: step and unstep.
\<close>

lemma and_1_odd: "(of_nat n :: u32) AND 1 \<noteq> 0 \<longleftrightarrow> odd n" if "n < 2 ^ 32"
proof -
  have "unat (of_nat n :: u32) = n" using that by (simp add: unat_of_nat)
  then have "unat ((of_nat n :: u32) AND 1) = n mod 2" by (simp add: and_one_eq unat_mod)
  moreover have "(of_nat n :: u32) AND 1 = 0 \<longleftrightarrow> unat ((of_nat n :: u32) AND 1) = 0" by (simp only: unsigned_eq_0_iff)
  ultimately show ?thesis by (simp add: odd_iff_mod_2_eq_one)
qed

lemma of_nat_u32_eq_0: "n < 2 ^ 32 \<Longrightarrow> (of_nat n :: u32) = 0 \<longleftrightarrow> n = 0"
proof -
  assume "n < 2 ^ 32"
  then have "unat (of_nat n :: u32) = n" by (simp add: unat_of_nat)
  moreover have "(of_nat n :: u32) = 0 \<longleftrightarrow> unat (of_nat n :: u32) = 0" by (simp only: unsigned_eq_0_iff)
  ultimately show ?thesis by simp
qed

definition step_done :: "stepper \<Rightarrow> stepper" where
  "step_done st = st\<lparr>st_count := st_count st - 2, st_next_step_time := st_next_step_time st + st_interval st,
     st_interval := st_interval st + scast (st_add st)\<rparr>"

lemma full_pair:
  assumes "st_count (steppers s oid) = of_nat (2 * m)" and "2 \<le> m" and "m < 2 ^ 31"
  shows "wp (sq (stepper_event_full oid) (stepper_event_full oid))
    (\<lambda>r s'. r = SF_RESCHEDULE \<and> steppers s' = (steppers s)(oid := step_done (steppers s oid)) \<and> cfg s' = cfg s \<and>
       trace s' = trace s @ replicate 2 (GpioOutToggle (st_step_pin (steppers s oid)))) E s"
proof -
  have c1: "(of_nat (2 * m) - 1 :: u32) = of_nat (2 * m - 1)" using assms(2) by (simp add: of_nat_diff)
  have c2: "(of_nat (2 * m) - 2 :: u32) = of_nat (2 * m - 2)" using assms(2) by (simp add: of_nat_diff)
  have p: "(of_nat (2 * m) - 1 :: u32) AND 1 \<noteq> 0" "(of_nat (2 * m) - 2 :: u32) AND 1 = 0" "(of_nat (2 * m) - 2 :: u32) \<noteq> 0"
    unfolding c1 c2 using and_1_odd [of "2 * m - 1"] and_1_odd [of "2 * m - 2"] of_nat_u32_eq_0 [of "2 * m - 2"] assms(2,3)
    by auto
  have d: "x - 1 - 1 = x - 2" for x :: u32 by simp
  show ?thesis
    using p
    by (simp add: stepper_event_full_def wp_simps gpio_out_toggle_noirq_def timer_read_time_def upd_stepper_def
        reschedule_min_def set_waketime_def upd_tm_def assms(1) d step_done_def eval_nat_numeral)
qed


lemma wp_run_2:
  "wp (run_events (Suc (Suc n)) ev) Q E s = wp (run_events n ev) (\<lambda>_. wp (sq ev ev) (\<lambda>_. Q ()) E) E s"
  by (simp add: wp_simps)

lemma full_pairs:
  assumes "st_count (steppers s oid) = of_nat (2 * N)" and "N < 2 ^ 31" and "k < N"
  shows "wp (run_events (2 * k) (stepper_event_full oid))
    (\<lambda>_ s'. steppers s' = (steppers s)(oid := (step_done ^^ k) (steppers s oid)) \<and> cfg s' = cfg s \<and>
       trace s' = trace s @ replicate (2 * k) (GpioOutToggle (st_step_pin (steppers s oid)))) E s"
  using assms(3)
proof (induction k)
  case 0
  then show ?case by (simp add: wp_simps)
next
  case (Suc k)
  let ?f = "(step_done ^^ k) (steppers s oid)"
  have cnt: "st_count ((step_done ^^ k) st) = st_count st - of_nat (2 * k)" "st_step_pin ((step_done ^^ k) st) = st_step_pin st" for st
    by (induction k) (simp_all add: step_done_def)
  have two: "2 * Suc k = Suc (Suc (2 * k))" by simp
  have rp: "replicate (2 * k) x @ replicate 2 x = replicate (Suc (Suc (2 * k))) x" for x :: event
    by (simp flip: replicate_add)
  show ?case
    unfolding two wp_run_2
  proof (rule wp_mono [OF Suc.IH])
    fix s' :: "'a stepper_state_scheme"
    assume s': "steppers s' = (steppers s)(oid := ?f) \<and> cfg s' = cfg s \<and>
       trace s' = trace s @ replicate (2 * k) (GpioOutToggle (st_step_pin (steppers s oid)))"
    have "st_count (steppers s' oid) = of_nat (2 * (N - k))"
      using s' cnt(1) [of "steppers s oid"] assms(1) Suc.prems by (simp add: of_nat_diff right_diff_distrib)
    then show "wp (sq (stepper_event_full oid) (stepper_event_full oid))
        (\<lambda>_ s'. steppers s' = (steppers s)(oid := (step_done ^^ Suc k) (steppers s oid)) \<and> cfg s' = cfg s \<and>
          trace s' = trace s @ replicate (Suc (Suc (2 * k))) (GpioOutToggle (st_step_pin (steppers s oid)))) E s'"
      using Suc.prems assms(2) s' cnt(2) rp
      by (intro wp_mono [OF full_pair [of s' oid "N - k"]]) simp_all
  qed (use Suc.prems in simp_all)
qed

lemma step_done_pow:
  "(step_done ^^ k) st = st\<lparr>st_count := st_count st - of_nat (2 * k),
     st_next_step_time := st_next_step_time st + of_nat k * st_interval st + of_nat (k * (k - 1) div 2) * scast (st_add st),
     st_interval := st_interval st + of_nat k * scast (st_add st)\<rparr>"
proof (induction k)
  case (Suc k)
  have "Suc k * (Suc k - 1) div 2 = k + k * (k - 1) div 2"
    by (cases k) (simp_all add: field_simps)
  with Suc show ?case by (simp add: step_done_def algebra_simps)
qed simp


text \<open>Loading a move.\<close>

definition move_loaded :: "stepper_move \<Rightarrow> move_queue_head \<Rightarrow> stepper \<Rightarrow> stepper" where
  "move_loaded m mq st = st\<lparr>st_mq := mq, st_add := m_add m, st_interval := m_interval m + scast (m_add m),
     st_next_step_time := st_next_step_time st + m_interval m, st_count := ucast (m_count m) * 2,
     st_position := (if m_flags m AND MF_DIR \<noteq> 0 then - st_position st else st_position st) + ucast (m_count m)\<rparr>"

lemma load_full:
  assumes "\<not> single_sched (cfg s) (steppers s oid)" and "mq_rep s (st_mq (steppers s oid)) (mn # rest)"
  shows "wp (stepper_load_next oid)
    (\<lambda>r s'. r = SF_RESCHEDULE \<and> (\<exists>mq. steppers s' = (steppers s)(oid := move_loaded (stepper_moves s mn) mq (steppers s oid))) \<and>
       cfg s' = cfg s) E s"
proof -
  have mq: "\<not> move_queue_empty (st_mq (steppers s oid))" "mq_first (st_mq (steppers s oid)) = Some mn"
    using mq_rep_empty [OF assms(2)] assms(2) by (auto simp: mq_rep_def)
  have single: "\<not> single_sched (cfg s) (steppers s oid\<lparr>st_mq := a, st_add := b, st_interval := c\<rparr>)" for a b c
    using assms(1) by (simp add: single_sched_def)
  show ?thesis
    by (simp add: stepper_load_next_def wp_simps mq move_queue_pop_def upd_stepper_def single set_waketime_def upd_tm_def
        gpio_out_toggle_noirq_def move_free_def move_loaded_def) blast
qed

lemma unat_u16_less: "unat (x :: u16) < 65536"
  using unsigned_less [of x] by simp

lemma load_and_steps:
  assumes "\<not> single_sched (cfg s) (steppers s oid)" and "mq_rep s (st_mq (steppers s oid)) (mn # rest)"
    and "k < unat (m_count (stepper_moves s mn))"
  shows "wp (sq (stepper_load_next oid) (run_events (2 * k) (stepper_event_full oid)))
    (\<lambda>_ s'. cfg s' = cfg s \<and>
       (\<exists>mq. steppers s' oid = (step_done ^^ k) (move_loaded (stepper_moves s mn) mq (steppers s oid)))) E s"
  unfolding wp_sq
proof (rule wp_mono [OF load_full [OF assms(1,2)]])
  fix r and s' :: "'a stepper_state_scheme"
  let ?N = "unat (m_count (stepper_moves s mn))"
  assume "r = SF_RESCHEDULE \<and> (\<exists>mq. steppers s' = (steppers s)(oid := move_loaded (stepper_moves s mn) mq (steppers s oid))) \<and>
       cfg s' = cfg s"
  then obtain mq where s': "steppers s' = (steppers s)(oid := move_loaded (stepper_moves s mn) mq (steppers s oid))" "cfg s' = cfg s"
    by blast
  have N: "?N < 2 ^ 31" using unat_u16_less [of "m_count (stepper_moves s mn)"] by simp
  have "st_count (steppers s' oid) = of_nat (2 * ?N)" using s' by (simp add: move_loaded_def)
  then show "wp (run_events (2 * k) (stepper_event_full oid))
     (\<lambda>_ s'. cfg s' = cfg s \<and>
       (\<exists>mq. steppers s' oid = (step_done ^^ k) (move_loaded (stepper_moves s mn) mq (steppers s oid)))) E s'"
    using s' by (intro wp_mono [OF full_pairs [OF _ N assms(3)]]) auto
qed simp




lemma top_bit: "x AND 0x80000000 \<noteq> 0 \<longleftrightarrow> 2 ^ 31 \<le> unat (x :: u32)"
proof -
  have "x AND 0x80000000 \<noteq> 0 \<longleftrightarrow> bit x 31"
    using and_exp_eq_0_iff_not_bit [of x 31] by simp
  also have "\<dots> \<longleftrightarrow> sint x < 0"
    by (simp add: sint_uint signed_take_bit_negative_iff bit_unsigned_iff)
  finally show ?thesis by (simp add: neg_sint_iff)
qed

lemma position_word:
  assumes "0 < v" and "v < 2 ^ 31"
  shows "(of_int v :: u32) AND 0x80000000 = 0" and "(- of_int v :: u32) AND 0x80000000 \<noteq> 0"
proof -
  have "uint (of_int v :: u32) = v" using assms by (simp add: unsigned_of_int take_bit_int_eq_self)
  then have u: "unat (of_int v :: u32) = nat v" by (metis unat_eq_nat_uint)
  then have "\<not> 2 ^ 31 \<le> unat (of_int v :: u32)" using assms by simp
  then show "(of_int v :: u32) AND 0x80000000 = 0" using top_bit [of "of_int v"] by blast
  have "(- of_int v :: u32) = of_int (2 ^ 32 - v)" by simp
  then have "uint (- of_int v :: u32) = 2 ^ 32 - v" using assms by (simp only: unsigned_of_int) (simp add: take_bit_int_eq_self)
  then have "unat (- of_int v :: u32) = nat (2 ^ 32 - v)" by (metis unat_eq_nat_uint)
  then have "2 ^ 31 \<le> unat (- of_int v :: u32)" using assms by simp
  then show "(- of_int v :: u32) AND 0x80000000 \<noteq> 0" using top_bit [of "- of_int v"] by blast
qed

text \<open>
  C13.  The reported position counts steps: while a move is carried out, it changes by one per
  step, upwards or downwards as the direction bit says, also in the middle of the move; loading a
  move, with or without a change of direction, does not change it.
\<close>

theorem position_counts_steps:
  assumes "\<not> single_sched (cfg s) (steppers s oid)" and "mq_rep s (st_mq (steppers s oid)) (mn # rest)"
    and "k < unat (m_count (stepper_moves s mn))" and "st_count (steppers s oid) = 0"
    and "stepper_get_position (cfg s) (steppers s oid) = POSITION_BIAS + of_int p"
    and "down \<longleftrightarrow> (st_position (steppers s oid) AND 0x80000000 \<noteq> 0) \<noteq> (m_flags (stepper_moves s mn) AND MF_DIR \<noteq> 0)"
    and "\<bar>p\<bar> + int k < 2 ^ 30"
  shows "wp (sq (stepper_load_next oid) (run_events (2 * k) (stepper_event_full oid)))
    (\<lambda>_ s'. stepper_get_position (cfg s') (steppers s' oid) = POSITION_BIAS + of_int (if down then p - int k else p + int k))
    (\<lambda>_ _. False) s"
proof (rule wp_mono [OF load_and_steps [OF assms(1-3)]])
  fix s' :: "'a stepper_state_scheme"
  let ?m = "stepper_moves s mn" and ?r = "st_position (steppers s oid)"
  assume a: "cfg s' = cfg s \<and> (\<exists>mq. steppers s' oid = (step_done ^^ k) (move_loaded ?m mq (steppers s oid)))"
  then obtain mq where st: "steppers s' oid = (step_done ^^ k) (move_loaded ?m mq (steppers s oid))" by blast
  have single: "\<not> single_sched (cfg s') (steppers s' oid)"
    using assms(1) a unfolding st step_done_pow by (simp add: single_sched_def move_loaded_def)
  define v where "v = 2 ^ 30 + p"
  have v: "0 < v - int k" "v + int k < 2 ^ 31" "POSITION_BIAS + of_int p = (of_int v :: u32)"
    using assms(7) by (auto simp: v_def POSITION_BIAS_def)
  have P: "(if ?r AND 0x80000000 \<noteq> 0 then - ?r else ?r) = of_int v"
    using assms(1,4,5) v(3) by (simp add: stepper_get_position_def Let_def split: if_splits)
  have r': "(if m_flags ?m AND MF_DIR \<noteq> 0 then - ?r else ?r) = (if down then - of_int v else of_int v)"
    using P assms(6) by (auto split: if_splits simp: minus_equation_iff [of "?r"])
  have cnt: "unat (ucast (m_count ?m) * 2 - of_nat (2 * k) :: u32) = 2 * (unat (m_count ?m) - k)"
  proof -
    have "ucast (m_count ?m) * 2 - of_nat (2 * k) = (of_nat (2 * (unat (m_count ?m) - k)) :: u32)"
      using assms(3) by (simp add: of_nat_diff algebra_simps)
    then show ?thesis using unat_u16_less [of "m_count ?m"] by (simp only: unat_of_nat) simp
  qed
  have "st_count (steppers s' oid) div 2 = ucast (m_count ?m) - of_nat k"
  proof -
    have "unat (st_count (steppers s' oid) div 2) = unat (m_count ?m) - k"
      using cnt unfolding st step_done_pow by (simp add: move_loaded_def unat_div)
    then have "st_count (steppers s' oid) div 2 = of_nat (unat (m_count ?m) - k)" by (metis of_nat_unat ucast_id)
    then show ?thesis using assms(3) by (simp add: of_nat_diff)
  qed
  then have raw: "st_position (steppers s' oid) - st_count (steppers s' oid) div 2 =
      (if down then - of_int (v - int k) else of_int (v + int k))"
    using r' unfolding st step_done_pow by (auto simp: move_loaded_def)
  show "stepper_get_position (cfg s') (steppers s' oid) = POSITION_BIAS + of_int (if down then p - int k else p + int k)"
    using position_word [of "v - int k"] position_word [of "v + int k"] v assms(7) single
    by (auto simp: stepper_get_position_def raw POSITION_BIAS_def v_def simp del: of_int_diff of_int_add)
      (simp_all add: algebra_simps)
qed simp

theorem position_counts_steps_witness:
  "\<exists>s :: stepper_state. mq_rep s (st_mq (steppers s 2)) [0] \<and>
     wp (sq (stepper_load_next 2) (run_events 6 (stepper_event_full 2)))
       (\<lambda>_ s'. stepper_get_position (cfg s') (steppers s' 2) - POSITION_BIAS = 7) (\<lambda>_ _. False) s"
proof -
  let ?s = "(stepper_init example_config (\<lambda>_ _. 0) ())\<lparr>
      steppers := (\<lambda>_. stepper_zero)(2 := stepper_zero\<lparr>st_position := POSITION_BIAS + 10,
        st_mq := \<lparr>mq_first = Some 0, mq_last = Some 0\<rparr>\<rparr>),
      stepper_moves := (\<lambda>_. \<lparr>m_interval = 1000, m_add = 5, m_count = 10, m_flags = MF_DIR\<rparr>)\<rparr> :: stepper_state"
  note init = stepper_init_def trsync_init_def timer_irq_init_def basecmd_init_def sched_init_def
  have a: "\<not> single_sched (cfg ?s) (steppers ?s 2)" by (simp add: single_sched_def stepper_zero_def)
  have b: "mq_rep ?s (st_mq (steppers ?s 2)) [0]" by (simp add: mq_rep_def init)
  have c: "3 < unat (m_count (stepper_moves ?s 0))" by simp
  have d: "(POSITION_BIAS + 10) AND 0x80000000 = 0" "MF_DIR \<noteq> 0" by code_simp+
  show ?thesis
    using position_counts_steps [OF a b c, of 10 True] b d
    by (intro exI [of _ ?s] conjI)
      (auto simp: stepper_zero_def stepper_get_position_def single_sched_def POSITION_BIAS_def elim!: wp_mono)
qed

end
