(* ===== verification/Endstop.thy ===== *)
theory Endstop
  imports Stepper
begin

text \<open>
  Endstops, \<^verbatim>\<open>src/endstop.c\<close>: an input pin is polled and, once it reads the wanted level
  often enough in a row, a trigger is fired.
\<close>

section \<open>Definitions\<close>

text \<open>\<^verbatim>\<open>ts\<close> is the oid of a trsync object or null; the timer is \<open>ObjTimer oid TMain\<close>.\<close>

record endstop =
  es_pin :: u32
  es_rest_time :: u32
  es_sample_time :: u32
  es_nextwake :: u32
  es_ts :: "u8 option"
  es_flags :: u8
  es_sample_count :: u8
  es_trigger_count :: u8
  es_trigger_reason :: u8

record endstop_state = stepper_state +
  endstops :: "u8 \<Rightarrow> endstop"

abbreviation ESF_PIN_HIGH :: u8 where "ESF_PIN_HIGH \<equiv> 1"
abbreviation ESF_HOMING :: u8 where "ESF_HOMING \<equiv> 2"

definition endstop_zero :: endstop where
  "endstop_zero = \<lparr>es_pin = 0, es_rest_time = 0, es_sample_time = 0, es_nextwake = 0, es_ts = None, es_flags = 0,
     es_sample_count = 0, es_trigger_count = 0, es_trigger_reason = 0\<rparr>"

abbreviation es_time :: "u8 \<Rightarrow> tref" where "es_time oid \<equiv> ObjTimer oid TMain"

definition upd_endstop :: "u8 \<Rightarrow> (endstop \<Rightarrow> endstop) \<Rightarrow> ('a endstop_state_scheme, unit) prog" where
  "upd_endstop oid f = upd (\<lambda>s. s\<lparr>endstops := (endstops s)(oid := f (endstops s oid))\<rparr>)"

text \<open>Whether a reading differs from the level that is waited for.\<close>

definition no_match :: "endstop \<Rightarrow> u8 \<Rightarrow> bool" where
  "no_match e val \<longleftrightarrow> (if val \<noteq> 0 then NOT (es_flags e) else es_flags e) AND ESF_PIN_HIGH \<noteq> 0"

definition endstop_oversample_event :: "u8 \<Rightarrow> ('a endstop_state_scheme, sf) prog" where
  "endstop_oversample_event oid =
     bnd (gets (\<lambda>s. es_pin (endstops s oid))) (\<lambda>pin.
     bnd (gpio_in_read pin) (\<lambda>val.
     bnd (gets (\<lambda>s. endstops s oid)) (\<lambda>e.
     if no_match e val then
       sq (set_func (es_time oid) Fn_endstop_event)
      (sq (set_waketime (es_time oid) (es_nextwake e))
      (sq (upd_endstop oid (es_trigger_count_update (\<lambda>_. es_sample_count e)))
          (ret SF_RESCHEDULE)))
     else
       (let count = es_trigger_count e - 1 in
        if count = 0 then
          bnd (deref (es_ts e)) (\<lambda>ts.
          sq (trsync_do_trigger call_signal ts (es_trigger_reason e))
             (ret SF_DONE))
        else
          sq (upd_endstop oid (es_trigger_count_update (\<lambda>_. count)))
         (bnd (gets (\<lambda>s. wake s (es_time oid) + es_sample_time e)) (\<lambda>w.
          sq (set_waketime (es_time oid) w)
             (ret SF_RESCHEDULE)))))))"

definition endstop_event :: "u8 \<Rightarrow> ('a endstop_state_scheme, sf) prog" where
  "endstop_event oid =
     bnd (gets (\<lambda>s. es_pin (endstops s oid))) (\<lambda>pin.
     bnd (gpio_in_read pin) (\<lambda>val.
     bnd (gets (\<lambda>s. endstops s oid)) (\<lambda>e.
     bnd (gets (\<lambda>s. wake s (es_time oid) + es_rest_time e)) (\<lambda>nextwake.
     if no_match e val then
       sq (set_waketime (es_time oid) nextwake) (ret SF_RESCHEDULE)
     else
       sq (upd_endstop oid (es_nextwake_update (\<lambda>_. nextwake)))
      (sq (set_func (es_time oid) Fn_endstop_oversample_event)
          (endstop_oversample_event oid))))))"

definition command_config_endstop :: "u32 list \<Rightarrow> ('a endstop_state_scheme, unit) prog" where
  "command_config_endstop args =
     (let oid = ucast (args ! 0) in
      bnd (gets (\<lambda>s. c_sizeof (cfg s) ''endstop'')) (\<lambda>sz.
      sq (oid_alloc oid OT_endstop sz)
     (sq (upd_endstop oid (\<lambda>_. endstop_zero))
     (sq (hw_setup (GpioInSetup (args ! 1) (args ! 2)))
         (upd_endstop oid (es_pin_update (\<lambda>_. args ! 1)))))))"

definition command_endstop_home :: "u32 list \<Rightarrow> ('a endstop_state_scheme, unit) prog" where
  "command_endstop_home args =
     bnd (obj_lookup (ucast (args ! 0)) OT_endstop) (\<lambda>oid.
     sq (sched_del_timer (es_time oid))
    (sq (set_waketime (es_time oid) (args ! 1))
    (sq (upd_endstop oid (\<lambda>e. e\<lparr>es_sample_time := args ! 2, es_sample_count := ucast (args ! 3)\<rparr>))
        (if (ucast (args ! 3) :: u8) = 0 then
           upd_endstop oid (\<lambda>e. e\<lparr>es_ts := None, es_flags := 0\<rparr>)
         else
           sq (upd_endstop oid (es_rest_time_update (\<lambda>_. args ! 4)))
          (sq (set_func (es_time oid) Fn_endstop_event)
          (sq (upd_endstop oid (\<lambda>e. e\<lparr>es_trigger_count := es_sample_count e,
                 es_flags := ESF_HOMING OR (if args ! 5 \<noteq> 0 then ESF_PIN_HIGH else 0)\<rparr>))
          (bnd (trsync_oid_lookup (ucast (args ! 6))) (\<lambda>ts.
           sq (upd_endstop oid (\<lambda>e. e\<lparr>es_ts := ts, es_trigger_reason := ucast (args ! 7)\<rparr>))
              (sched_add_timer (es_time oid))))))))))"

definition command_endstop_query_state :: "u32 list \<Rightarrow> ('a endstop_state_scheme, unit) prog" where
  "command_endstop_query_state args =
     bnd (obj_lookup (ucast (args ! 0)) OT_endstop) (\<lambda>oid.
     bnd (gets (\<lambda>s. endstops s oid)) (\<lambda>e.
     bnd (gpio_in_read (es_pin e)) (\<lambda>v.
     sendf ''endstop_state oid=%c homing=%c next_clock=%u pin_value=%c''
       [VInt (ucast oid), VInt (of_bool (es_flags e AND ESF_HOMING \<noteq> 0)), VInt (es_nextwake e), VInt (ucast v)])))"

text \<open>The state at power-on.\<close>

definition endstop_init :: "config \<Rightarrow> (hwreq \<Rightarrow> nat \<Rightarrow> u32) \<Rightarrow> 'a \<Rightarrow> 'a endstop_state_scheme" where
  "endstop_init c e m = stepper_init c e (endstop_state_ext (\<lambda>_. endstop_zero) m)"

end
