(* ===== verification/Gpiocmds.thy ===== *)
theory Gpiocmds
  imports Endstop
begin

text \<open>
  Digital output pins, \<^verbatim>\<open>src/gpiocmds.c\<close>: scheduled updates, software PWM and the
  \<^verbatim>\<open>max_duration\<close> safety limit on the time a pin may stay away from its default.
\<close>

section \<open>Definitions\<close>

text \<open>The timer is \<open>ObjTimer oid TMain\<close>.\<close>

record digital_out_s =
  do_on_duration :: u32
  do_off_duration :: u32
  do_end_time :: u32
  do_pin :: u32
  do_max_duration :: u32
  do_cycle_time :: u32
  do_mq :: move_queue_head
  do_flags :: u8

record digital_move =
  dm_waketime :: u32
  dm_on_duration :: u32

record gpio_state = endstop_state +
  digital_outs :: "u8 \<Rightarrow> digital_out_s"
  digital_moves :: "nat \<Rightarrow> digital_move"

abbreviation DF_ON :: u8 where "DF_ON \<equiv> 1"
abbreviation DF_TOGGLING :: u8 where "DF_TOGGLING \<equiv> 2"
abbreviation DF_CHECK_END :: u8 where "DF_CHECK_END \<equiv> 4"
abbreviation DF_DEFAULT_ON :: u8 where "DF_DEFAULT_ON \<equiv> 16"

definition digital_out_zero :: digital_out_s where
  "digital_out_zero = \<lparr>do_on_duration = 0, do_off_duration = 0, do_end_time = 0, do_pin = 0, do_max_duration = 0,
     do_cycle_time = 0, do_mq = mq_null, do_flags = 0\<rparr>"

abbreviation do_timer :: "u8 \<Rightarrow> tref" where "do_timer oid \<equiv> ObjTimer oid TMain"

definition upd_digital :: "u8 \<Rightarrow> (digital_out_s \<Rightarrow> digital_out_s) \<Rightarrow> ('a gpio_state_scheme, unit) prog" where
  "upd_digital oid f = upd (\<lambda>s. s\<lparr>digital_outs := (digital_outs s)(oid := f (digital_outs s oid))\<rparr>)"

definition digital_toggle_event :: "u8 \<Rightarrow> ('a gpio_state_scheme, sf) prog" where
  "digital_toggle_event oid =
     bnd (gets (\<lambda>s. do_pin (digital_outs s oid))) (\<lambda>pin.
     sq (gpio_out_toggle_noirq pin)
    (sq (upd_digital oid (\<lambda>d. d\<lparr>do_flags := do_flags d XOR DF_ON\<rparr>))
    (bnd (gets (\<lambda>s. digital_outs s oid)) (\<lambda>d.
     bnd (gets (\<lambda>s. wake s (do_timer oid))) (\<lambda>w.
     let waketime = (if do_flags d AND DF_ON \<noteq> 0 then w + do_on_duration d else w + do_off_duration d) in
     if do_flags d AND DF_CHECK_END \<noteq> 0 \<and> \<not> timer_is_before waketime (do_end_time d) then
       sq (set_func (do_timer oid) Fn_digital_load_event)
      (sq (set_waketime (do_timer oid) (do_end_time d))
          (ret SF_RESCHEDULE))
     else
       sq (set_waketime (do_timer oid) waketime)
          (ret SF_RESCHEDULE))))))"

text \<open>
  The flags and end time of a new setting, before the next queued one is considered.
\<close>

definition digital_limit :: "digital_out_s \<Rightarrow> u32 \<Rightarrow> u32 \<Rightarrow> u8 \<times> u32" where
  "digital_limit d waketime on_duration =
     (let flags = (if on_duration \<noteq> 0 then DF_ON else 0) in
      if flags = 0 \<or> on_duration \<ge> do_cycle_time d then
        (if (flags = 0) \<noteq> (do_flags d AND DF_DEFAULT_ON = 0) \<and> do_max_duration d \<noteq> 0
         then (flags OR DF_CHECK_END, waketime + do_max_duration d)
         else (flags, 0))
      else if do_max_duration d \<noteq> 0
        then (flags OR DF_TOGGLING OR DF_CHECK_END, waketime + do_max_duration d)
        else (flags OR DF_TOGGLING, 0))"

text \<open>
  The end of \<^verbatim>\<open>digital_load_event\<close>: schedule the next event.
\<close>

definition digital_schedule :: "u8 \<Rightarrow> u8 \<Rightarrow> u32 \<Rightarrow> u32 \<Rightarrow> ('a gpio_state_scheme, sf) prog" where
  "digital_schedule oid flags end_time on_duration =
     (if flags AND DF_TOGGLING = 0 then
        (if flags AND DF_CHECK_END = 0 then ret SF_DONE
         else sq (set_waketime (do_timer oid) end_time) (ret SF_RESCHEDULE))
      else
        bnd (gets (\<lambda>s. wake s (do_timer oid) + on_duration)) (\<lambda>waketime.
        if flags AND DF_CHECK_END \<noteq> 0 \<and> \<not> timer_is_before waketime end_time then
          sq (set_waketime (do_timer oid) end_time) (ret SF_RESCHEDULE)
        else
          sq (set_func (do_timer oid) Fn_digital_toggle_event)
         (sq (set_waketime (do_timer oid) waketime)
         (sq (upd_digital oid (\<lambda>d. d\<lparr>do_on_duration := on_duration, do_off_duration := do_cycle_time d - on_duration\<rparr>))
             (ret SF_RESCHEDULE)))))"

definition digital_load_event :: "u8 \<Rightarrow> ('a gpio_state_scheme, sf) prog" where
  "digital_load_event oid =
     bnd (gets (\<lambda>s. do_mq (digital_outs s oid))) (\<lambda>mq.
     if move_queue_empty mq then shutdown ''Missed scheduling of next digital out event''
     else
       bnd (move_queue_pop mq) (\<lambda>(mn, mq').
       sq (upd_digital oid (do_mq_update (\<lambda>_. mq')))
      (bnd (gets (\<lambda>s. dm_on_duration (digital_moves s mn))) (\<lambda>on_duration.
       bnd (gets (\<lambda>s. do_pin (digital_outs s oid))) (\<lambda>pin.
       sq (gpio_out_write pin (if on_duration \<noteq> 0 then DF_ON else 0))
      (sq (move_free mn)
      (bnd (gets (\<lambda>s. digital_limit (digital_outs s oid) (wake s (do_timer oid)) on_duration)) (\<lambda>(flags, end_time).
       bnd (if move_queue_empty mq' then ret (flags, end_time)
            else
              bnd (deref (move_queue_first mq')) (\<lambda>nn.
              bnd (gets (\<lambda>s. dm_waketime (digital_moves s nn))) (\<lambda>wk.
              if flags AND DF_CHECK_END \<noteq> 0 \<and> timer_is_before end_time wk
              then shutdown ''Scheduled digital out event will exceed max_duration''
              else ret (flags OR DF_CHECK_END, wk)))) (\<lambda>(flags, end_time).
       sq (upd_digital oid (\<lambda>d. d\<lparr>do_end_time := end_time, do_flags := flags OR (do_flags d AND DF_DEFAULT_ON)\<rparr>))
          (digital_schedule oid flags end_time on_duration))))))))))"

definition command_config_digital_out :: "u32 list \<Rightarrow> ('a gpio_state_scheme, unit) prog" where
  "command_config_digital_out args =
     (let oid = ucast (args ! 0) in
      bnd (gets cfg) (\<lambda>c.
      sq (hw_setup (GpioOutSetup (args ! 1) (of_bool (args ! 2 \<noteq> 0))))
     (sq (oid_alloc oid OT_digital_out (c_sizeof c ''digital_out_s''))
     (sq (upd_digital oid (\<lambda>_. digital_out_zero\<lparr>do_pin := args ! 1,
            do_flags := (if args ! 2 \<noteq> 0 then DF_ON else 0) OR (if args ! 3 \<noteq> 0 then DF_DEFAULT_ON else 0),
            do_max_duration := args ! 4\<rparr>))
     (bnd (move_queue_setup (c_sizeof c ''digital_move'')) (\<lambda>mq.
      upd_digital oid (do_mq_update (\<lambda>_. mq))))))))"

definition command_set_digital_out_pwm_cycle :: "u32 list \<Rightarrow> ('a gpio_state_scheme, unit) prog" where
  "command_set_digital_out_pwm_cycle args =
     bnd (obj_lookup (ucast (args ! 0)) OT_digital_out) (\<lambda>oid.
     bnd (gets (\<lambda>s. move_queue_empty (do_mq (digital_outs s oid)))) (\<lambda>empty.
     if \<not> empty then shutdown ''Can not set soft pwm cycle ticks while updates pending''
     else upd_digital oid (do_cycle_time_update (\<lambda>_. args ! 1))))"

definition command_queue_digital_out :: "u32 list \<Rightarrow> ('a gpio_state_scheme, unit) prog" where
  "command_queue_digital_out args =
     bnd (obj_lookup (ucast (args ! 0)) OT_digital_out) (\<lambda>oid.
     bnd move_alloc (\<lambda>mn.
     let time = args ! 1 in
     sq (upd (\<lambda>s. s\<lparr>digital_moves := (digital_moves s)(mn := \<lparr>dm_waketime = time, dm_on_duration = args ! 2\<rparr>)\<rparr>))
    (bnd (gets (\<lambda>s. do_mq (digital_outs s oid))) (\<lambda>mq.
     bnd (move_queue_push mn mq) (\<lambda>(first_on_queue, mq').
     sq (upd_digital oid (do_mq_update (\<lambda>_. mq')))
    (if \<not> first_on_queue then ret ()
     else
       bnd (gets (\<lambda>s. do_flags (digital_outs s oid))) (\<lambda>flags.
       bnd (gets (\<lambda>s. do_end_time (digital_outs s oid))) (\<lambda>end_time.
       if flags AND DF_CHECK_END \<noteq> 0 \<and> timer_is_before end_time time
       then shutdown ''Scheduled digital out event will exceed max_duration''
       else
         sq (upd_digital oid (\<lambda>d. d\<lparr>do_end_time := time, do_flags := flags OR DF_CHECK_END\<rparr>))
        (bnd (gets (\<lambda>s. wake s (do_timer oid))) (\<lambda>w.
         if flags AND DF_TOGGLING \<noteq> 0 \<and> timer_is_before w time then ret ()
         else
           sq (sched_del_timer (do_timer oid))
          (sq (set_waketime (do_timer oid) time)
          (sq (set_func (do_timer oid) Fn_digital_load_event)
              (sched_add_timer (do_timer oid))))))))))))))"

definition command_update_digital_out :: "u32 list \<Rightarrow> ('a gpio_state_scheme, unit) prog" where
  "command_update_digital_out args =
     bnd (obj_lookup (ucast (args ! 0)) OT_digital_out) (\<lambda>oid.
     sq (sched_del_timer (do_timer oid))
    (bnd (gets (\<lambda>s. digital_outs s oid)) (\<lambda>d.
     if \<not> move_queue_empty (do_mq d) then shutdown ''update_digital_out not valid with active queue''
     else
       (let value = ucast (args ! 1) :: u8; flags = do_flags d; on_flag = (if value \<noteq> 0 then DF_ON else 0) in
        sq (gpio_out_write (do_pin d) on_flag)
       (if (on_flag = 0) \<noteq> (flags AND DF_DEFAULT_ON = 0) \<and> do_max_duration d \<noteq> 0 then
          bnd timer_read_time (\<lambda>now.
          sq (upd_digital oid (do_end_time_update (\<lambda>_. now + do_max_duration d)))
         (sq (set_waketime (do_timer oid) (now + do_max_duration d))
         (sq (set_func (do_timer oid) Fn_digital_load_event)
         (sq (upd_digital oid (do_flags_update (\<lambda>_. (flags AND DF_DEFAULT_ON) OR on_flag OR DF_CHECK_END)))
             (sched_add_timer (do_timer oid))))))
        else upd_digital oid (do_flags_update (\<lambda>_. (flags AND DF_DEFAULT_ON) OR on_flag)))))))"

definition digital_out_shutdown :: "('a gpio_state_scheme, unit) prog" where
  "digital_out_shutdown =
     foreach_oid OT_digital_out (\<lambda>oid.
       bnd (gets (\<lambda>s. digital_outs s oid)) (\<lambda>d.
       sq (gpio_out_write (do_pin d) (do_flags d AND DF_DEFAULT_ON))
          (upd_digital oid (\<lambda>d. d\<lparr>do_flags := (if do_flags d AND DF_DEFAULT_ON \<noteq> 0 then DF_ON OR DF_DEFAULT_ON else 0),
             do_mq := move_queue_clear (do_mq d)\<rparr>))))"

definition command_set_digital_out :: "u32 list \<Rightarrow> ('a gpio_state_scheme, unit) prog" where
  "command_set_digital_out args = hw_setup (GpioOutSetup (args ! 0) (ucast (args ! 1)))"

text \<open>The state at power-on.\<close>

definition gpio_init :: "config \<Rightarrow> (hwreq \<Rightarrow> nat \<Rightarrow> u32) \<Rightarrow> 'a \<Rightarrow> 'a gpio_state_scheme" where
  "gpio_init c e m = endstop_init c e (gpio_state_ext (\<lambda>_. digital_out_zero) (\<lambda>_. \<lparr>dm_waketime = 0, dm_on_duration = 0\<rparr>) m)"

end
