(* ===== verification/Pwmcmds.thy ===== *)
theory Pwmcmds
  imports Gpiocmds
begin

text \<open>
  Hardware PWM pins, \<^verbatim>\<open>src/pwmcmds.c\<close>: scheduled duty cycles with the same
  \<^verbatim>\<open>max_duration\<close> limit as digital outputs.
\<close>

section \<open>Definitions\<close>

text \<open>The timer is \<open>ObjTimer oid TMain\<close>.\<close>

record pwm_out_s =
  po_pin :: u32
  po_max_duration :: u32
  po_default_value :: u16
  po_mq :: move_queue_head

record pwm_move =
  pm_waketime :: u32
  pm_value :: u16

record pwm_state = gpio_state +
  pwm_outs :: "u8 \<Rightarrow> pwm_out_s"
  pwm_moves :: "nat \<Rightarrow> pwm_move"

definition pwm_out_zero :: pwm_out_s where
  "pwm_out_zero = \<lparr>po_pin = 0, po_max_duration = 0, po_default_value = 0, po_mq = mq_null\<rparr>"

abbreviation po_timer :: "u8 \<Rightarrow> tref" where "po_timer oid \<equiv> ObjTimer oid TMain"

definition upd_pwm :: "u8 \<Rightarrow> (pwm_out_s \<Rightarrow> pwm_out_s) \<Rightarrow> ('a pwm_state_scheme, unit) prog" where
  "upd_pwm oid f = upd (\<lambda>s. s\<lparr>pwm_outs := (pwm_outs s)(oid := f (pwm_outs s oid))\<rparr>)"

definition pwm_end_event :: "u8 \<Rightarrow> ('a pwm_state_scheme, sf) prog" where
  "pwm_end_event oid = shutdown ''Missed scheduling of next hard pwm event''"

definition pwm_event :: "u8 \<Rightarrow> ('a pwm_state_scheme, sf) prog" where
  "pwm_event oid =
     bnd (gets (\<lambda>s. po_mq (pwm_outs s oid))) (\<lambda>mq.
     bnd (move_queue_pop mq) (\<lambda>(mn, mq').
     sq (upd_pwm oid (po_mq_update (\<lambda>_. mq')))
    (bnd (gets (\<lambda>s. pm_value (pwm_moves s mn))) (\<lambda>value.
     bnd (gets (\<lambda>s. pwm_outs s oid)) (\<lambda>p.
     sq (emit (GpioPwmWrite (po_pin p) (ucast value)))
    (sq (move_free mn)
    (bnd (gets (\<lambda>s. wake s (po_timer oid))) (\<lambda>w.
     if move_queue_empty mq' then
       (if value = po_default_value p \<or> po_max_duration p = 0 then ret SF_DONE
        else
          sq (set_waketime (po_timer oid) (w + po_max_duration p))
         (sq (set_func (po_timer oid) Fn_pwm_end_event)
             (ret SF_RESCHEDULE)))
     else
       bnd (deref (move_queue_first mq')) (\<lambda>nn.
       bnd (gets (\<lambda>s. pm_waketime (pwm_moves s nn))) (\<lambda>wk.
       if value \<noteq> po_default_value p \<and> po_max_duration p \<noteq> 0 \<and> timer_is_before (w + po_max_duration p) wk
       then shutdown ''Scheduled pwm event will exceed max_duration''
       else sq (set_waketime (po_timer oid) wk) (ret SF_RESCHEDULE)))))))))))"

definition command_config_pwm_out :: "u32 list \<Rightarrow> ('a pwm_state_scheme, unit) prog" where
  "command_config_pwm_out args =
     (let oid = ucast (args ! 0) in
      bnd (gets cfg) (\<lambda>c.
      sq (hw_setup (GpioPwmSetup (args ! 1) (args ! 2) (args ! 3)))
     (sq (oid_alloc oid OT_pwm_out (c_sizeof c ''pwm_out_s''))
     (sq (upd_pwm oid (\<lambda>_. pwm_out_zero\<lparr>po_pin := args ! 1, po_default_value := ucast (args ! 4),
            po_max_duration := args ! 5\<rparr>))
     (sq (set_func (po_timer oid) Fn_pwm_event)
     (bnd (move_queue_setup (c_sizeof c ''pwm_move'')) (\<lambda>mq.
      upd_pwm oid (po_mq_update (\<lambda>_. mq)))))))))"

definition command_queue_pwm_out :: "u32 list \<Rightarrow> ('a pwm_state_scheme, unit) prog" where
  "command_queue_pwm_out args =
     bnd (obj_lookup (ucast (args ! 0)) OT_pwm_out) (\<lambda>oid.
     bnd move_alloc (\<lambda>mn.
     sq (upd (\<lambda>s. s\<lparr>pwm_moves := (pwm_moves s)(mn := \<lparr>pm_waketime = args ! 1, pm_value = ucast (args ! 2)\<rparr>)\<rparr>))
    (bnd (gets (\<lambda>s. po_mq (pwm_outs s oid))) (\<lambda>mq.
     bnd (move_queue_push mn mq) (\<lambda>(need_add_timer, mq').
     sq (upd_pwm oid (po_mq_update (\<lambda>_. mq')))
    (whenp need_add_timer
       (sq (sched_del_timer (po_timer oid))
       (bnd (gets (\<lambda>s. tm s (po_timer oid))) (\<lambda>t.
        if t_func t = Fn_pwm_end_event \<and> timer_is_before (t_waketime t) (args ! 1)
        then shutdown ''Scheduled pwm event will exceed max_duration''
        else
          sq (set_func (po_timer oid) Fn_pwm_event)
         (sq (set_waketime (po_timer oid) (args ! 1))
             (sched_add_timer (po_timer oid))))))))))))"

definition pwm_shutdown :: "('a pwm_state_scheme, unit) prog" where
  "pwm_shutdown =
     foreach_oid OT_pwm_out (\<lambda>oid.
       bnd (gets (\<lambda>s. pwm_outs s oid)) (\<lambda>p.
       sq (emit (GpioPwmWrite (po_pin p) (ucast (po_default_value p))))
      (sq (set_func (po_timer oid) Fn_pwm_event)
          (upd_pwm oid (\<lambda>p. p\<lparr>po_mq := move_queue_clear (po_mq p)\<rparr>)))))"

definition command_set_pwm_out :: "u32 list \<Rightarrow> ('a pwm_state_scheme, unit) prog" where
  "command_set_pwm_out args = hw_setup (GpioPwmSetup (args ! 0) (args ! 1) (args ! 2))"

text \<open>The state at power-on.\<close>

definition pwm_init :: "config \<Rightarrow> (hwreq \<Rightarrow> nat \<Rightarrow> u32) \<Rightarrow> 'a \<Rightarrow> 'a pwm_state_scheme" where
  "pwm_init c e m = gpio_init c e (pwm_state_ext (\<lambda>_. pwm_out_zero) (\<lambda>_. \<lparr>pm_waketime = 0, pm_value = 0\<rparr>) m)"

end
