(* ===== verification/Adccmds.thy ===== *)
theory Adccmds
  imports Pwmcmds
begin

text \<open>
  Analog inputs, \<^verbatim>\<open>src/adccmds.c\<close>: periodic sums of samples with a range check that stops
  the machine.
\<close>

section \<open>Definitions\<close>

text \<open>The timer is \<open>ObjTimer oid TMain\<close>.\<close>

record analog_in =
  ai_rest_time :: u32
  ai_sample_time :: u32
  ai_next_begin_time :: u32
  ai_value :: u16
  ai_min_value :: u16
  ai_max_value :: u16
  ai_pin :: u32
  ai_invalid_count :: u8
  ai_range_check_count :: u8
  ai_state :: u8
  ai_sample_count :: u8

record adc_state = pwm_state +
  analog_ins :: "u8 \<Rightarrow> analog_in"

definition analog_in_zero :: analog_in where
  "analog_in_zero = \<lparr>ai_rest_time = 0, ai_sample_time = 0, ai_next_begin_time = 0, ai_value = 0, ai_min_value = 0,
     ai_max_value = 0, ai_pin = 0, ai_invalid_count = 0, ai_range_check_count = 0, ai_state = 0, ai_sample_count = 0\<rparr>"

abbreviation ai_timer :: "u8 \<Rightarrow> tref" where "ai_timer oid \<equiv> ObjTimer oid TMain"

definition upd_analog :: "u8 \<Rightarrow> (analog_in \<Rightarrow> analog_in) \<Rightarrow> ('a adc_state_scheme, unit) prog" where
  "upd_analog oid f = upd (\<lambda>s. s\<lparr>analog_ins := (analog_ins s)(oid := f (analog_ins s oid))\<rparr>)"

text \<open>\<open>add_waketime\<close> moves a timer's waketime by some ticks.\<close>

definition add_waketime :: "tref \<Rightarrow> u32 \<Rightarrow> ('a sched_scheme, unit) prog" where
  "add_waketime t d = bnd (gets (\<lambda>s. wake s t + d)) (set_waketime t)"

definition check_range :: "u8 \<Rightarrow> ('a adc_state_scheme, unit) prog" where
  "check_range oid =
     bnd (gets (\<lambda>s. analog_ins s oid)) (\<lambda>a.
     if ai_value a \<ge> ai_min_value a \<and> ai_value a \<le> ai_max_value a then
       upd_analog oid (ai_invalid_count_update (\<lambda>_. 0))
     else
       sq (upd_analog oid (ai_invalid_count_update (\<lambda>n. n + 1)))
      (whenp (ai_invalid_count a + 1 \<ge> ai_range_check_count a)
         (sq (sched_try_shutdown ''ADC out of range'')
             (upd_analog oid (ai_invalid_count_update (\<lambda>_. 0))))))"

definition analog_in_event :: "u8 \<Rightarrow> ('a adc_state_scheme, sf) prog" where
  "analog_in_event oid =
     bnd (gets (\<lambda>s. ai_pin (analog_ins s oid))) (\<lambda>pin.
     bnd (hw_read (AdcSample pin)) (\<lambda>sample_delay.
     if sample_delay \<noteq> 0 then
       sq (add_waketime (ai_timer oid) sample_delay) (ret SF_RESCHEDULE)
     else
       bnd (hw_read (AdcRead pin)) (\<lambda>v.
       sq (upd_analog oid (\<lambda>a.
             if ai_state a \<ge> ai_sample_count a then a\<lparr>ai_value := ucast v, ai_state := 1\<rparr>
             else a\<lparr>ai_value := ucast v + ai_value a, ai_state := ai_state a + 1\<rparr>))
      (bnd (gets (\<lambda>s. analog_ins s oid)) (\<lambda>a.
       if ai_state a < ai_sample_count a then
         sq (add_waketime (ai_timer oid) (ai_sample_time a)) (ret SF_RESCHEDULE)
       else
         sq (check_range oid)
        (sq (sched_wake_task analog_wake)
        (sq (upd_analog oid (\<lambda>a. a\<lparr>ai_next_begin_time := ai_next_begin_time a + ai_rest_time a\<rparr>))
        (bnd (gets (\<lambda>s. ai_next_begin_time (analog_ins s oid))) (\<lambda>w.
         sq (set_waketime (ai_timer oid) w)
            (ret SF_RESCHEDULE))))))))))"

definition command_config_analog_in :: "u32 list \<Rightarrow> ('a adc_state_scheme, unit) prog" where
  "command_config_analog_in args =
     (let oid = ucast (args ! 0) in
      bnd (gets (\<lambda>s. c_sizeof (cfg s) ''analog_in'')) (\<lambda>sz.
      sq (hw_setup (GpioAdcSetup (args ! 1)))
     (sq (oid_alloc oid OT_analog_in sz)
     (sq (set_func (ai_timer oid) Fn_analog_in_event)
         (upd_analog oid (\<lambda>_. analog_in_zero\<lparr>ai_pin := args ! 1, ai_state := 1\<rparr>))))))"

definition command_query_analog_in :: "u32 list \<Rightarrow> ('a adc_state_scheme, unit) prog" where
  "command_query_analog_in args =
     bnd (obj_lookup (ucast (args ! 0)) OT_analog_in) (\<lambda>oid.
     sq (sched_del_timer (ai_timer oid))
    (bnd (gets (\<lambda>s. ai_pin (analog_ins s oid))) (\<lambda>pin.
     sq (emit (GpioAdcCancel pin))
    (sq (set_waketime (ai_timer oid) (args ! 1))
    (sq (upd_analog oid (\<lambda>a. a\<lparr>ai_next_begin_time := args ! 1, ai_sample_time := args ! 2,
           ai_sample_count := ucast (args ! 3), ai_state := ucast (args ! 3) + 1, ai_rest_time := args ! 4,
           ai_min_value := ucast (args ! 5), ai_max_value := ucast (args ! 6), ai_range_check_count := ucast (args ! 7)\<rparr>))
    (whenp ((ucast (args ! 3) :: u8) \<noteq> 0) (sched_add_timer (ai_timer oid))))))))"

definition analog_in_task :: "('a adc_state_scheme, unit) prog" where
  "analog_in_task =
     bnd (sched_check_wake analog_wake) (\<lambda>w.
     whenp w (foreach_oid OT_analog_in (\<lambda>oid.
       bnd (gets (\<lambda>s. analog_ins s oid)) (\<lambda>a.
       whenp (ai_state a = ai_sample_count a)
         (sq (upd_analog oid (ai_state_update (\<lambda>n. n + 1)))
             (sendf ''analog_in_state oid=%c next_clock=%u value=%hu''
               [VInt (ucast oid), VInt (ai_next_begin_time a), VInt (ucast (ai_value a))]))))))"

definition analog_in_shutdown :: "('a adc_state_scheme, unit) prog" where
  "analog_in_shutdown =
     foreach_oid OT_analog_in (\<lambda>oid.
       bnd (gets (\<lambda>s. ai_pin (analog_ins s oid))) (\<lambda>pin.
       sq (emit (GpioAdcCancel pin))
      (bnd (gets (\<lambda>s. ai_sample_count (analog_ins s oid))) (\<lambda>n.
       whenp (n \<noteq> 0)
         (sq (upd_analog oid (\<lambda>a. a\<lparr>ai_state := ai_sample_count a + 1,
                ai_next_begin_time := ai_next_begin_time a + ai_rest_time a\<rparr>))
         (bnd (gets (\<lambda>s. ai_next_begin_time (analog_ins s oid))) (\<lambda>w.
          sq (set_waketime (ai_timer oid) w)
             (sched_add_timer (ai_timer oid)))))))))"

text \<open>The state at power-on.\<close>

definition adc_init :: "config \<Rightarrow> (hwreq \<Rightarrow> nat \<Rightarrow> u32) \<Rightarrow> 'a \<Rightarrow> 'a adc_state_scheme" where
  "adc_init c e m = pwm_init c e (adc_state_ext (\<lambda>_. analog_in_zero) m)"

end
