(* ===== verification/Buttons.thy ===== *)
theory Buttons
  imports Adccmds
begin

text \<open>
  Buttons, \<^verbatim>\<open>src/buttons.c\<close>: up to eight pins are polled and debounced; changes are
  reported and retransmitted until the host acknowledges them.
\<close>

section \<open>Definitions\<close>

text \<open>
  The timer is \<open>ObjTimer oid TMain\<close>.  A pin that has not been added yet is a zeroed handle;
  reading it has no result.
\<close>

record buttons =
  bt_rest_ticks :: u32
  bt_pressed :: u8
  bt_last_pressed :: u8
  bt_report_count :: u8
  bt_reports :: "u8 list"
  bt_ack_count :: u8
  bt_retransmit_state :: u8
  bt_retransmit_count :: u8
  bt_button_count :: u8
  bt_pins :: "u32 option list"

record buttons_state = adc_state +
  buttonss :: "u8 \<Rightarrow> buttons"

abbreviation BF_NO_RETRANSMIT :: u8 where "BF_NO_RETRANSMIT \<equiv> 0x80"
abbreviation BF_PENDING :: u8 where "BF_PENDING \<equiv> 0xff"
abbreviation BF_ACKED :: u8 where "BF_ACKED \<equiv> 0xfe"

definition buttons_zero :: buttons where
  "buttons_zero = \<lparr>bt_rest_ticks = 0, bt_pressed = 0, bt_last_pressed = 0, bt_report_count = 0,
     bt_reports = replicate 8 0, bt_ack_count = 0, bt_retransmit_state = 0, bt_retransmit_count = 0,
     bt_button_count = 0, bt_pins = []\<rparr>"

abbreviation bt_time :: "u8 \<Rightarrow> tref" where "bt_time oid \<equiv> ObjTimer oid TMain"

definition upd_buttons :: "u8 \<Rightarrow> (buttons \<Rightarrow> buttons) \<Rightarrow> ('a buttons_state_scheme, unit) prog" where
  "upd_buttons oid f = upd (\<lambda>s. s\<lparr>buttonss := (buttonss s)(oid := f (buttonss s oid))\<rparr>)"

primrec read_pins :: "u32 option list \<Rightarrow> u8 \<Rightarrow> u8 \<Rightarrow> ('a buttons_state_scheme, u8) prog" where
  "read_pins [] bt status = ret status"
| "read_pins (p # ps) bt status =
     bnd (deref p) (\<lambda>pin.
     bnd (gpio_in_read pin) (\<lambda>val.
     read_pins ps (push_bit 1 bt) (if val \<noteq> 0 then status OR bt else status)))"

text \<open>The debounced new state of the buttons, if it changed.\<close>

definition debounce :: "buttons \<Rightarrow> u8 \<Rightarrow> u8 option" where
  "debounce b status =
     (let diff = status XOR bt_pressed b; debounced = NOT (status XOR bt_last_pressed b) in
      if diff \<noteq> 0 \<and> diff AND debounced \<noteq> 0
      then Some ((bt_pressed b AND NOT debounced) OR (status AND debounced)) else None)"

definition buttons_event :: "u8 \<Rightarrow> ('a buttons_state_scheme, sf) prog" where
  "buttons_event oid =
     bnd (gets (\<lambda>s. take (unat (bt_button_count (buttonss s oid))) (bt_pins (buttonss s oid)))) (\<lambda>pins.
     bnd (read_pins pins 1 0) (\<lambda>status.
     bnd (gets (\<lambda>s. buttonss s oid)) (\<lambda>b.
     sq (case debounce b status of
           None \<Rightarrow> ret ()
         | Some pressed \<Rightarrow>
             sq (upd_buttons oid (bt_pressed_update (\<lambda>_. pressed)))
            (whenp (bt_report_count b < 8)
               (sq (upd_buttons oid (\<lambda>b. b\<lparr>bt_reports := (bt_reports b)[unat (bt_report_count b) := pressed],
                      bt_report_count := bt_report_count b + 1\<rparr>))
               (sq (sched_wake_task buttons_wake)
                   (upd_buttons oid (bt_retransmit_state_update (\<lambda>_. BF_PENDING)))))))
    (sq (upd_buttons oid (bt_last_pressed_update (\<lambda>_. status)))
    (bnd (gets (\<lambda>s. bt_retransmit_state (buttonss s oid))) (\<lambda>rs.
     sq (whenp (rs AND BF_NO_RETRANSMIT = 0)
           (sq (whenp ((rs - 1) AND BF_NO_RETRANSMIT \<noteq> 0) (sched_wake_task buttons_wake))
               (upd_buttons oid (bt_retransmit_state_update (\<lambda>_. rs - 1)))))
    (sq (add_waketime (bt_time oid) (bt_rest_ticks b))
        (ret SF_RESCHEDULE))))))))"

definition command_config_buttons :: "u32 list \<Rightarrow> ('a buttons_state_scheme, unit) prog" where
  "command_config_buttons args =
     (let oid = ucast (args ! 0); button_count = ucast (args ! 1) :: u8 in
      if button_count > 8 then shutdown ''Max of 8 buttons''
      else
        bnd (gets cfg) (\<lambda>c.
        sq (oid_alloc oid OT_buttons (c_sizeof c ''buttons'' + c_sizeof c ''gpio_in'' * unat button_count))
       (sq (upd_buttons oid (\<lambda>_. buttons_zero\<lparr>bt_button_count := button_count,
              bt_pins := replicate (unat button_count) None\<rparr>))
           (set_func (bt_time oid) Fn_buttons_event))))"

definition command_buttons_add :: "u32 list \<Rightarrow> ('a buttons_state_scheme, unit) prog" where
  "command_buttons_add args =
     bnd (obj_lookup (ucast (args ! 0)) OT_buttons) (\<lambda>oid.
     let pos = ucast (args ! 1) :: u8 in
     bnd (gets (\<lambda>s. pos \<ge> bt_button_count (buttonss s oid))) (\<lambda>past.
     if past then shutdown ''Set button past maximum button count''
     else
       sq (hw_setup (GpioInSetup (args ! 2) (args ! 3)))
          (upd_buttons oid (\<lambda>b. b\<lparr>bt_pins := (bt_pins b)[unat pos := Some (args ! 2)]\<rparr>))))"

definition command_buttons_query :: "u32 list \<Rightarrow> ('a buttons_state_scheme, unit) prog" where
  "command_buttons_query args =
     bnd (obj_lookup (ucast (args ! 0)) OT_buttons) (\<lambda>oid.
     sq (sched_del_timer (bt_time oid))
    (sq (set_waketime (bt_time oid) (args ! 1))
    (sq (upd_buttons oid (\<lambda>b. b\<lparr>bt_rest_ticks := args ! 2, bt_last_pressed := ucast (args ! 4),
           bt_pressed := ucast (args ! 4), bt_report_count := 0, bt_ack_count := 0,
           bt_retransmit_state := BF_ACKED, bt_retransmit_count := ucast (args ! 3)\<rparr>))
    (if (ucast (args ! 3) :: u8) \<ge> BF_NO_RETRANSMIT then shutdown ''Invalid buttons retransmit count''
     else if args ! 2 = 0 then ret ()
     else sched_add_timer (bt_time oid)))))"

definition command_buttons_ack :: "u32 list \<Rightarrow> ('a buttons_state_scheme, unit) prog" where
  "command_buttons_ack args =
     bnd (obj_lookup (ucast (args ! 0)) OT_buttons) (\<lambda>oid.
     let count = ucast (args ! 1) :: u8 in
     sq (upd_buttons oid (\<lambda>b. b\<lparr>bt_ack_count := bt_ack_count b + count\<rparr>))
        (upd_buttons oid (\<lambda>b.
           if count \<ge> bt_report_count b then b\<lparr>bt_report_count := 0, bt_retransmit_state := BF_ACKED\<rparr>
           else
             (let pending = unat (bt_report_count b - count) in
              b\<lparr>bt_reports := take pending (drop (unat count) (bt_reports b)) @ drop pending (bt_reports b),
                bt_report_count := bt_report_count b - count\<rparr>))))"

definition buttons_task :: "('a buttons_state_scheme, unit) prog" where
  "buttons_task =
     bnd (sched_check_wake buttons_wake) (\<lambda>w.
     whenp w (foreach_oid OT_buttons (\<lambda>oid.
       bnd (gets (\<lambda>s. buttonss s oid)) (\<lambda>b.
       whenp (bt_retransmit_state b = BF_PENDING \<and> bt_report_count b \<noteq> 0)
         (sq (upd_buttons oid (\<lambda>b. b\<lparr>bt_retransmit_state := bt_retransmit_count b\<rparr>))
             (sendf ''buttons_state oid=%c ack_count=%c state=%*s''
               [VInt (ucast oid), VInt (ucast (bt_ack_count b)), VInt (ucast (bt_report_count b)),
                VPtr (take (unat (bt_report_count b)) (bt_reports b))]))))))"

text \<open>The state at power-on.\<close>

definition buttons_init :: "config \<Rightarrow> (hwreq \<Rightarrow> nat \<Rightarrow> u32) \<Rightarrow> 'a \<Rightarrow> 'a buttons_state_scheme" where
  "buttons_init c e m = adc_init c e (buttons_state_ext (\<lambda>_. buttons_zero) m)"

end
