(* ===== verification/Pulse_counter.thy ===== *)
theory Pulse_counter
  imports Buttons
begin

text \<open>
  Edge counters on input pins, \<^verbatim>\<open>src/pulse_counter.c\<close>.
\<close>

section \<open>Definitions\<close>

text \<open>The timer is \<open>ObjTimer oid TMain\<close>.\<close>

record counter =
  ct_poll_ticks :: u32
  ct_sample_ticks :: u32
  ct_next_sample_time :: u32
  ct_count :: u32
  ct_last_count_time :: u32
  ct_flags :: u8
  ct_pin :: u32

record counter_state = buttons_state +
  counters :: "u8 \<Rightarrow> counter"

abbreviation CF_PENDING :: u8 where "CF_PENDING \<equiv> 1"

definition counter_zero :: counter where
  "counter_zero = \<lparr>ct_poll_ticks = 0, ct_sample_ticks = 0, ct_next_sample_time = 0, ct_count = 0,
     ct_last_count_time = 0, ct_flags = 0, ct_pin = 0\<rparr>"

abbreviation ct_timer :: "u8 \<Rightarrow> tref" where "ct_timer oid \<equiv> ObjTimer oid TMain"

definition upd_counter :: "u8 \<Rightarrow> (counter \<Rightarrow> counter) \<Rightarrow> ('a counter_state_scheme, unit) prog" where
  "upd_counter oid f = upd (\<lambda>s. s\<lparr>counters := (counters s)(oid := f (counters s oid))\<rparr>)"

definition counter_event :: "u8 \<Rightarrow> ('a counter_state_scheme, sf) prog" where
  "counter_event oid =
     bnd (gets (\<lambda>s. wake s (ct_timer oid))) (\<lambda>time.
     bnd (gets (\<lambda>s. counters s oid)) (\<lambda>c.
     bnd (gpio_in_read (ct_pin c)) (\<lambda>value.
     sq (whenp (ucast (ct_count c AND 1) \<noteq> value)
           (upd_counter oid (\<lambda>c. c\<lparr>ct_count := ct_count c + 1, ct_last_count_time := time\<rparr>)))
    (sq (whenp (timer_is_before (ct_next_sample_time c) time)
           (sq (upd_counter oid (\<lambda>c. c\<lparr>ct_flags := ct_flags c OR CF_PENDING,
                  ct_next_sample_time := time + ct_sample_ticks c\<rparr>))
               (sched_wake_task counter_wake)))
    (sq (add_waketime (ct_timer oid) (ct_poll_ticks c))
        (ret SF_RESCHEDULE))))))"

definition command_config_counter :: "u32 list \<Rightarrow> ('a counter_state_scheme, unit) prog" where
  "command_config_counter args =
     (let oid = ucast (args ! 0) in
      bnd (gets (\<lambda>s. c_sizeof (cfg s) ''counter'')) (\<lambda>sz.
      sq (oid_alloc oid OT_counter sz)
     (sq (upd_counter oid (\<lambda>_. counter_zero))
     (sq (hw_setup (GpioInSetup (args ! 1) (args ! 2)))
     (sq (upd_counter oid (ct_pin_update (\<lambda>_. args ! 1)))
         (set_func (ct_timer oid) Fn_counter_event))))))"

definition command_query_counter :: "u32 list \<Rightarrow> ('a counter_state_scheme, unit) prog" where
  "command_query_counter args =
     bnd (obj_lookup (ucast (args ! 0)) OT_counter) (\<lambda>oid.
     sq (sched_del_timer (ct_timer oid))
    (sq (set_waketime (ct_timer oid) (args ! 1))
    (sq (upd_counter oid (\<lambda>c. c\<lparr>ct_poll_ticks := args ! 2, ct_sample_ticks := args ! 3,
           ct_next_sample_time := args ! 1\<rparr>))
        (sched_add_timer (ct_timer oid)))))"

definition counter_task :: "('a counter_state_scheme, unit) prog" where
  "counter_task =
     bnd (sched_check_wake counter_wake) (\<lambda>w.
     whenp w (foreach_oid OT_counter (\<lambda>oid.
       bnd (gets (\<lambda>s. counters s oid)) (\<lambda>c.
       whenp (ct_flags c AND CF_PENDING \<noteq> 0)
         (bnd (gets (\<lambda>s. wake s (ct_timer oid))) (\<lambda>waketime.
          sq (upd_counter oid (\<lambda>c. c\<lparr>ct_flags := ct_flags c AND NOT CF_PENDING\<rparr>))
             (sendf ''counter_state oid=%c next_clock=%u count=%u count_clock=%u''
               [VInt (ucast oid), VInt waketime, VInt (ct_count c), VInt (ct_last_count_time c)])))))))"

text \<open>The state at power-on.\<close>

definition counter_init :: "config \<Rightarrow> (hwreq \<Rightarrow> nat \<Rightarrow> u32) \<Rightarrow> 'a \<Rightarrow> 'a counter_state_scheme" where
  "counter_init c e m = buttons_init c e (counter_state_ext (\<lambda>_. counter_zero) m)"

end
