(* ===== verification/Spicmds.thy ===== *)
theory Spicmds
  imports Pulse_counter
begin

text \<open>
  SPI devices, \<^verbatim>\<open>src/spicmds.c\<close>, with the bit-banged bus of \<^verbatim>\<open>src/spi_software.c\<close>.
\<close>

section \<open>Data\<close>

record spi_software =
  ss_miso :: u32
  ss_mosi :: u32
  ss_sclk :: u32
  ss_mode :: u8

text \<open>The union in \<^verbatim>\<open>struct spidev_s\<close>; \<open>NoBus\<close> is the zeroed one.\<close>

datatype spi_bus = NoBus | HwBus spi_config | SwBus spi_software

record spidev_s =
  sp_bus :: spi_bus
  sp_pin :: u32
  sp_flags :: u8

text \<open>The device pointer of a shutdown message may be null.\<close>

record spidev_shutdown_s =
  sd_spi :: "u8 option"
  sd_shutdown_msg :: "u8 list"

record spi_state = counter_state +
  spidevs :: "u8 \<Rightarrow> spidev_s"
  spidev_shutdowns :: "u8 \<Rightarrow> spidev_shutdown_s"

abbreviation SF_HAVE_PIN :: u8 where "SF_HAVE_PIN \<equiv> 1"
abbreviation SF_SOFTWARE :: u8 where "SF_SOFTWARE \<equiv> 2"
abbreviation SF_HARDWARE :: u8 where "SF_HARDWARE \<equiv> 4"
abbreviation SF_CS_ACTIVE_HIGH :: u8 where "SF_CS_ACTIVE_HIGH \<equiv> 8"

definition spidev_zero :: spidev_s where
  "spidev_zero = \<lparr>sp_bus = NoBus, sp_pin = 0, sp_flags = 0\<rparr>"

definition upd_spi :: "u8 \<Rightarrow> (spidev_s \<Rightarrow> spidev_s) \<Rightarrow> ('a spi_state_scheme, unit) prog" where
  "upd_spi oid f = upd (\<lambda>s. s\<lparr>spidevs := (spidevs s)(oid := f (spidevs s oid))\<rparr>)"

section \<open>Configuration\<close>

definition command_config_spi :: "u32 list \<Rightarrow> ('a spi_state_scheme, unit) prog" where
  "command_config_spi args =
     (let oid = ucast (args ! 0) in
      bnd (gets cfg) (\<lambda>c.
      sq (oid_alloc oid OT_spi (c_sizeof c ''spidev_s''))
     (sq (upd_spi oid (\<lambda>_. spidev_zero))
     (let cs_active_high = uint_fast8 c (args ! 2) in
      sq (hw_setup (GpioOutSetup (args ! 1) (of_bool (cs_active_high = 0))))
         (upd_spi oid (\<lambda>d. d\<lparr>sp_pin := args ! 1,
            sp_flags := sp_flags d OR (SF_HAVE_PIN OR (if cs_active_high \<noteq> 0 then SF_CS_ACTIVE_HIGH else 0))\<rparr>))))))"

definition command_config_spi_without_cs :: "u32 list \<Rightarrow> ('a spi_state_scheme, unit) prog" where
  "command_config_spi_without_cs args =
     (let oid = ucast (args ! 0) in
      bnd (gets (\<lambda>s. c_sizeof (cfg s) ''spidev_s'')) (\<lambda>sz.
      sq (oid_alloc oid OT_spi sz)
         (upd_spi oid (\<lambda>_. spidev_zero))))"

definition spidev_oid_lookup :: "u8 \<Rightarrow> ('a spi_state_scheme, u8 option) prog" where
  "spidev_oid_lookup oid = oid_lookup oid OT_spi"

definition command_spi_set_bus :: "u32 list \<Rightarrow> ('a spi_state_scheme, unit) prog" where
  "command_spi_set_bus args =
     bnd (spidev_oid_lookup (ucast (args ! 0))) (\<lambda>p.
     bnd (deref p) (\<lambda>oid.
     let mode = ucast (args ! 2) :: u8 in
     bnd (gets (\<lambda>s. sp_flags (spidevs s oid))) (\<lambda>flags.
     if mode > 3 \<or> flags AND (SF_SOFTWARE OR SF_HARDWARE) \<noteq> 0 then shutdown ''Invalid spi config''
     else
       sq (hw_setup (SpiSetup (args ! 1, mode, args ! 3)))
          (upd_spi oid (\<lambda>d. d\<lparr>sp_bus := HwBus (args ! 1, mode, args ! 3), sp_flags := sp_flags d OR SF_HARDWARE\<rparr>)))))"

definition spidev_set_software_bus :: "u8 \<Rightarrow> spi_software \<Rightarrow> ('a spi_state_scheme, unit) prog" where
  "spidev_set_software_bus oid ss =
     bnd (gets (\<lambda>s. sp_flags (spidevs s oid))) (\<lambda>flags.
     if flags AND (SF_SOFTWARE OR SF_HARDWARE) \<noteq> 0 then shutdown ''Invalid spi config''
     else upd_spi oid (\<lambda>d. d\<lparr>sp_bus := SwBus ss, sp_flags := sp_flags d OR SF_SOFTWARE\<rparr>))"

definition spidev_have_cs_pin :: "spidev_s \<Rightarrow> bool" where
  "spidev_have_cs_pin spi \<longleftrightarrow> sp_flags spi AND SF_HAVE_PIN \<noteq> 0"

definition spidev_get_cs_pin :: "spidev_s \<Rightarrow> u32" where
  "spidev_get_cs_pin spi = sp_pin spi"

section \<open>Software bus\<close>

definition command_spi_set_software_bus :: "u32 list \<Rightarrow> ('a spi_state_scheme, unit) prog" where
  "command_spi_set_software_bus args =
     (let mode = ucast (args ! 4) :: u8 in
      if mode > 3 then shutdown ''Invalid spi config''
      else
        bnd (spidev_oid_lookup (ucast (args ! 0))) (\<lambda>p.
        bnd (gets (\<lambda>s. c_sizeof (cfg s) ''spi_software'')) (\<lambda>sz.
        sq (alloc_chunk sz)
       (sq (hw_setup (GpioInSetup (args ! 1) 1))
       (sq (hw_setup (GpioOutSetup (args ! 2) 0))
       (sq (hw_setup (GpioOutSetup (args ! 3) 0))
       (bnd (deref p) (\<lambda>oid.
        spidev_set_software_bus oid \<lparr>ss_miso = args ! 1, ss_mosi = args ! 2, ss_sclk = args ! 3, ss_mode = mode\<rparr>))))))))"

definition spi_software_prepare :: "spi_software \<Rightarrow> ('a hw_scheme, unit) prog" where
  "spi_software_prepare ss = gpio_out_write (ss_sclk ss) (ss_mode ss AND 2)"

text \<open>The inner loop over the bits of a byte: the byte received.\<close>

primrec spi_software_bits :: "spi_software \<Rightarrow> nat \<Rightarrow> u8 \<Rightarrow> u8 \<Rightarrow> ('a hw_scheme, u8) prog" where
  "spi_software_bits ss 0 outbuf inbuf = ret inbuf"
| "spi_software_bits ss (Suc n) outbuf inbuf =
     (if ss_mode ss AND 1 \<noteq> 0 then
        sq (gpio_out_toggle_noirq (ss_sclk ss))
       (sq (gpio_out_write (ss_mosi ss) (outbuf AND 0x80))
       (sq (gpio_out_toggle_noirq (ss_sclk ss))
       (bnd (gpio_in_read (ss_miso ss)) (\<lambda>v.
        spi_software_bits ss n (push_bit 1 outbuf) (push_bit 1 inbuf OR v)))))
      else
        sq (gpio_out_write (ss_mosi ss) (outbuf AND 0x80))
       (sq (gpio_out_toggle_noirq (ss_sclk ss))
       (bnd (gpio_in_read (ss_miso ss)) (\<lambda>v.
        sq (gpio_out_toggle_noirq (ss_sclk ss))
           (spi_software_bits ss n (push_bit 1 outbuf) (push_bit 1 inbuf OR v))))))"

text \<open>The data buffer after the transfer.\<close>

primrec spi_software_transfer :: "spi_software \<Rightarrow> bool \<Rightarrow> u8 list \<Rightarrow> ('a hw_scheme, u8 list) prog" where
  "spi_software_transfer ss receive_data [] = ret []"
| "spi_software_transfer ss receive_data (b # bs) =
     bnd (spi_software_bits ss 8 b 0) (\<lambda>inbuf.
     bnd (spi_software_transfer ss receive_data bs) (\<lambda>bs'.
     ret ((if receive_data then inbuf else b) # bs')))"

section \<open>Transfers\<close>

text \<open>The board's SPI driver.\<close>

definition spi_transfer :: "spi_config \<Rightarrow> bool \<Rightarrow> u8 list \<Rightarrow> ('a hw_scheme, u8 list) prog" where
  "spi_transfer config receive_data data =
     sq (emit (SpiTransfer config data))
        (if receive_data then hw_bytes (SpiIn config) (length data) else ret data)"

definition spidev_transfer :: "u8 \<Rightarrow> bool \<Rightarrow> u8 list \<Rightarrow> ('a spi_state_scheme, u8 list) prog" where
  "spidev_transfer oid receive_data data =
     bnd (gets (\<lambda>s. spidevs s oid)) (\<lambda>spi.
     bnd (gets cfg) (\<lambda>c.
     let flags = sp_flags spi; software = CONFIG_HAVE_GPIO_BITBANGING c \<and> flags AND SF_SOFTWARE \<noteq> 0 in
     if flags AND (SF_SOFTWARE OR SF_HARDWARE) = 0 then ret data
     else
       sq (case (software, sp_bus spi) of
             (True, SwBus ss) \<Rightarrow> spi_software_prepare ss
           | (False, HwBus config) \<Rightarrow> emit (SpiPrepare config)
           | _ \<Rightarrow> stuck)
      (sq (whenp (flags AND SF_HAVE_PIN \<noteq> 0) (gpio_out_write (sp_pin spi) (of_bool (flags AND SF_CS_ACTIVE_HIGH \<noteq> 0))))
      (bnd (case (software, sp_bus spi) of
              (True, SwBus ss) \<Rightarrow> spi_software_transfer ss receive_data data
            | (False, HwBus config) \<Rightarrow> spi_transfer config receive_data data
            | _ \<Rightarrow> stuck) (\<lambda>data'.
       sq (whenp (flags AND SF_HAVE_PIN \<noteq> 0) (gpio_out_write (sp_pin spi) (of_bool (flags AND SF_CS_ACTIVE_HIGH = 0))))
          (ret data'))))))"

definition command_spi_transfer :: "u32 list \<Rightarrow> ('a spi_state_scheme, unit) prog" where
  "command_spi_transfer args =
     (let oid = ucast (args ! 0) :: u8 in
      bnd (spidev_oid_lookup oid) (\<lambda>p.
      bnd (deref p) (\<lambda>spi.
      bnd (msg_bytes (args ! 2) (ucast (args ! 1))) (\<lambda>data.
      bnd (spidev_transfer spi True data) (\<lambda>data'.
      sq (msg_store (args ! 2) data')
         (sendf ''spi_transfer_response oid=%c response=%*s''
           [VInt (ucast oid), VInt (ucast (ucast (args ! 1) :: u8)), VPtr data']))))))"

definition command_spi_send :: "u32 list \<Rightarrow> ('a spi_state_scheme, unit) prog" where
  "command_spi_send args =
     bnd (spidev_oid_lookup (ucast (args ! 0))) (\<lambda>p.
     bnd (deref p) (\<lambda>spi.
     bnd (msg_bytes (args ! 2) (ucast (args ! 1))) (\<lambda>data.
     sq (spidev_transfer spi False data)
        (ret ()))))"

section \<open>Shutdown\<close>

definition command_config_spi_shutdown :: "u32 list \<Rightarrow> ('a spi_state_scheme, unit) prog" where
  "command_config_spi_shutdown args =
     bnd (spidev_oid_lookup (ucast (args ! 1))) (\<lambda>spi.
     let oid = ucast (args ! 0); shutdown_msg_len = ucast (args ! 2) :: u8 in
     bnd (gets (\<lambda>s. c_sizeof (cfg s) ''spidev_shutdown_s'')) (\<lambda>sz.
     sq (oid_alloc oid OT_spi_shutdown (sz + unat shutdown_msg_len))
    (bnd (msg_bytes (args ! 3) shutdown_msg_len) (\<lambda>msg.
     upd (\<lambda>s. s\<lparr>spidev_shutdowns := (spidev_shutdowns s)(oid := \<lparr>sd_spi = spi, sd_shutdown_msg = msg\<rparr>)\<rparr>)))))"

definition spidev_shutdown :: "('a spi_state_scheme, unit) prog" where
  "spidev_shutdown =
     sq (foreach_oid OT_spi (\<lambda>oid.
           bnd (gets (\<lambda>s. spidevs s oid)) (\<lambda>spi.
           whenp (sp_flags spi AND SF_HAVE_PIN \<noteq> 0)
             (gpio_out_write (sp_pin spi) (of_bool (sp_flags spi AND SF_CS_ACTIVE_HIGH = 0))))))
        (foreach_oid OT_spi_shutdown (\<lambda>oid.
           bnd (gets (\<lambda>s. spidev_shutdowns s oid)) (\<lambda>sd.
           bnd (deref (sd_spi sd)) (\<lambda>spi.
           sq (spidev_transfer spi False (sd_shutdown_msg sd))
              (ret ())))))"

text \<open>The state at power-on.\<close>

definition spi_init :: "config \<Rightarrow> (hwreq \<Rightarrow> nat \<Rightarrow> u32) \<Rightarrow> 'a \<Rightarrow> 'a spi_state_scheme" where
  "spi_init c e m = counter_init c e (spi_state_ext (\<lambda>_. spidev_zero) (\<lambda>_. \<lparr>sd_spi = None, sd_shutdown_msg = []\<rparr>) m)"

end
