(* ===== verification/I2ccmds.thy ===== *)
theory I2ccmds
  imports Spicmds
begin

text \<open>
  I2C devices, \<^verbatim>\<open>src/i2ccmds.c\<close>.
\<close>

section \<open>Definitions\<close>

record i2c_state = spi_state +
  i2cdevs :: "u8 \<Rightarrow> i2c_config"

text \<open>The board's I2C driver.\<close>

definition i2c_write :: "i2c_config \<Rightarrow> u8 list \<Rightarrow> ('a hw_scheme, unit) prog" where
  "i2c_write config data = emit (I2cWrite config data)"

definition i2c_read :: "i2c_config \<Rightarrow> u8 list \<Rightarrow> nat \<Rightarrow> ('a hw_scheme, u8 list) prog" where
  "i2c_read config reg n = sq (emit (I2cRead config reg n)) (hw_bytes (I2cIn config) n)"

definition command_config_i2c :: "u32 list \<Rightarrow> ('a i2c_state_scheme, unit) prog" where
  "command_config_i2c args =
     (let oid = ucast (args ! 0); addr = ucast (args ! 3 AND 0x7f) :: u8; config = (args ! 1, args ! 2, addr) in
      bnd (gets (\<lambda>s. c_sizeof (cfg s) ''i2cdev_s'')) (\<lambda>sz.
      sq (oid_alloc oid OT_i2c sz)
     (sq (hw_setup (I2cSetup config))
         (upd (\<lambda>s. s\<lparr>i2cdevs := (i2cdevs s)(oid := config)\<rparr>)))))"

definition i2cdev_oid_lookup :: "u8 \<Rightarrow> ('a i2c_state_scheme, u8 option) prog" where
  "i2cdev_oid_lookup oid = oid_lookup oid OT_i2c"

definition command_i2c_write :: "u32 list \<Rightarrow> ('a i2c_state_scheme, unit) prog" where
  "command_i2c_write args =
     bnd (obj_lookup (ucast (args ! 0)) OT_i2c) (\<lambda>i2c.
     bnd (msg_bytes (args ! 2) (ucast (args ! 1))) (\<lambda>data.
     bnd (gets (\<lambda>s. i2cdevs s i2c)) (\<lambda>config.
     i2c_write config data)))"

definition command_i2c_read :: "u32 list \<Rightarrow> ('a i2c_state_scheme, unit) prog" where
  "command_i2c_read args =
     (let oid = ucast (args ! 0) :: u8; data_len = ucast (args ! 3) :: u8 in
      bnd (obj_lookup oid OT_i2c) (\<lambda>i2c.
      bnd (msg_bytes (args ! 2) (ucast (args ! 1))) (\<lambda>reg.
      bnd (gets (\<lambda>s. i2cdevs s i2c)) (\<lambda>config.
      bnd (i2c_read config reg (unat data_len)) (\<lambda>data.
      sendf ''i2c_read_response oid=%c response=%*s'' [VInt (ucast oid), VInt (ucast data_len), VPtr data])))))"

text \<open>The new register contents: each byte loses its clear bits and gains its set bits.\<close>

definition modify_bits :: "u8 list \<Rightarrow> u8 list \<Rightarrow> u8 list \<Rightarrow> u8 list" where
  "modify_bits old clear_bits set_bits = map2 (OR) (map2 (\<lambda>d c. d AND NOT c) old clear_bits) set_bits"

definition command_i2c_modify_bits :: "u32 list \<Rightarrow> ('a i2c_state_scheme, unit) prog" where
  "command_i2c_modify_bits args =
     bnd (obj_lookup (ucast (args ! 0)) OT_i2c) (\<lambda>i2c.
     bnd (msg_bytes (args ! 2) (ucast (args ! 1))) (\<lambda>reg.
     if args ! 3 mod 2 \<noteq> 0 then shutdown ''i2c_modify_bits: Odd number of bits!''
     else
       (let data_len = unat (ucast (args ! 3 div 2) :: u8) in
        bnd (msg_bytes (args ! 4) (ucast (args ! 3))) (\<lambda>clear_set.
        bnd (gets (\<lambda>s. i2cdevs s i2c)) (\<lambda>config.
        bnd (i2c_read config reg data_len) (\<lambda>old.
        (let receive_data = reg @ modify_bits old (take data_len clear_set) (take data_len (drop data_len clear_set));
             len = of_nat (length reg + data_len) :: u8
         in i2c_write config (take (unat len) receive_data))))))))"

text \<open>The state at power-on.\<close>

definition i2c_init :: "config \<Rightarrow> (hwreq \<Rightarrow> nat \<Rightarrow> u32) \<Rightarrow> 'a \<Rightarrow> 'a i2c_state_scheme" where
  "i2c_init c e m = spi_init c e (i2c_state_ext (\<lambda>_. (0, 0, 0)) m)"

end
