(* ===== verification/Tmcuart.thy ===== *)
theory Tmcuart
  imports I2ccmds
begin

text \<open>
  Bit-banged single-wire UART to TMC stepper drivers, \<^verbatim>\<open>src/tmcuart.c\<close>.
\<close>

section \<open>Data\<close>

text \<open>The timer is \<open>ObjTimer oid TMain\<close>.\<close>

record tmcuart_s =
  tu_tx_pin :: u32
  tu_rx_pin :: u32
  tu_flags :: u8
  tu_pos :: u8
  tu_read_count :: u8
  tu_write_count :: u8
  tu_cfg_bit_time :: u32
  tu_bit_time :: u32
  tu_data :: "u8 list"

record tmcuart_state = i2c_state +
  tmcuarts :: "u8 \<Rightarrow> tmcuart_s"

abbreviation TU_LINE_HIGH :: u8 where "TU_LINE_HIGH \<equiv> 1"
abbreviation TU_ACTIVE :: u8 where "TU_ACTIVE \<equiv> 2"
abbreviation TU_READ_SYNC :: u8 where "TU_READ_SYNC \<equiv> 4"
abbreviation TU_REPORT :: u8 where "TU_REPORT \<equiv> 8"
abbreviation TU_PULLUP :: u8 where "TU_PULLUP \<equiv> 16"
abbreviation TU_SINGLE_WIRE :: u8 where "TU_SINGLE_WIRE \<equiv> 32"

definition tmcuart_zero :: tmcuart_s where
  "tmcuart_zero = \<lparr>tu_tx_pin = 0, tu_rx_pin = 0, tu_flags = 0, tu_pos = 0, tu_read_count = 0, tu_write_count = 0,
     tu_cfg_bit_time = 0, tu_bit_time = 0, tu_data = replicate 10 0\<rparr>"

abbreviation tu_timer :: "u8 \<Rightarrow> tref" where "tu_timer oid \<equiv> ObjTimer oid TMain"

definition upd_tmcuart :: "u8 \<Rightarrow> (tmcuart_s \<Rightarrow> tmcuart_s) \<Rightarrow> ('a tmcuart_state_scheme, unit) prog" where
  "upd_tmcuart oid f = upd (\<lambda>s. s\<lparr>tmcuarts := (tmcuarts s)(oid := f (tmcuarts s oid))\<rparr>)"

section \<open>Timer events\<close>

definition tmcuart_reset_line :: "u8 \<Rightarrow> ('a tmcuart_state_scheme, unit) prog" where
  "tmcuart_reset_line oid =
     bnd (gets (\<lambda>s. tmcuarts s oid)) (\<lambda>t.
     sq (if tu_flags t AND TU_SINGLE_WIRE \<noteq> 0 then emit (GpioOutReset (tu_tx_pin t) 1)
         else gpio_out_write (tu_tx_pin t) 1)
        (upd_tmcuart oid (\<lambda>t. t\<lparr>tu_flags := (tu_flags t AND (TU_PULLUP OR TU_SINGLE_WIRE)) OR TU_LINE_HIGH\<rparr>)))"

definition tmcuart_finalize :: "u8 \<Rightarrow> ('a tmcuart_state_scheme, sf) prog" where
  "tmcuart_finalize oid =
     sq (tmcuart_reset_line oid)
    (sq (upd_tmcuart oid (\<lambda>t. t\<lparr>tu_flags := tu_flags t OR TU_REPORT\<rparr>))
    (sq (sched_wake_task tmcuart_wake)
        (ret SF_DONE)))"

text \<open>An access outside the ten data bytes has no result.\<close>

definition tmcuart_read_event :: "u8 \<Rightarrow> ('a tmcuart_state_scheme, sf) prog" where
  "tmcuart_read_event oid =
     bnd (gets (\<lambda>s. tu_rx_pin (tmcuarts s oid))) (\<lambda>rx.
     bnd (gpio_in_read rx) (\<lambda>v.
     bnd (gets (\<lambda>s. tmcuarts s oid)) (\<lambda>t.
     let pos = tu_pos t; i = unat (drop_bit 3 pos); msk = push_bit (unat (pos AND 7)) 1 :: u8 in
     if i \<ge> length (tu_data t) then stuck
     else
       sq (upd_tmcuart oid (\<lambda>t. t\<lparr>tu_data := (tu_data t)[i := (if v \<noteq> 0 then tu_data t ! i OR msk
              else tu_data t ! i AND NOT msk)]\<rparr>))
      (if pos + 1 \<ge> tu_read_count t then tmcuart_finalize oid
       else
         sq (upd_tmcuart oid (tu_pos_update (\<lambda>_. pos + 1)))
        (sq (add_waketime (tu_timer oid) (tu_bit_time t))
            (ret SF_RESCHEDULE))))))"

definition tmcuart_read_sync_event :: "u8 \<Rightarrow> ('a tmcuart_state_scheme, sf) prog" where
  "tmcuart_read_sync_event oid =
     bnd (gets (\<lambda>s. tu_rx_pin (tmcuarts s oid))) (\<lambda>rx.
     bnd (gpio_in_read rx) (\<lambda>v.
     bnd (gets (\<lambda>s. tmcuarts s oid)) (\<lambda>t.
     if v = 0 \<and> tu_flags t AND TU_READ_SYNC \<noteq> 0 then
       sq (upd_tmcuart oid (tu_pos_update (\<lambda>_. 0)))
      (sq (set_func (tu_timer oid) Fn_tmcuart_read_event)
          (tmcuart_read_event oid))
     else
       sq (whenp (v \<noteq> 0) (upd_tmcuart oid (\<lambda>t. t\<lparr>tu_flags := tu_flags t OR TU_READ_SYNC\<rparr>)))
      (sq (upd_tmcuart oid (\<lambda>t. t\<lparr>tu_pos := tu_pos t + 1\<rparr>))
      (if tu_pos t \<ge> 64 then
         sq (upd_tmcuart oid (tu_read_count_update (\<lambda>_. 0)))
            (tmcuart_finalize oid)
       else
         sq (add_waketime (tu_timer oid) (tu_bit_time t))
            (ret SF_RESCHEDULE))))))"

definition tmcuart_send_finish_event :: "u8 \<Rightarrow> ('a tmcuart_state_scheme, sf) prog" where
  "tmcuart_send_finish_event oid =
     bnd (gets (\<lambda>s. tmcuarts s oid)) (\<lambda>t.
     if tu_read_count t = 0 then tmcuart_finalize oid
     else
       sq (whenp (tu_flags t AND TU_SINGLE_WIRE \<noteq> 0)
             (emit (GpioInReset (tu_rx_pin t) (ucast (tu_flags t AND TU_PULLUP)))))
      (sq (upd_tmcuart oid (tu_pos_update (\<lambda>_. 0)))
      (sq (set_func (tu_timer oid) Fn_tmcuart_read_sync_event)
      (sq (add_waketime (tu_timer oid) (tu_bit_time t * 4))
          (ret SF_RESCHEDULE)))))"

text \<open>
  The scan of \<^verbatim>\<open>tmcuart_send_event\<close> for the next toggle: \<open>Some\<close> the position where the
  line changes, or \<open>None\<close> at the end of the message, with the ticks until then.
\<close>

function send_scan :: "u8 list \<Rightarrow> u8 \<Rightarrow> u8 \<Rightarrow> u32 \<Rightarrow> u8 \<Rightarrow> u32 \<Rightarrow> u8 option \<times> u32" where
  "send_scan data write_count line_state bit_time pos nxt =
     (let pos = pos + 1 in
      if pos \<ge> write_count then (None, nxt)
      else
        (let bt = drop_bit (unat (pos AND 7)) (data ! unat (drop_bit 3 pos)) AND 1 in
         if bt \<noteq> line_state then (Some pos, nxt)
         else send_scan data write_count line_state bit_time pos (nxt + bit_time)))"
  by pat_completeness auto
termination
proof (relation "measure (\<lambda>(data, wc, ls, btm, pos, nxt). unat wc - unat (pos + 1))")
  fix pos x write_count :: u8
  assume "x = pos + 1" and "\<not> write_count \<le> x"
  then have lt: "unat x < unat write_count" by (simp add: word_less_nat_alt not_le)
  then have "unat (x + 1) = unat x + 1" using unat_u8_less [of write_count]
    by (simp add: unat_plus_if_size word_size)
  with lt \<open>x = pos + 1\<close> show "((data, write_count, ls, btm, x, nxt'), (data, write_count, ls, btm, pos, nxt))
      \<in> measure (\<lambda>(data, wc, ls, btm, pos, nxt). unat wc - unat (pos + 1))"
    for data :: "u8 list" and ls :: u8 and btm nxt nxt' :: u32 by simp
qed simp

definition tmcuart_send_event :: "u8 \<Rightarrow> ('a tmcuart_state_scheme, sf) prog" where
  "tmcuart_send_event oid =
     bnd (gets (\<lambda>s. tu_tx_pin (tmcuarts s oid))) (\<lambda>tx.
     sq (gpio_out_toggle_noirq tx)
    (sq (upd_tmcuart oid (\<lambda>t. t\<lparr>tu_flags := tu_flags t XOR TU_LINE_HIGH\<rparr>))
    (bnd (gets (\<lambda>s. tmcuarts s oid)) (\<lambda>t.
     let (p, nxt) = send_scan (tu_data t) (tu_write_count t) (tu_flags t AND TU_LINE_HIGH) (tu_bit_time t)
           (tu_pos t) (tu_bit_time t) in
     sq (case p of
           None \<Rightarrow> set_func (tu_timer oid) Fn_tmcuart_send_finish_event
         | Some pos \<Rightarrow> upd_tmcuart oid (tu_pos_update (\<lambda>_. pos)))
    (sq (add_waketime (tu_timer oid) nxt)
        (ret SF_RESCHEDULE))))))"

definition DIV_ROUND_CLOSEST :: "int \<Rightarrow> int \<Rightarrow> int" where
  "DIV_ROUND_CLOSEST x d = (let n = x + d div 2 in if n < 0 then - ((- n) div d) else n div d)"

definition tmcuart_send_sync_event :: "u8 \<Rightarrow> ('a tmcuart_state_scheme, sf) prog" where
  "tmcuart_send_sync_event oid =
     bnd (gets (\<lambda>s. tu_tx_pin (tmcuarts s oid))) (\<lambda>tx.
     sq (gpio_out_toggle_noirq tx)
    (bnd timer_read_time (\<lambda>cur.
     sq (upd_tmcuart oid (\<lambda>t. t\<lparr>tu_flags := tu_flags t XOR TU_LINE_HIGH, tu_pos := tu_pos t + 1\<rparr>))
    (bnd (gets (\<lambda>s. tmcuarts s oid)) (\<lambda>t.
     bnd (gets (\<lambda>s. cur - wake s (tu_timer oid))) (\<lambda>offset.
     if tu_pos t \<noteq> 1 \<and> tu_pos t \<ge> 5 then
       (let diff = offset - tu_bit_time t; bit_time = tu_cfg_bit_time t + of_int (DIV_ROUND_CLOSEST (sint diff) 4) in
        sq (upd_tmcuart oid (tu_bit_time_update (\<lambda>_. bit_time)))
       (sq (set_func (tu_timer oid) Fn_tmcuart_send_event)
       (sq (add_waketime (tu_timer oid) (diff + bit_time))
           (ret SF_RESCHEDULE))))
     else
       sq (whenp (tu_pos t = 1) (upd_tmcuart oid (tu_bit_time_update (\<lambda>_. offset))))
      (sq (add_waketime (tu_timer oid) (tu_cfg_bit_time t))
          (ret SF_RESCHEDULE))))))))"

section \<open>Commands\<close>

definition command_config_tmcuart :: "u32 list \<Rightarrow> ('a tmcuart_state_scheme, unit) prog" where
  "command_config_tmcuart args =
     (let oid = ucast (args ! 0); pull_up = ucast (args ! 2) :: u8; rx_pin = args ! 1; tx_pin = args ! 3 in
      bnd (gets (\<lambda>s. c_sizeof (cfg s) ''tmcuart_s'')) (\<lambda>sz.
      sq (oid_alloc oid OT_tmcuart sz)
     (sq (upd_tmcuart oid (\<lambda>_. tmcuart_zero))
     (sq (hw_setup (GpioInSetup rx_pin (of_bool (pull_up \<noteq> 0))))
     (sq (upd_tmcuart oid (tu_rx_pin_update (\<lambda>_. rx_pin)))
     (sq (hw_setup (GpioOutSetup tx_pin 1))
         (upd_tmcuart oid (\<lambda>t. t\<lparr>tu_tx_pin := tx_pin, tu_cfg_bit_time := args ! 4,
            tu_flags := TU_LINE_HIGH OR (if pull_up \<noteq> 0 then TU_PULLUP else 0)
              OR (if rx_pin = tx_pin then TU_SINGLE_WIRE else 0)\<rparr>))))))))"

definition command_tmcuart_send :: "u32 list \<Rightarrow> ('a tmcuart_state_scheme, unit) prog" where
  "command_tmcuart_send args =
     bnd (obj_lookup (ucast (args ! 0)) OT_tmcuart) (\<lambda>oid.
     bnd (gets (\<lambda>s. tu_flags (tmcuarts s oid) AND TU_ACTIVE \<noteq> 0)) (\<lambda>busy.
     if busy then ret ()
     else
       (let write_len = ucast (args ! 1) :: u8; read_len = ucast (args ! 3) :: u8 in
        if write_len > 10 \<or> read_len > 10 then shutdown ''tmcuart data too large''
        else
          bnd (msg_bytes (args ! 2) write_len) (\<lambda>write.
          sq (upd_tmcuart oid (\<lambda>t. t\<lparr>tu_data := store_at (tu_data t) 0 write, tu_pos := 0,
                tu_flags := (tu_flags t AND (TU_LINE_HIGH OR TU_PULLUP OR TU_SINGLE_WIRE)) OR TU_ACTIVE,
                tu_write_count := write_len * 8, tu_read_count := read_len * 8\<rparr>))
         (bnd (gets (\<lambda>s. tmcuarts s oid)) (\<lambda>t.
          sq (if write_len \<ge> 1 \<and> tu_data t ! 0 AND 0x3f = 0x2a then
                set_func (tu_timer oid) Fn_tmcuart_send_sync_event
              else
                sq (upd_tmcuart oid (\<lambda>t. t\<lparr>tu_bit_time := tu_cfg_bit_time t\<rparr>))
                   (set_func (tu_timer oid) Fn_tmcuart_send_event))
         (bnd timer_read_time (\<lambda>now.
          bnd (gets (\<lambda>s. now + timer_from_us s 200)) (\<lambda>w.
          sq (set_waketime (tu_timer oid) w)
             (sched_add_timer (tu_timer oid)))))))))))"

definition tmcuart_task :: "('a tmcuart_state_scheme, unit) prog" where
  "tmcuart_task =
     bnd (sched_check_wake tmcuart_wake) (\<lambda>w.
     whenp w (foreach_oid OT_tmcuart (\<lambda>oid.
       bnd (gets (\<lambda>s. tmcuarts s oid)) (\<lambda>t.
       whenp (tu_flags t AND TU_REPORT \<noteq> 0)
         (sq (upd_tmcuart oid (\<lambda>t. t\<lparr>tu_flags := tu_flags t AND NOT TU_REPORT\<rparr>))
             (sendf ''tmcuart_response oid=%c read=%*s''
               [VInt (ucast oid), VInt (ucast (tu_read_count t div 8)),
                VPtr (take (unat (tu_read_count t div 8)) (tu_data t))]))))))"

definition tmcuart_shutdown :: "('a tmcuart_state_scheme, unit) prog" where
  "tmcuart_shutdown = foreach_oid OT_tmcuart tmcuart_reset_line"

text \<open>The state at power-on.\<close>

definition tmcuart_init :: "config \<Rightarrow> (hwreq \<Rightarrow> nat \<Rightarrow> u32) \<Rightarrow> 'a \<Rightarrow> 'a tmcuart_state_scheme" where
  "tmcuart_init c e m = i2c_init c e (tmcuart_state_ext (\<lambda>_. tmcuart_zero) m)"

end
