(* ===== verification/Thermocouple.thy ===== *)
theory Thermocouple
  imports Tmcuart
begin

text \<open>
  Thermocouple and RTD converter chips on SPI, \<^verbatim>\<open>src/thermocouple.c\<close>: periodic readings
  with a range check that stops the machine.
\<close>

section \<open>Definitions\<close>

text \<open>The timer is \<open>ObjTimer oid TMain\<close>; \<^verbatim>\<open>spi\<close> is the oid of the device or null.\<close>

record thermocouple_spi =
  tc_rest_time :: u32
  tc_min_value :: u32
  tc_max_value :: u32
  tc_spi :: "u8 option"
  tc_max_invalid :: u8
  tc_invalid_count :: u8
  tc_chip_type :: u8
  tc_flags :: u8

record thermocouple_state = tmcuart_state +
  thermocouples :: "u8 \<Rightarrow> thermocouple_spi"

abbreviation TS_CHIP_MAX31855 :: u8 where "TS_CHIP_MAX31855 \<equiv> 0"
abbreviation TS_CHIP_MAX31856 :: u8 where "TS_CHIP_MAX31856 \<equiv> 1"
abbreviation TS_CHIP_MAX31865 :: u8 where "TS_CHIP_MAX31865 \<equiv> 2"
abbreviation TS_CHIP_MAX6675 :: u8 where "TS_CHIP_MAX6675 \<equiv> 3"
abbreviation TS_PENDING :: u8 where "TS_PENDING \<equiv> 1"

definition thermocouple_zero :: thermocouple_spi where
  "thermocouple_zero = \<lparr>tc_rest_time = 0, tc_min_value = 0, tc_max_value = 0, tc_spi = None, tc_max_invalid = 0,
     tc_invalid_count = 0, tc_chip_type = 0, tc_flags = 0\<rparr>"

abbreviation tc_timer :: "u8 \<Rightarrow> tref" where "tc_timer oid \<equiv> ObjTimer oid TMain"

definition upd_thermo :: "u8 \<Rightarrow> (thermocouple_spi \<Rightarrow> thermocouple_spi) \<Rightarrow> ('a thermocouple_state_scheme, unit) prog" where
  "upd_thermo oid f = upd (\<lambda>s. s\<lparr>thermocouples := (thermocouples s)(oid := f (thermocouples s oid))\<rparr>)"

definition thermocouple_event :: "u8 \<Rightarrow> ('a thermocouple_state_scheme, sf) prog" where
  "thermocouple_event oid =
     sq (sched_wake_task thermocouple_wake)
    (sq (upd_thermo oid (\<lambda>t. t\<lparr>tc_flags := tc_flags t OR TS_PENDING\<rparr>))
    (bnd (gets (\<lambda>s. tc_rest_time (thermocouples s oid))) (\<lambda>rest.
     sq (add_waketime (tc_timer oid) rest)
        (ret SF_RESCHEDULE))))"

definition command_config_thermocouple :: "u32 list \<Rightarrow> ('a thermocouple_state_scheme, unit) prog" where
  "command_config_thermocouple args =
     (let oid = ucast (args ! 0); chip_type = ucast (args ! 2) :: u8 in
      if chip_type > TS_CHIP_MAX6675 then shutdown ''Invalid thermocouple chip type''
      else
        bnd (gets (\<lambda>s. c_sizeof (cfg s) ''thermocouple_spi'')) (\<lambda>sz.
        sq (oid_alloc oid OT_thermocouple sz)
       (sq (upd_thermo oid (\<lambda>_. thermocouple_zero))
       (sq (set_func (tc_timer oid) Fn_thermocouple_event)
       (bnd (spidev_oid_lookup (ucast (args ! 1))) (\<lambda>spi.
        upd_thermo oid (\<lambda>t. t\<lparr>tc_spi := spi, tc_chip_type := chip_type\<rparr>)))))))"

definition command_query_thermocouple :: "u32 list \<Rightarrow> ('a thermocouple_state_scheme, unit) prog" where
  "command_query_thermocouple args =
     bnd (obj_lookup (ucast (args ! 0)) OT_thermocouple) (\<lambda>oid.
     sq (sched_del_timer (tc_timer oid))
    (sq (set_waketime (tc_timer oid) (args ! 1))
    (sq (upd_thermo oid (tc_rest_time_update (\<lambda>_. args ! 2)))
    (if args ! 2 = 0 then ret ()
     else
       sq (upd_thermo oid (\<lambda>t. t\<lparr>tc_min_value := args ! 3, tc_max_value := args ! 4,
             tc_max_invalid := ucast (args ! 5), tc_invalid_count := 0\<rparr>))
          (sched_add_timer (tc_timer oid))))))"

definition thermocouple_respond :: "u8 \<Rightarrow> u32 \<Rightarrow> u32 \<Rightarrow> u8 \<Rightarrow> ('a thermocouple_state_scheme, unit) prog" where
  "thermocouple_respond oid next_begin_time value fault =
     sq (sendf ''thermocouple_result oid=%c next_clock=%u value=%u fault=%c''
           [VInt (ucast oid), VInt next_begin_time, VInt value, VInt (ucast fault)])
    (bnd (gets (\<lambda>s. thermocouples s oid)) (\<lambda>t.
     if fault \<noteq> 0 \<or> value < tc_min_value t \<or> value > tc_max_value t then
       sq (upd_thermo oid (tc_invalid_count_update (\<lambda>n. n + 1)))
      (if tc_invalid_count t + 1 < tc_max_invalid t then ret ()
       else
         sq (sched_try_shutdown ''Thermocouple reader fault'')
            (upd_thermo oid (tc_invalid_count_update (\<lambda>_. 0))))
     else upd_thermo oid (tc_invalid_count_update (\<lambda>_. 0))))"

text \<open>The number whose big-endian bytes are in a buffer.\<close>

definition be_to_cpu :: "u8 list \<Rightarrow> u32" where
  "be_to_cpu bs = fold (\<lambda>b v. push_bit 8 v OR ucast b) bs 0"

definition thermocouple_handle_max31855 :: "u8 \<Rightarrow> u8 \<Rightarrow> u32 \<Rightarrow> ('a thermocouple_state_scheme, unit) prog" where
  "thermocouple_handle_max31855 oid spi next_begin_time =
     bnd (spidev_transfer spi True [0, 0, 0, 0]) (\<lambda>msg.
     let value = be_to_cpu msg in
     thermocouple_respond oid next_begin_time value (ucast (value AND 7)))"

abbreviation MAX31856_LTCBH_REG :: u8 where "MAX31856_LTCBH_REG \<equiv> 0x0C"
abbreviation MAX31856_SR_REG :: u8 where "MAX31856_SR_REG \<equiv> 0x0F"

definition thermocouple_handle_max31856 :: "u8 \<Rightarrow> u8 \<Rightarrow> u32 \<Rightarrow> ('a thermocouple_state_scheme, unit) prog" where
  "thermocouple_handle_max31856 oid spi next_begin_time =
     bnd (spidev_transfer spi True [MAX31856_LTCBH_REG, 0, 0, 0]) (\<lambda>msg.
     let value = be_to_cpu msg AND 0x00ffffff in
     bnd (spidev_transfer spi True [MAX31856_SR_REG, 0]) (\<lambda>msg2.
     thermocouple_respond oid next_begin_time value (msg2 ! 1)))"

abbreviation MAX31865_RTDMSB_REG :: u8 where "MAX31865_RTDMSB_REG \<equiv> 1"
abbreviation MAX31865_FAULTSTAT_REG :: u8 where "MAX31865_FAULTSTAT_REG \<equiv> 7"

definition thermocouple_handle_max31865 :: "u8 \<Rightarrow> u8 \<Rightarrow> u32 \<Rightarrow> ('a thermocouple_state_scheme, unit) prog" where
  "thermocouple_handle_max31865 oid spi next_begin_time =
     bnd (spidev_transfer spi True [MAX31865_RTDMSB_REG, 0, 0]) (\<lambda>msg.
     let value = drop_bit 8 (be_to_cpu (msg @ [0])) AND 0xffff in
     bnd (spidev_transfer spi True [MAX31865_FAULTSTAT_REG, 0]) (\<lambda>msg2.
     let fault = (msg2 ! 1 AND NOT 3) OR (ucast (value AND 1)) in
     thermocouple_respond oid next_begin_time value fault))"

definition thermocouple_handle_max6675 :: "u8 \<Rightarrow> u8 \<Rightarrow> u32 \<Rightarrow> ('a thermocouple_state_scheme, unit) prog" where
  "thermocouple_handle_max6675 oid spi next_begin_time =
     bnd (spidev_transfer spi True [0, 0]) (\<lambda>msg.
     let value = be_to_cpu msg in
     thermocouple_respond oid next_begin_time value (ucast (value AND 6)))"

definition thermocouple_task :: "('a thermocouple_state_scheme, unit) prog" where
  "thermocouple_task =
     bnd (sched_check_wake thermocouple_wake) (\<lambda>w.
     whenp w (foreach_oid OT_thermocouple (\<lambda>oid.
       bnd (gets (\<lambda>s. thermocouples s oid)) (\<lambda>t.
       whenp (tc_flags t AND TS_PENDING \<noteq> 0)
         (bnd (gets (\<lambda>s. wake s (tc_timer oid))) (\<lambda>next_begin_time.
          sq (upd_thermo oid (\<lambda>t. t\<lparr>tc_flags := tc_flags t AND NOT TS_PENDING\<rparr>))
         (if tc_chip_type t = TS_CHIP_MAX31855 then
            bnd (deref (tc_spi t)) (\<lambda>spi. thermocouple_handle_max31855 oid spi next_begin_time)
          else if tc_chip_type t = TS_CHIP_MAX31856 then
            bnd (deref (tc_spi t)) (\<lambda>spi. thermocouple_handle_max31856 oid spi next_begin_time)
          else if tc_chip_type t = TS_CHIP_MAX31865 then
            bnd (deref (tc_spi t)) (\<lambda>spi. thermocouple_handle_max31865 oid spi next_begin_time)
          else if tc_chip_type t = TS_CHIP_MAX6675 then
            bnd (deref (tc_spi t)) (\<lambda>spi. thermocouple_handle_max6675 oid spi next_begin_time)
          else ret ())))))))"

text \<open>The state at power-on.\<close>

definition thermocouple_init :: "config \<Rightarrow> (hwreq \<Rightarrow> nat \<Rightarrow> u32) \<Rightarrow> 'a \<Rightarrow> 'a thermocouple_state_scheme" where
  "thermocouple_init c e m = tmcuart_init c e (thermocouple_state_ext (\<lambda>_. thermocouple_zero) m)"

end
