(* ===== verification/Adxl345.thy ===== *)
theory Adxl345
  imports Thermocouple
begin

text \<open>
  ADXL345 accelerometers on SPI, \<^verbatim>\<open>src/sensor_adxl345.c\<close>.
\<close>

section \<open>Definitions\<close>

text \<open>The timer is \<open>ObjTimer oid TMain\<close>; \<^verbatim>\<open>spi\<close> is the oid of the device or null.\<close>

record adxl345 =
  ax_rest_ticks :: u32
  ax_spi :: "u8 option"
  ax_sequence :: u16
  ax_limit_count :: u16
  ax_flags :: u8
  ax_data_count :: u8
  ax_data :: "u8 list"

record adxl345_state = thermocouple_state +
  adxl345s :: "u8 \<Rightarrow> adxl345"

abbreviation AX_HAVE_START :: u8 where "AX_HAVE_START \<equiv> 1"
abbreviation AX_RUNNING :: u8 where "AX_RUNNING \<equiv> 2"
abbreviation AX_PENDING :: u8 where "AX_PENDING \<equiv> 4"

definition adxl345_zero :: adxl345 where
  "adxl345_zero = \<lparr>ax_rest_ticks = 0, ax_spi = None, ax_sequence = 0, ax_limit_count = 0, ax_flags = 0,
     ax_data_count = 0, ax_data = replicate 50 0\<rparr>"

abbreviation ax_timer :: "u8 \<Rightarrow> tref" where "ax_timer oid \<equiv> ObjTimer oid TMain"

definition upd_adxl :: "u8 \<Rightarrow> (adxl345 \<Rightarrow> adxl345) \<Rightarrow> ('a adxl345_state_scheme, unit) prog" where
  "upd_adxl oid f = upd (\<lambda>s. s\<lparr>adxl345s := (adxl345s s)(oid := f (adxl345s s oid))\<rparr>)"

definition adxl345_event :: "u8 \<Rightarrow> ('a adxl345_state_scheme, sf) prog" where
  "adxl345_event oid =
     sq (upd_adxl oid (\<lambda>ax. ax\<lparr>ax_flags := ax_flags ax OR AX_PENDING\<rparr>))
    (sq (sched_wake_task adxl345_wake)
        (ret SF_DONE))"

definition command_config_adxl345 :: "u32 list \<Rightarrow> ('a adxl345_state_scheme, unit) prog" where
  "command_config_adxl345 args =
     (let oid = ucast (args ! 0) in
      bnd (gets (\<lambda>s. c_sizeof (cfg s) ''adxl345'')) (\<lambda>sz.
      sq (oid_alloc oid OT_adxl345 sz)
     (sq (upd_adxl oid (\<lambda>_. adxl345_zero))
     (sq (set_func (ax_timer oid) Fn_adxl345_event)
     (bnd (spidev_oid_lookup (ucast (args ! 1))) (\<lambda>spi.
      upd_adxl oid (ax_spi_update (\<lambda>_. spi))))))))"

definition adxl_report :: "u8 \<Rightarrow> ('a adxl345_state_scheme, unit) prog" where
  "adxl_report oid =
     bnd (gets (\<lambda>s. adxl345s s oid)) (\<lambda>ax.
     sq (sendf ''adxl345_data oid=%c sequence=%hu data=%*s''
           [VInt (ucast oid), VInt (ucast (ax_sequence ax)), VInt (ucast (ax_data_count ax)),
            VPtr (take (unat (ax_data_count ax)) (ax_data ax))])
        (upd_adxl oid (\<lambda>ax. ax\<lparr>ax_data_count := 0, ax_sequence := ax_sequence ax + 1\<rparr>)))"

definition adxl_status :: "u8 \<Rightarrow> u32 \<Rightarrow> u32 \<Rightarrow> u8 \<Rightarrow> ('a adxl345_state_scheme, unit) prog" where
  "adxl_status oid time1 time2 fifo =
     bnd (gets (\<lambda>s. adxl345s s oid)) (\<lambda>ax.
     sendf ''adxl345_status oid=%c clock=%u query_ticks=%u next_sequence=%hu buffered=%c fifo=%c limit_count=%hu''
       [VInt (ucast oid), VInt time1, VInt (time2 - time1), VInt (ucast (ax_sequence ax)),
        VInt (ucast (ax_data_count ax)), VInt (ucast fifo), VInt (ucast (ax_limit_count ax))])"

definition adxl_reschedule_timer :: "u8 \<Rightarrow> ('a adxl345_state_scheme, unit) prog" where
  "adxl_reschedule_timer oid =
     bnd timer_read_time (\<lambda>now.
     bnd (gets (\<lambda>s. now + ax_rest_ticks (adxl345s s oid))) (\<lambda>w.
     sq (set_waketime (ax_timer oid) w)
        (sched_add_timer (ax_timer oid))))"

abbreviation AR_POWER_CTL :: u8 where "AR_POWER_CTL \<equiv> 0x2D"
abbreviation AR_DATAX0 :: u8 where "AR_DATAX0 \<equiv> 0x32"
abbreviation AR_FIFO_STATUS :: u8 where "AR_FIFO_STATUS \<equiv> 0x39"
abbreviation AM_READ :: u8 where "AM_READ \<equiv> 0x80"
abbreviation AM_MULTI :: u8 where "AM_MULTI \<equiv> 0x40"
abbreviation SET_FIFO_CTL :: u8 where "SET_FIFO_CTL \<equiv> 0x90"

text \<open>The five bytes stored for a measurement, and the FIFO status.\<close>

definition adxl_glitch :: "u8 list \<Rightarrow> bool" where
  "adxl_glitch msg \<longleftrightarrow>
     msg ! 2 AND 0xf0 \<noteq> 0 \<and> msg ! 2 AND 0xf0 \<noteq> 0xf0 \<or>
     msg ! 4 AND 0xf0 \<noteq> 0 \<and> msg ! 4 AND 0xf0 \<noteq> 0xf0 \<or>
     msg ! 6 AND 0xf0 \<noteq> 0 \<and> msg ! 6 AND 0xf0 \<noteq> 0xf0 \<or>
     msg ! 7 \<noteq> SET_FIFO_CTL \<or> msg ! 8 AND NOT 0x80 > 32"

definition adxl_pack :: "u8 list \<Rightarrow> u8 list \<times> u8" where
  "adxl_pack msg =
     (if adxl_glitch msg then ([0xff, 0xff, 0xff, 0xff, 0xff], 0)
      else ([msg ! 1, msg ! 3, msg ! 5, (msg ! 2 AND 0x1f) OR push_bit 5 (msg ! 6),
             (msg ! 4 AND 0x1f) OR (push_bit 2 (msg ! 6) AND 0x60)], msg ! 8 AND NOT 0x80))"

text \<open>Writing outside the data array has no result.\<close>

definition adxl_query :: "u8 \<Rightarrow> ('a adxl345_state_scheme, unit) prog" where
  "adxl_query oid =
     bnd (gets (\<lambda>s. ax_spi (adxl345s s oid))) (\<lambda>p.
     bnd (deref p) (\<lambda>spi.
     bnd (spidev_transfer spi True [AR_DATAX0 OR AM_READ OR AM_MULTI, 0, 0, 0, 0, 0, 0, 0, 0]) (\<lambda>msg.
     bnd (gets (\<lambda>s. adxl345s s oid)) (\<lambda>ax.
     if unat (ax_data_count ax) + 5 > length (ax_data ax) then stuck
     else
       (let (d, fifo_status) = adxl_pack msg in
        sq (upd_adxl oid (\<lambda>ax. ax\<lparr>ax_data := store_at (ax_data ax) (unat (ax_data_count ax)) d,
              ax_data_count := ax_data_count ax + 5\<rparr>))
       (bnd (gets (\<lambda>s. unat (ax_data_count (adxl345s s oid)) + 5 > 50)) (\<lambda>full.
        sq (whenp full (adxl_report oid))
       (sq (whenp (fifo_status \<ge> 31) (upd_adxl oid (\<lambda>ax. ax\<lparr>ax_limit_count := ax_limit_count ax + 1\<rparr>)))
       (if fifo_status > 1 \<and> fifo_status \<le> 32 then sched_wake_task adxl345_wake
        else
          bnd (gets (\<lambda>s. ax_flags (adxl345s s oid) AND AX_RUNNING \<noteq> 0)) (\<lambda>running.
          whenp running
            (sq (sched_del_timer (ax_timer oid))
            (sq (upd_adxl oid (\<lambda>ax. ax\<lparr>ax_flags := ax_flags ax AND NOT AX_PENDING\<rparr>))
                (adxl_reschedule_timer oid)))))))))))))"

definition adxl_start :: "u8 \<Rightarrow> ('a adxl345_state_scheme, unit) prog" where
  "adxl_start oid =
     sq (sched_del_timer (ax_timer oid))
    (sq (upd_adxl oid (ax_flags_update (\<lambda>_. AX_RUNNING)))
    (bnd (gets (\<lambda>s. ax_spi (adxl345s s oid))) (\<lambda>p.
     bnd (deref p) (\<lambda>spi.
     sq (spidev_transfer spi False [AR_POWER_CTL, 0x08])
        (adxl_reschedule_timer oid)))))"

text \<open>The loop that drains the FIFO: the last status byte read, or the old one.\<close>

primrec adxl_drain :: "nat \<Rightarrow> u8 \<Rightarrow> u8 \<Rightarrow> u8 \<Rightarrow> ('a adxl345_state_scheme, u8) prog" where
  "adxl_drain 0 oid spi prev = ret prev"
| "adxl_drain (Suc n) oid spi prev =
     bnd (spidev_transfer spi True [AR_FIFO_STATUS OR AM_READ, 0]) (\<lambda>msg.
     let fifo_status = msg ! 1 AND NOT 0x80 in
     if fifo_status = 0 then ret (msg ! 1)
     else
       sq (whenp (fifo_status \<le> 32) (adxl_query oid))
          (adxl_drain n oid spi (msg ! 1)))"

definition adxl_stop :: "u8 \<Rightarrow> ('a adxl345_state_scheme, unit) prog" where
  "adxl_stop oid =
     sq (sched_del_timer (ax_timer oid))
    (sq (upd_adxl oid (ax_flags_update (\<lambda>_. 0)))
    (bnd timer_read_time (\<lambda>end1_time.
     bnd (gets (\<lambda>s. ax_spi (adxl345s s oid))) (\<lambda>p.
     bnd (deref p) (\<lambda>spi.
     bnd (spidev_transfer spi False [AR_POWER_CTL, 0]) (\<lambda>msg.
     bnd timer_read_time (\<lambda>end2_time.
     bnd (adxl_drain 33 oid spi (msg ! 1)) (\<lambda>fifo.
     bnd (gets (\<lambda>s. ax_data_count (adxl345s s oid))) (\<lambda>n.
     sq (whenp (n \<noteq> 0) (adxl_report oid))
        (adxl_status oid end1_time end2_time fifo))))))))))"

definition command_query_adxl345 :: "u32 list \<Rightarrow> ('a adxl345_state_scheme, unit) prog" where
  "command_query_adxl345 args =
     bnd (obj_lookup (ucast (args ! 0)) OT_adxl345) (\<lambda>oid.
     if args ! 2 = 0 then adxl_stop oid
     else
       sq (sched_del_timer (ax_timer oid))
      (sq (set_waketime (ax_timer oid) (args ! 1))
      (sq (upd_adxl oid (\<lambda>ax. ax\<lparr>ax_rest_ticks := args ! 2, ax_flags := AX_HAVE_START, ax_limit_count := 0,
             ax_sequence := 0, ax_data_count := 0\<rparr>))
          (sched_add_timer (ax_timer oid)))))"

definition command_query_adxl345_status :: "u32 list \<Rightarrow> ('a adxl345_state_scheme, unit) prog" where
  "command_query_adxl345_status args =
     bnd (obj_lookup (ucast (args ! 0)) OT_adxl345) (\<lambda>oid.
     bnd timer_read_time (\<lambda>time1.
     bnd (gets (\<lambda>s. ax_spi (adxl345s s oid))) (\<lambda>p.
     bnd (deref p) (\<lambda>spi.
     bnd (spidev_transfer spi True [AR_FIFO_STATUS OR AM_READ, 0]) (\<lambda>msg.
     bnd timer_read_time (\<lambda>time2.
     adxl_status oid time1 time2 (msg ! 1)))))))"

definition adxl345_task :: "('a adxl345_state_scheme, unit) prog" where
  "adxl345_task =
     bnd (sched_check_wake adxl345_wake) (\<lambda>w.
     whenp w (foreach_oid OT_adxl345 (\<lambda>oid.
       bnd (gets (\<lambda>s. ax_flags (adxl345s s oid))) (\<lambda>flags.
       whenp (flags AND AX_PENDING \<noteq> 0)
         (if flags AND AX_HAVE_START \<noteq> 0 then adxl_start oid else adxl_query oid)))))"

text \<open>The state at power-on.\<close>

definition adxl345_init :: "config \<Rightarrow> (hwreq \<Rightarrow> nat \<Rightarrow> u32) \<Rightarrow> 'a \<Rightarrow> 'a adxl345_state_scheme" where
  "adxl345_init c e m = thermocouple_init c e (adxl345_state_ext (\<lambda>_. adxl345_zero) m)"

end
