(* ===== verification/Mpu9250.thy ===== *)
theory Mpu9250
  imports Adxl345
begin

text \<open>
  MPU-9250 accelerometers on I2C, \<^verbatim>\<open>src/sensor_mpu9250.c\<close>.
\<close>

section \<open>Definitions\<close>

text \<open>The timer is \<open>ObjTimer oid TMain\<close>; \<^verbatim>\<open>i2c\<close> is the oid of the device or null.\<close>

record mpu9250 =
  mp_rest_ticks :: u32
  mp_i2c :: "u8 option"
  mp_sequence :: u16
  mp_limit_count :: u16
  mp_flags :: u8
  mp_data_count :: u8
  mp_data :: "u8 list"

record mpu9250_state = adxl345_state +
  mpu9250s :: "u8 \<Rightarrow> mpu9250"

abbreviation AR_FIFO_SIZE :: nat where "AR_FIFO_SIZE \<equiv> 512"
abbreviation AR_FIFO_EN :: u8 where "AR_FIFO_EN \<equiv> 0x23"
abbreviation AR_USER_CTRL :: u8 where "AR_USER_CTRL \<equiv> 0x6A"
abbreviation AR_FIFO_COUNT_H :: u8 where "AR_FIFO_COUNT_H \<equiv> 0x72"
abbreviation AR_FIFO :: u8 where "AR_FIFO \<equiv> 0x74"
abbreviation SET_ENABLE_FIFO :: u8 where "SET_ENABLE_FIFO \<equiv> 0x08"
abbreviation SET_DISABLE_FIFO :: u8 where "SET_DISABLE_FIFO \<equiv> 0"
abbreviation SET_USER_FIFO_RESET :: u8 where "SET_USER_FIFO_RESET \<equiv> 0x04"
abbreviation SET_USER_FIFO_EN :: u8 where "SET_USER_FIFO_EN \<equiv> 0x40"
abbreviation BYTES_PER_FIFO_ENTRY :: nat where "BYTES_PER_FIFO_ENTRY \<equiv> 6"

definition mpu9250_zero :: mpu9250 where
  "mpu9250_zero = \<lparr>mp_rest_ticks = 0, mp_i2c = None, mp_sequence = 0, mp_limit_count = 0, mp_flags = 0,
     mp_data_count = 0, mp_data = replicate 48 0\<rparr>"

abbreviation mp_timer :: "u8 \<Rightarrow> tref" where "mp_timer oid \<equiv> ObjTimer oid TMain"

definition upd_mpu :: "u8 \<Rightarrow> (mpu9250 \<Rightarrow> mpu9250) \<Rightarrow> ('a mpu9250_state_scheme, unit) prog" where
  "upd_mpu oid f = upd (\<lambda>s. s\<lparr>mpu9250s := (mpu9250s s)(oid := f (mpu9250s s oid))\<rparr>)"

text \<open>The configuration of the device \<^verbatim>\<open>mp->i2c\<close>.\<close>

definition mpu_config :: "u8 \<Rightarrow> ('a mpu9250_state_scheme, i2c_config) prog" where
  "mpu_config oid =
     bnd (gets (\<lambda>s. mp_i2c (mpu9250s s oid))) (\<lambda>p.
     bnd (deref p) (\<lambda>i2c.
     gets (\<lambda>s. i2cdevs s i2c)))"

definition fifo_count :: "u8 list \<Rightarrow> u16" where
  "fifo_count msg = push_bit 8 (ucast (0x1F AND msg ! 0)) OR ucast (msg ! 1)"

definition get_fifo_status :: "u8 \<Rightarrow> ('a mpu9250_state_scheme, u16) prog" where
  "get_fifo_status oid =
     bnd (mpu_config oid) (\<lambda>config.
     bnd (i2c_read config [AR_FIFO_COUNT_H] 2) (\<lambda>msg.
     ret (fifo_count msg)))"

definition mpu9250_event :: "u8 \<Rightarrow> ('a mpu9250_state_scheme, sf) prog" where
  "mpu9250_event oid =
     sq (upd_mpu oid (\<lambda>mp. mp\<lparr>mp_flags := mp_flags mp OR AX_PENDING\<rparr>))
    (sq (sched_wake_task mpu9250_wake)
        (ret SF_DONE))"

definition command_config_mpu9250 :: "u32 list \<Rightarrow> ('a mpu9250_state_scheme, unit) prog" where
  "command_config_mpu9250 args =
     (let oid = ucast (args ! 0) in
      bnd (gets (\<lambda>s. c_sizeof (cfg s) ''mpu9250'')) (\<lambda>sz.
      sq (oid_alloc oid OT_mpu9250 sz)
     (sq (upd_mpu oid (\<lambda>_. mpu9250_zero))
     (sq (set_func (mp_timer oid) Fn_mpu9250_event)
     (bnd (i2cdev_oid_lookup (ucast (args ! 1))) (\<lambda>i2c.
      upd_mpu oid (mp_i2c_update (\<lambda>_. i2c))))))))"

definition mp9250_report :: "u8 \<Rightarrow> ('a mpu9250_state_scheme, unit) prog" where
  "mp9250_report oid =
     bnd (gets (\<lambda>s. mpu9250s s oid)) (\<lambda>mp.
     sq (sendf ''mpu9250_data oid=%c sequence=%hu data=%*s''
           [VInt (ucast oid), VInt (ucast (mp_sequence mp)), VInt (ucast (mp_data_count mp)),
            VPtr (take (unat (mp_data_count mp)) (mp_data mp))])
        (upd_mpu oid (\<lambda>mp. mp\<lparr>mp_data_count := 0, mp_sequence := mp_sequence mp + 1\<rparr>)))"

definition mp9250_status :: "u8 \<Rightarrow> u32 \<Rightarrow> u32 \<Rightarrow> u16 \<Rightarrow> ('a mpu9250_state_scheme, unit) prog" where
  "mp9250_status oid time1 time2 fifo =
     bnd (gets (\<lambda>s. mpu9250s s oid)) (\<lambda>mp.
     sendf ''mpu9250_status oid=%c clock=%u query_ticks=%u next_sequence=%hu buffered=%c fifo=%u limit_count=%hu''
       [VInt (ucast oid), VInt time1, VInt (time2 - time1), VInt (ucast (mp_sequence mp)),
        VInt (ucast (mp_data_count mp)), VInt (ucast fifo), VInt (ucast (mp_limit_count mp))])"

definition mp9250_reschedule_timer :: "u8 \<Rightarrow> ('a mpu9250_state_scheme, unit) prog" where
  "mp9250_reschedule_timer oid =
     bnd timer_read_time (\<lambda>now.
     bnd (gets (\<lambda>s. now + mp_rest_ticks (mpu9250s s oid))) (\<lambda>w.
     sq (set_waketime (mp_timer oid) w)
        (sched_add_timer (mp_timer oid))))"

text \<open>The number of bytes to read: whole packets that are there and fit into the buffer.\<close>

definition mpu_bytes_to_read :: "u16 \<Rightarrow> u8 \<Rightarrow> u8" where
  "mpu_bytes_to_read fifo_bytes data_count =
     (let n = (if unat fifo_bytes < 48 - unat data_count then ucast (fifo_bytes AND 0xff) else 48 - data_count) :: u8
      in n div of_nat BYTES_PER_FIFO_ENTRY * of_nat BYTES_PER_FIFO_ENTRY)"

text \<open>Writing outside the data array has no result.\<close>

definition mp9250_query :: "u8 \<Rightarrow> ('a mpu9250_state_scheme, unit) prog" where
  "mp9250_query oid =
     bnd (get_fifo_status oid) (\<lambda>fifo_bytes.
     sq (whenp (unat fifo_bytes \<ge> AR_FIFO_SIZE - BYTES_PER_FIFO_ENTRY)
           (upd_mpu oid (\<lambda>mp. mp\<lparr>mp_limit_count := mp_limit_count mp + 1\<rparr>)))
    (bnd (gets (\<lambda>s. mpu_bytes_to_read fifo_bytes (mp_data_count (mpu9250s s oid)))) (\<lambda>n.
     sq (whenp (n > 0)
           (bnd (mpu_config oid) (\<lambda>config.
            bnd (i2c_read config [AR_FIFO] (unat n)) (\<lambda>d.
            bnd (gets (\<lambda>s. mpu9250s s oid)) (\<lambda>mp.
            if unat (mp_data_count mp) + unat n > length (mp_data mp) then stuck
            else
              sq (upd_mpu oid (\<lambda>mp. mp\<lparr>mp_data := store_at (mp_data mp) (unat (mp_data_count mp)) d,
                    mp_data_count := mp_data_count mp + n\<rparr>))
             (bnd (gets (\<lambda>s. unat (mp_data_count (mpu9250s s oid)) + BYTES_PER_FIFO_ENTRY > 48)) (\<lambda>full.
              whenp full (mp9250_report oid))))))))
    (if n > 0 \<and> unat n div BYTES_PER_FIFO_ENTRY < unat fifo_bytes div BYTES_PER_FIFO_ENTRY then
       sched_wake_task mpu9250_wake
     else
       bnd (gets (\<lambda>s. mp_flags (mpu9250s s oid) AND AX_RUNNING \<noteq> 0)) (\<lambda>running.
       whenp running
         (sq (sched_del_timer (mp_timer oid))
         (sq (upd_mpu oid (\<lambda>mp. mp\<lparr>mp_flags := mp_flags mp AND NOT AX_PENDING\<rparr>))
             (mp9250_reschedule_timer oid))))))))"

definition mp9250_start :: "u8 \<Rightarrow> ('a mpu9250_state_scheme, unit) prog" where
  "mp9250_start oid =
     sq (sched_del_timer (mp_timer oid))
    (sq (upd_mpu oid (mp_flags_update (\<lambda>_. AX_RUNNING)))
    (bnd (mpu_config oid) (\<lambda>config.
     sq (i2c_write config [AR_FIFO_EN, SET_DISABLE_FIFO])
    (sq (i2c_write config [AR_USER_CTRL, SET_USER_FIFO_RESET])
    (sq (i2c_write config [AR_USER_CTRL, SET_USER_FIFO_EN])
    (sq (i2c_write config [AR_FIFO_EN, SET_ENABLE_FIFO])
        (mp9250_reschedule_timer oid)))))))"

text \<open>The loop that drains the FIFO; it may run as long as the chip reports data.\<close>

definition mp9250_drain :: "u8 \<Rightarrow> u16 \<Rightarrow> ('a mpu9250_state_scheme, u16) prog" where
  "mp9250_drain oid =
     loopp (\<lambda>fifo_bytes.
       if unat fifo_bytes \<ge> BYTES_PER_FIFO_ENTRY then
         sq (mp9250_query oid)
        (bnd (get_fifo_status oid) (\<lambda>n. ret (Inl n)))
       else ret (Inr fifo_bytes))"

definition mp9250_stop :: "u8 \<Rightarrow> ('a mpu9250_state_scheme, unit) prog" where
  "mp9250_stop oid =
     sq (sched_del_timer (mp_timer oid))
    (sq (upd_mpu oid (mp_flags_update (\<lambda>_. 0)))
    (bnd timer_read_time (\<lambda>end1_time.
     bnd (mpu_config oid) (\<lambda>config.
     sq (i2c_write config [AR_FIFO_EN, SET_DISABLE_FIFO])
    (bnd timer_read_time (\<lambda>end2_time.
     bnd (get_fifo_status oid) (\<lambda>n.
     bnd (mp9250_drain oid n) (\<lambda>fifo_bytes.
     bnd (gets (\<lambda>s. mp_data_count (mpu9250s s oid))) (\<lambda>data_count.
     sq (whenp (data_count > 0) (mp9250_report oid))
        (mp9250_status oid end1_time end2_time (fifo_bytes div of_nat BYTES_PER_FIFO_ENTRY)))))))))))"

definition command_query_mpu9250 :: "u32 list \<Rightarrow> ('a mpu9250_state_scheme, unit) prog" where
  "command_query_mpu9250 args =
     bnd (obj_lookup (ucast (args ! 0)) OT_mpu9250) (\<lambda>oid.
     if args ! 2 = 0 then mp9250_stop oid
     else
       sq (sched_del_timer (mp_timer oid))
      (sq (set_waketime (mp_timer oid) (args ! 1))
      (sq (upd_mpu oid (\<lambda>mp. mp\<lparr>mp_rest_ticks := args ! 2, mp_flags := AX_HAVE_START, mp_limit_count := 0,
             mp_sequence := 0, mp_data_count := 0\<rparr>))
          (sched_add_timer (mp_timer oid)))))"

definition command_query_mpu9250_status :: "u32 list \<Rightarrow> ('a mpu9250_state_scheme, unit) prog" where
  "command_query_mpu9250_status args =
     bnd (obj_lookup (ucast (args ! 0)) OT_mpu9250) (\<lambda>oid.
     bnd timer_read_time (\<lambda>time1.
     bnd (mpu_config oid) (\<lambda>config.
     bnd (i2c_read config [AR_FIFO_COUNT_H] 2) (\<lambda>msg.
     bnd timer_read_time (\<lambda>time2.
     mp9250_status oid time1 time2 (fifo_count msg div of_nat BYTES_PER_FIFO_ENTRY))))))"

definition mpu9250_task :: "('a mpu9250_state_scheme, unit) prog" where
  "mpu9250_task =
     bnd (sched_check_wake mpu9250_wake) (\<lambda>w.
     whenp w (foreach_oid OT_mpu9250 (\<lambda>oid.
       bnd (gets (\<lambda>s. mp_flags (mpu9250s s oid))) (\<lambda>flags.
       whenp (flags AND AX_PENDING \<noteq> 0)
         (if flags AND AX_HAVE_START \<noteq> 0 then mp9250_start oid else mp9250_query oid)))))"

text \<open>The state at power-on.\<close>

definition mpu9250_init :: "config \<Rightarrow> (hwreq \<Rightarrow> nat \<Rightarrow> u32) \<Rightarrow> 'a \<Rightarrow> 'a mpu9250_state_scheme" where
  "mpu9250_init c e m = adxl345_init c e (mpu9250_state_ext (\<lambda>_. mpu9250_zero) m)"

end
