(* ===== verification/Sensor_angle.thy ===== *)
theory Sensor_angle
  imports Mpu9250
begin

text \<open>
  Magnetic angle sensors on SPI, \<^verbatim>\<open>src/sensor_angle.c\<close>.
\<close>

section \<open>Data\<close>

text \<open>The timer is \<open>ObjTimer oid TMain\<close>; \<^verbatim>\<open>spi\<close> is the oid of the device or null.\<close>

record spi_angle =
  sa_rest_ticks :: u32
  sa_spi :: "u8 option"
  sa_sequence :: u16
  sa_flags :: u8
  sa_chip_type :: u8
  sa_data_count :: u8
  sa_time_shift :: u8
  sa_overflow :: u8
  sa_data :: "u8 list"

record angle_state = mpu9250_state +
  spi_angles :: "u8 \<Rightarrow> spi_angle"

abbreviation SA_CHIP_A1333 :: u8 where "SA_CHIP_A1333 \<equiv> 0"
abbreviation SA_CHIP_AS5047D :: u8 where "SA_CHIP_AS5047D \<equiv> 1"
abbreviation SA_CHIP_TLE5012B :: u8 where "SA_CHIP_TLE5012B \<equiv> 2"
abbreviation SA_CHIP_MAX :: u8 where "SA_CHIP_MAX \<equiv> 3"
abbreviation TCODE_ERROR :: u32 where "TCODE_ERROR \<equiv> 0xff"
abbreviation SE_OVERFLOW :: u16 where "SE_OVERFLOW \<equiv> 0"
abbreviation SE_SCHEDULE :: u16 where "SE_SCHEDULE \<equiv> 1"
abbreviation SE_SPI_TIME :: u16 where "SE_SPI_TIME \<equiv> 2"
abbreviation SE_CRC :: u16 where "SE_CRC \<equiv> 3"
abbreviation SE_DUP :: u16 where "SE_DUP \<equiv> 4"
abbreviation SE_NO_ANGLE :: u16 where "SE_NO_ANGLE \<equiv> 5"
abbreviation SA_PENDING :: u8 where "SA_PENDING \<equiv> 4"

abbreviation MAX_SPI_READ_TIME :: "'a hw_scheme \<Rightarrow> u32" where
  "MAX_SPI_READ_TIME s \<equiv> timer_from_us s 50"

definition spi_angle_zero :: spi_angle where
  "spi_angle_zero = \<lparr>sa_rest_ticks = 0, sa_spi = None, sa_sequence = 0, sa_flags = 0, sa_chip_type = 0,
     sa_data_count = 0, sa_time_shift = 0, sa_overflow = 0, sa_data = replicate 48 0\<rparr>"

abbreviation sa_timer :: "u8 \<Rightarrow> tref" where "sa_timer oid \<equiv> ObjTimer oid TMain"

definition upd_angle :: "u8 \<Rightarrow> (spi_angle \<Rightarrow> spi_angle) \<Rightarrow> ('a angle_state_scheme, unit) prog" where
  "upd_angle oid f = upd (\<lambda>s. s\<lparr>spi_angles := (spi_angles s)(oid := f (spi_angles s oid))\<rparr>)"

section \<open>Measurement buffer\<close>

definition angle_event :: "u8 \<Rightarrow> ('a angle_state_scheme, sf) prog" where
  "angle_event oid =
     sq (upd_angle oid (\<lambda>sa. if sa_flags sa AND SA_PENDING \<noteq> 0 then sa\<lparr>sa_overflow := sa_overflow sa + 1\<rparr>
           else sa\<lparr>sa_flags := sa_flags sa OR SA_PENDING\<rparr>))
    (sq (sched_wake_task angle_wake)
    (bnd (gets (\<lambda>s. sa_rest_ticks (spi_angles s oid))) (\<lambda>rest.
     sq (add_waketime (sa_timer oid) rest)
        (ret SF_RESCHEDULE))))"

definition command_config_spi_angle :: "u32 list \<Rightarrow> ('a angle_state_scheme, unit) prog" where
  "command_config_spi_angle args =
     (let oid = ucast (args ! 0); chip_type = ucast (args ! 2) :: u8 in
      if chip_type > SA_CHIP_MAX then shutdown ''Invalid spi_angle chip type''
      else
        bnd (gets (\<lambda>s. c_sizeof (cfg s) ''spi_angle'')) (\<lambda>sz.
        sq (oid_alloc oid OT_spi_angle sz)
       (sq (upd_angle oid (\<lambda>_. spi_angle_zero))
       (sq (set_func (sa_timer oid) Fn_angle_event)
       (bnd (spidev_oid_lookup (ucast (args ! 1))) (\<lambda>p.
        sq (upd_angle oid (sa_spi_update (\<lambda>_. p)))
       (bnd (deref p) (\<lambda>spi.
        bnd (gets (\<lambda>s. spidev_have_cs_pin (spidevs s spi))) (\<lambda>have.
        if \<not> have then shutdown ''angle sensor requires cs pin''
        else upd_angle oid (sa_chip_type_update (\<lambda>_. chip_type)))))))))))"

definition angle_report :: "u8 \<Rightarrow> ('a angle_state_scheme, unit) prog" where
  "angle_report oid =
     bnd (gets (\<lambda>s. spi_angles s oid)) (\<lambda>sa.
     sq (sendf ''spi_angle_data oid=%c sequence=%hu data=%*s''
           [VInt (ucast oid), VInt (ucast (sa_sequence sa)), VInt (ucast (sa_data_count sa)),
            VPtr (take (unat (sa_data_count sa)) (sa_data sa))])
        (upd_angle oid (\<lambda>sa. sa\<lparr>sa_data_count := 0, sa_sequence := sa_sequence sa + 1\<rparr>)))"

definition angle_check_report :: "u8 \<Rightarrow> ('a angle_state_scheme, unit) prog" where
  "angle_check_report oid =
     bnd (gets (\<lambda>s. unat (sa_data_count (spi_angles s oid)) + 3 > 48)) (\<lambda>full.
     whenp full (angle_report oid))"

text \<open>Writing outside the data array has no result.\<close>

definition angle_add :: "u8 \<Rightarrow> u8 \<Rightarrow> u16 \<Rightarrow> ('a angle_state_scheme, unit) prog" where
  "angle_add oid tcode data =
     bnd (gets (\<lambda>s. spi_angles s oid)) (\<lambda>sa.
     if unat (sa_data_count sa) + 3 > length (sa_data sa) then stuck
     else
       upd_angle oid (\<lambda>sa. sa\<lparr>
         sa_data := store_at (sa_data sa) (unat (sa_data_count sa)) [tcode, ucast data, ucast (drop_bit 8 data)],
         sa_data_count := sa_data_count sa + 3\<rparr>))"

definition angle_add_error :: "u8 \<Rightarrow> u16 \<Rightarrow> ('a angle_state_scheme, unit) prog" where
  "angle_add_error oid error_code = angle_add oid (ucast TCODE_ERROR) error_code"

text \<open>A shift by 32 or more is undefined in C: no result.\<close>

definition angle_add_data :: "u8 \<Rightarrow> u32 \<Rightarrow> u32 \<Rightarrow> u16 \<Rightarrow> ('a angle_state_scheme, unit) prog" where
  "angle_add_data oid stime mtime angle =
     bnd (gets (\<lambda>s. unat (sa_time_shift (spi_angles s oid)))) (\<lambda>shift.
     if shift \<ge> 32 then stuck
     else
       (let tdiff0 = mtime - stime;
            tdiff = (if shift \<noteq> 0 then drop_bit shift (tdiff0 + push_bit (shift - 1) 1) else tdiff0)
        in if tdiff \<ge> TCODE_ERROR then angle_add_error oid SE_SCHEDULE
           else angle_add oid (ucast tdiff) angle))"

section \<open>Chips\<close>

definition angle_spi :: "u8 \<Rightarrow> ('a angle_state_scheme, u8) prog" where
  "angle_spi oid = bnd (gets (\<lambda>s. sa_spi (spi_angles s oid))) deref"

definition a1333_query :: "u8 \<Rightarrow> u32 \<Rightarrow> ('a angle_state_scheme, unit) prog" where
  "a1333_query oid stime =
     bnd timer_read_time (\<lambda>mtime1.
     bnd (angle_spi oid) (\<lambda>spi.
     bnd (spidev_transfer spi True [0x32, 0]) (\<lambda>msg.
     bnd timer_read_time (\<lambda>mtime2.
     bnd (gets MAX_SPI_READ_TIME) (\<lambda>maxtime.
     if mtime2 - mtime1 > maxtime then angle_add_error oid SE_SPI_TIME
     else if msg ! 0 AND 0x80 \<noteq> 0 then angle_add_error oid SE_CRC
     else angle_add_data oid stime mtime1 (push_bit 9 (ucast (msg ! 0)) OR push_bit 1 (ucast (msg ! 1))))))))"

definition parity8 :: "u8 \<Rightarrow> u8" where
  "parity8 p =
     (let p = p XOR drop_bit 4 p; p = p XOR drop_bit 2 p in p XOR drop_bit 1 p)"

definition as5047d_query :: "u8 \<Rightarrow> u32 \<Rightarrow> ('a angle_state_scheme, unit) prog" where
  "as5047d_query oid stime =
     bnd timer_read_time (\<lambda>mtime1.
     bnd (angle_spi oid) (\<lambda>spi.
     sq (spidev_transfer spi False [0x7F, 0xFE])
    (bnd timer_read_time (\<lambda>mtime2.
     bnd (gets MAX_SPI_READ_TIME) (\<lambda>maxtime.
     if mtime2 - mtime1 > maxtime then angle_add_error oid SE_SPI_TIME
     else
       bnd (spidev_transfer spi True [0xC0, 0]) (\<lambda>msg.
       if parity8 (msg ! 0 XOR msg ! 1) AND 1 \<noteq> 0 then angle_add_error oid SE_CRC
       else if msg ! 0 AND 0x40 \<noteq> 0 then angle_add_error oid SE_NO_ANGLE
       else angle_add_data oid stime mtime2 (push_bit 10 (ucast (msg ! 0)) OR push_bit 2 (ucast (msg ! 1)))))))))"

abbreviation TLE_READ :: u8 where "TLE_READ \<equiv> 0x80"
abbreviation TLE_READ_LATCH :: u8 where "TLE_READ_LATCH \<equiv> TLE_READ OR 4"
abbreviation TLE_REG_AVAL :: u8 where "TLE_REG_AVAL \<equiv> 2"

primrec crc8_loop :: "nat \<Rightarrow> u8 \<Rightarrow> u8" where
  "crc8_loop 0 crc = crc"
| "crc8_loop (Suc n) crc =
     crc8_loop n (if crc AND 0x80 \<noteq> 0 then push_bit 1 crc XOR 0x1d else push_bit 1 crc)"

definition crc8 :: "u8 \<Rightarrow> u8 \<Rightarrow> u8" where
  "crc8 crc data = crc8_loop 8 (crc XOR data)"

definition udelay :: "('a hw_scheme, unit) prog \<Rightarrow> u32 \<Rightarrow> ('a hw_scheme, unit) prog" where
  "udelay irq_poll usecs =
     bnd timer_read_time (\<lambda>t.
     bnd (gets (\<lambda>s. t + timer_from_us s usecs)) (\<lambda>end_time.
     loopp (\<lambda>_.
       bnd timer_read_time (\<lambda>now.
       if \<not> timer_is_before end_time now then sq irq_poll (ret (Inl ())) else ret (Inr ()))) ()))"

text \<open>Latch the angle by a pulse on the chip select pin: the time of the rising edge.\<close>

definition tle_latch :: "('a angle_state_scheme, unit) prog \<Rightarrow> u8 \<Rightarrow> ('a angle_state_scheme, u32) prog" where
  "tle_latch irq_poll spi =
     bnd (gets (\<lambda>s. spidev_get_cs_pin (spidevs s spi))) (\<lambda>cs_pin.
     sq (gpio_out_write cs_pin 0)
    (sq (udelay irq_poll 1)
    (sq (gpio_out_write cs_pin 1)
        timer_read_time)))"

definition tle5012b_query :: "('a angle_state_scheme, unit) prog \<Rightarrow> u8 \<Rightarrow> u32 \<Rightarrow> ('a angle_state_scheme, unit) prog" where
  "tle5012b_query irq_poll oid stime =
     bnd (angle_spi oid) (\<lambda>spi.
     bnd (tle_latch irq_poll spi) (\<lambda>mtime.
     bnd (spidev_transfer spi True [TLE_READ_LATCH, push_bit 4 TLE_REG_AVAL OR 3, 0, 0, 0, 0, 0, 0, 0, 0]) (\<lambda>msg.
     let crc = fold (\<lambda>i crc. crc8 crc (msg ! i)) [2..<8] 0x05 in
     bnd (gets (\<lambda>s. timer_from_us s (32 * 32 * 1000000 div 750000))) (\<lambda>maxtime.
     if NOT crc \<noteq> msg ! 9 then angle_add_error oid SE_CRC
     else if msg ! 8 AND 16 = 0 then angle_add_error oid SE_NO_ANGLE
     else if msg ! 2 AND 0x80 = 0 then angle_add_error oid SE_DUP
     else if mtime - stime > maxtime then angle_add_error oid SE_SCHEDULE
     else angle_add oid (drop_bit 1 (msg ! 6) AND 0x3f)
            (push_bit 9 (ucast (msg ! 2)) OR push_bit 1 (ucast (msg ! 3)))))))"

section \<open>Commands and task\<close>

definition command_query_spi_angle :: "u32 list \<Rightarrow> ('a angle_state_scheme, unit) prog" where
  "command_query_spi_angle args =
     bnd (obj_lookup (ucast (args ! 0)) OT_spi_angle) (\<lambda>oid.
     sq (sched_del_timer (sa_timer oid))
    (sq (upd_angle oid (sa_flags_update (\<lambda>_. 0)))
    (if args ! 2 = 0 then
       bnd (gets (\<lambda>s. sa_data_count (spi_angles s oid))) (\<lambda>n.
       sq (whenp (n \<noteq> 0) (angle_report oid))
      (bnd (gets (\<lambda>s. sa_sequence (spi_angles s oid))) (\<lambda>sequence.
       sendf ''spi_angle_end oid=%c sequence=%hu'' [VInt (ucast oid), VInt (ucast sequence)])))
     else
       sq (set_waketime (sa_timer oid) (args ! 1))
      (sq (upd_angle oid (\<lambda>sa. sa\<lparr>sa_rest_ticks := args ! 2, sa_sequence := 0, sa_data_count := 0,
             sa_time_shift := ucast (args ! 3)\<rparr>))
          (sched_add_timer (sa_timer oid))))))"

definition command_spi_angle_transfer :: "('a angle_state_scheme, unit) prog \<Rightarrow> u32 list \<Rightarrow> ('a angle_state_scheme, unit) prog" where
  "command_spi_angle_transfer irq_poll args =
     bnd (obj_lookup (ucast (args ! 0)) OT_spi_angle) (\<lambda>oid.
     bnd (msg_bytes (args ! 2) (ucast (args ! 1))) (\<lambda>data.
     bnd (gets (\<lambda>s. sa_chip_type (spi_angles s oid))) (\<lambda>chip.
     bnd (angle_spi oid) (\<lambda>spi.
     bnd (if chip = SA_CHIP_TLE5012B then
            bnd (tle_latch irq_poll spi) (\<lambda>mtime.
            bnd (spidev_transfer spi True data) (\<lambda>data'.
            ret (mtime, length data, data')))
          else
            bnd timer_read_time (\<lambda>mtime1.
            bnd (spidev_transfer spi True data) (\<lambda>data'.
            bnd timer_read_time (\<lambda>mtime2.
            bnd (gets MAX_SPI_READ_TIME) (\<lambda>maxtime.
            ret (if chip = SA_CHIP_AS5047D then mtime2 else mtime1,
                 if mtime2 - mtime1 > maxtime then 0 else length data, data')))))) (\<lambda>(mtime, data_len, data').
     sq (msg_store (args ! 2) data')
        (sendf ''spi_angle_transfer_response oid=%c clock=%u response=%*s''
          [VInt (ucast oid), VInt mtime, VInt (of_nat data_len), VPtr (take data_len data')]))))))"

primrec angle_overflows :: "nat \<Rightarrow> u8 \<Rightarrow> ('a angle_state_scheme, unit) prog" where
  "angle_overflows 0 oid = ret ()"
| "angle_overflows (Suc n) oid =
     sq (angle_add_error oid SE_OVERFLOW)
    (sq (angle_check_report oid)
        (angle_overflows n oid))"

definition spi_angle_task :: "('a angle_state_scheme, unit) prog \<Rightarrow> ('a angle_state_scheme, unit) prog" where
  "spi_angle_task irq_poll =
     bnd (sched_check_wake angle_wake) (\<lambda>w.
     whenp w (foreach_oid OT_spi_angle (\<lambda>oid.
       bnd (gets (\<lambda>s. spi_angles s oid)) (\<lambda>sa.
       whenp (sa_flags sa AND SA_PENDING \<noteq> 0)
         (bnd (gets (\<lambda>s. wake s (sa_timer oid) - sa_rest_ticks sa)) (\<lambda>stime.
          sq (upd_angle oid (\<lambda>sa. sa\<lparr>sa_flags := 0, sa_overflow := 0\<rparr>))
         (sq (angle_overflows (unat (sa_overflow sa)) oid)
         (sq (if sa_chip_type sa = SA_CHIP_A1333 then a1333_query oid stime
              else if sa_chip_type sa = SA_CHIP_AS5047D then as5047d_query oid stime
              else if sa_chip_type sa = SA_CHIP_TLE5012B then tle5012b_query irq_poll oid stime
              else ret ())
             (angle_check_report oid)))))))))"

text \<open>The state at power-on.\<close>

definition angle_init :: "config \<Rightarrow> (hwreq \<Rightarrow> nat \<Rightarrow> u32) \<Rightarrow> 'a \<Rightarrow> 'a angle_state_scheme" where
  "angle_init c e m = mpu9250_init c e (angle_state_ext (\<lambda>_. spi_angle_zero) m)"

end
