(* ===== verification/Lcd.thy ===== *)
theory Lcd
  imports Sensor_angle
begin

text \<open>
  Bit-banged displays: \<^verbatim>\<open>src/lcd_st7920.c\<close> (serial) and \<^verbatim>\<open>src/lcd_hd44780.c\<close>
  (four parallel data lines).  Both drive their lines by toggling them.
\<close>

section \<open>Data\<close>

record st7920 =
  lc_last_cmd_time :: u32
  lc_sync_wait_ticks :: u32
  lc_cmd_wait_ticks :: u32
  lc_sclk :: u32
  lc_sid :: u32

record hd44780 =
  hd_last_cmd_time :: u32
  hd_cmd_wait_ticks :: u32
  hd_last :: u8
  hd_rs :: u32
  hd_e :: u32
  hd_d4 :: u32
  hd_d5 :: u32
  hd_d6 :: u32
  hd_d7 :: u32

record lcd_state = angle_state +
  st7920s :: "u8 \<Rightarrow> st7920"
  hd44780s :: "u8 \<Rightarrow> hd44780"

definition st7920_zero :: st7920 where
  "st7920_zero = \<lparr>lc_last_cmd_time = 0, lc_sync_wait_ticks = 0, lc_cmd_wait_ticks = 0, lc_sclk = 0, lc_sid = 0\<rparr>"

definition hd44780_zero :: hd44780 where
  "hd44780_zero = \<lparr>hd_last_cmd_time = 0, hd_cmd_wait_ticks = 0, hd_last = 0, hd_rs = 0, hd_e = 0, hd_d4 = 0,
     hd_d5 = 0, hd_d6 = 0, hd_d7 = 0\<rparr>"

definition upd_st7920 :: "u8 \<Rightarrow> (st7920 \<Rightarrow> st7920) \<Rightarrow> ('a lcd_state_scheme, unit) prog" where
  "upd_st7920 oid f = upd (\<lambda>s. s\<lparr>st7920s := (st7920s s)(oid := f (st7920s s oid))\<rparr>)"

definition upd_hd44780 :: "u8 \<Rightarrow> (hd44780 \<Rightarrow> hd44780) \<Rightarrow> ('a lcd_state_scheme, unit) prog" where
  "upd_hd44780 oid f = upd (\<lambda>s. s\<lparr>hd44780s := (hd44780s s)(oid := f (hd44780s s oid))\<rparr>)"

section \<open>Delays\<close>

definition nsecs_to_ticks :: "'a hw_scheme \<Rightarrow> u32 \<Rightarrow> u32" where
  "nsecs_to_ticks s ns = timer_from_us s (ns * 1000) div 1000000"

text \<open>\<open>irq_poll\<close> is the board's hook for pending work.\<close>

definition ndelay :: "('a hw_scheme, unit) prog \<Rightarrow> u32 \<Rightarrow> ('a hw_scheme, unit) prog" where
  "ndelay irq_poll nsecs =
     bnd (gets cfg) (\<lambda>c.
     if CONFIG_MACH_AVR c then ret ()
     else
       bnd timer_read_time (\<lambda>t.
       bnd (gets (\<lambda>s. t + nsecs_to_ticks s nsecs)) (\<lambda>end_time.
       loopp (\<lambda>_.
         bnd timer_read_time (\<lambda>now.
         if timer_is_before now end_time then sq irq_poll (ret (Inl ())) else ret (Inr ()))) ())))"

definition wait_ticks :: "('a hw_scheme, unit) prog \<Rightarrow> u32 \<Rightarrow> u32 \<Rightarrow> ('a hw_scheme, unit) prog" where
  "wait_ticks irq_poll last_cmd_time ticks =
     loopp (\<lambda>_.
       bnd timer_read_time (\<lambda>now.
       if now - last_cmd_time < ticks then sq irq_poll (ret (Inl ())) else ret (Inr ()))) ()"

section \<open>ST7920\<close>

abbreviation SYNC_CMD :: u8 where "SYNC_CMD \<equiv> 0xf8"
abbreviation SYNC_DATA :: u8 where "SYNC_DATA \<equiv> 0xfa"

primrec st7920_xmit_bits :: "('a hw_scheme, unit) prog \<Rightarrow> u32 \<Rightarrow> u32 \<Rightarrow> nat \<Rightarrow> u8 \<Rightarrow> ('a hw_scheme, unit) prog" where
  "st7920_xmit_bits irq_poll sclk sid 0 data = ret ()"
| "st7920_xmit_bits irq_poll sclk sid (Suc n) data =
     sq (whenp (data AND 0x80 \<noteq> 0) (gpio_out_toggle_noirq sid))
    (let data' = (if data AND 0x80 \<noteq> 0 then NOT data else data) in
     sq (ndelay irq_poll 200)
    (sq (gpio_out_toggle_noirq sclk)
    (sq (ndelay irq_poll 200)
    (sq (gpio_out_toggle_noirq sclk)
        (st7920_xmit_bits irq_poll sclk sid n (push_bit 1 data'))))))"

definition st7920_xmit_byte :: "('a lcd_state_scheme, unit) prog \<Rightarrow> u8 \<Rightarrow> u8 \<Rightarrow> ('a lcd_state_scheme, unit) prog" where
  "st7920_xmit_byte irq_poll oid data =
     bnd (gets (\<lambda>s. st7920s s oid)) (\<lambda>d.
     st7920_xmit_bits irq_poll (lc_sclk d) (lc_sid d) 8 data)"

text \<open>One command byte: the two halves with the wait between them; the time it was complete.\<close>

definition st7920_xmit_cmd :: "('a lcd_state_scheme, unit) prog \<Rightarrow> u8 \<Rightarrow> u32 \<Rightarrow> u32 \<Rightarrow> u8 \<Rightarrow> ('a lcd_state_scheme, u32) prog" where
  "st7920_xmit_cmd irq_poll oid last_cmd_time ticks cmd =
     sq (st7920_xmit_byte irq_poll oid (cmd AND 0xf0))
    (sq (wait_ticks irq_poll last_cmd_time ticks)
    (sq (st7920_xmit_byte irq_poll oid (push_bit 4 cmd))
        timer_read_time))"

primrec st7920_xmit_rest :: "('a lcd_state_scheme, unit) prog \<Rightarrow> u8 \<Rightarrow> u32 \<Rightarrow> u32 \<Rightarrow> u8 list \<Rightarrow> ('a lcd_state_scheme, u32) prog" where
  "st7920_xmit_rest irq_poll oid last_cmd_time ticks [] = ret last_cmd_time"
| "st7920_xmit_rest irq_poll oid last_cmd_time ticks (cmd # cmds) =
     bnd (st7920_xmit_cmd irq_poll oid last_cmd_time ticks cmd) (\<lambda>t.
     st7920_xmit_rest irq_poll oid t ticks cmds)"

definition st7920_xmit :: "('a lcd_state_scheme, unit) prog \<Rightarrow> u8 \<Rightarrow> u8 list \<Rightarrow> ('a lcd_state_scheme, unit) prog" where
  "st7920_xmit irq_poll oid cmds =
     (case cmds of
        [] \<Rightarrow> ret ()
      | cmd # cmds' \<Rightarrow>
          bnd (gets (\<lambda>s. st7920s s oid)) (\<lambda>d.
          bnd (st7920_xmit_cmd irq_poll oid (lc_last_cmd_time d) (lc_sync_wait_ticks d) cmd) (\<lambda>t.
          bnd (st7920_xmit_rest irq_poll oid t (lc_cmd_wait_ticks d) cmds') (\<lambda>t'.
          upd_st7920 oid (lc_last_cmd_time_update (\<lambda>_. t'))))))"

definition command_config_st7920 :: "('a lcd_state_scheme, unit) prog \<Rightarrow> u32 list \<Rightarrow> ('a lcd_state_scheme, unit) prog" where
  "command_config_st7920 irq_poll args =
     (let oid = ucast (args ! 0) in
      bnd (gets cfg) (\<lambda>c.
      sq (oid_alloc oid OT_st7920 (c_sizeof c ''st7920''))
     (sq (upd_st7920 oid (\<lambda>_. st7920_zero))
     (sq (hw_setup (GpioOutSetup (args ! 2) 0))
     (sq (upd_st7920 oid (lc_sclk_update (\<lambda>_. args ! 2)))
     (sq (hw_setup (GpioOutSetup (args ! 3) 0))
     (sq (upd_st7920 oid (lc_sid_update (\<lambda>_. args ! 3)))
     (sq (hw_setup (GpioOutSetup (args ! 1) 1))
     (if \<not> CONFIG_HAVE_STRICT_TIMING c then
        upd_st7920 oid (\<lambda>d. d\<lparr>lc_sync_wait_ticks := args ! 4, lc_cmd_wait_ticks := args ! 5\<rparr>)
      else
        sq (st7920_xmit_byte irq_poll oid SYNC_CMD)
       (sq (st7920_xmit_byte irq_poll oid 0x20)
       (bnd timer_read_time (\<lambda>start.
        sq (st7920_xmit_byte irq_poll oid 0x00)
       (bnd timer_read_time (\<lambda>end_time.
        let diff = end_time - start in
        upd_st7920 oid (\<lambda>d. d\<lparr>lc_last_cmd_time := end_time,
          lc_sync_wait_ticks := (if args ! 4 > diff then args ! 4 - diff else lc_sync_wait_ticks d),
          lc_cmd_wait_ticks := (if args ! 5 > diff then args ! 5 - diff else lc_cmd_wait_ticks d)\<rparr>)))))))))))))))"

definition command_st7920_send_cmds :: "('a lcd_state_scheme, unit) prog \<Rightarrow> u32 list \<Rightarrow> ('a lcd_state_scheme, unit) prog" where
  "command_st7920_send_cmds irq_poll args =
     bnd (obj_lookup (ucast (args ! 0)) OT_st7920) (\<lambda>oid.
     sq (st7920_xmit_byte irq_poll oid SYNC_CMD)
    (bnd (msg_bytes (args ! 2) (ucast (args ! 1))) (st7920_xmit irq_poll oid)))"

definition command_st7920_send_data :: "('a lcd_state_scheme, unit) prog \<Rightarrow> u32 list \<Rightarrow> ('a lcd_state_scheme, unit) prog" where
  "command_st7920_send_data irq_poll args =
     bnd (obj_lookup (ucast (args ! 0)) OT_st7920) (\<lambda>oid.
     sq (st7920_xmit_byte irq_poll oid SYNC_DATA)
    (bnd (msg_bytes (args ! 2) (ucast (args ! 1))) (st7920_xmit irq_poll oid)))"

definition st7920_shutdown :: "('a lcd_state_scheme, unit) prog" where
  "st7920_shutdown =
     foreach_oid OT_st7920 (\<lambda>oid.
       bnd (gets (\<lambda>s. st7920s s oid)) (\<lambda>d.
       sq (gpio_out_write (lc_sclk d) 0)
          (gpio_out_write (lc_sid d) 0)))"

section \<open>HD44780\<close>

definition hd44780_xmit_bits :: "('a lcd_state_scheme, unit) prog \<Rightarrow> u8 \<Rightarrow> hd44780 \<Rightarrow> ('a lcd_state_scheme, unit) prog" where
  "hd44780_xmit_bits irq_poll toggle h =
     sq (gpio_out_toggle_noirq (hd_e h))
    (sq (whenp (toggle AND 0x10 \<noteq> 0) (gpio_out_toggle_noirq (hd_d4 h)))
    (sq (whenp (toggle AND 0x20 \<noteq> 0) (gpio_out_toggle_noirq (hd_d5 h)))
    (sq (whenp (toggle AND 0x40 \<noteq> 0) (gpio_out_toggle_noirq (hd_d6 h)))
    (sq (whenp (toggle AND 0x80 \<noteq> 0) (gpio_out_toggle_noirq (hd_d7 h)))
    (sq (ndelay irq_poll 230)
        (gpio_out_toggle_noirq (hd_e h)))))))"

definition hd44780_xmit_byte :: "('a lcd_state_scheme, unit) prog \<Rightarrow> u8 \<Rightarrow> u8 \<Rightarrow> ('a lcd_state_scheme, unit) prog" where
  "hd44780_xmit_byte irq_poll oid data =
     bnd (gets (\<lambda>s. hd44780s s oid)) (\<lambda>h.
     sq (hd44780_xmit_bits irq_poll (hd_last h XOR data) h)
    (sq (upd_hd44780 oid (hd_last_update (\<lambda>_. push_bit 4 data)))
    (sq (ndelay irq_poll (500 - 230))
        (hd44780_xmit_bits irq_poll (data XOR push_bit 4 data) h))))"

primrec hd44780_xmit_loop :: "('a lcd_state_scheme, unit) prog \<Rightarrow> u8 \<Rightarrow> u32 \<Rightarrow> u32 \<Rightarrow> u8 list \<Rightarrow> ('a lcd_state_scheme, u32) prog" where
  "hd44780_xmit_loop irq_poll oid last_cmd_time ticks [] = ret last_cmd_time"
| "hd44780_xmit_loop irq_poll oid last_cmd_time ticks (b # bs) =
     sq (wait_ticks irq_poll last_cmd_time ticks)
    (sq (hd44780_xmit_byte irq_poll oid b)
    (bnd timer_read_time (\<lambda>t.
     hd44780_xmit_loop irq_poll oid t ticks bs)))"

definition hd44780_xmit :: "('a lcd_state_scheme, unit) prog \<Rightarrow> u8 \<Rightarrow> u8 list \<Rightarrow> ('a lcd_state_scheme, unit) prog" where
  "hd44780_xmit irq_poll oid data =
     bnd (gets (\<lambda>s. hd44780s s oid)) (\<lambda>h.
     bnd (hd44780_xmit_loop irq_poll oid (hd_last_cmd_time h) (hd_cmd_wait_ticks h) data) (\<lambda>t.
     upd_hd44780 oid (hd_last_cmd_time_update (\<lambda>_. t))))"

definition command_config_hd44780 :: "('a lcd_state_scheme, unit) prog \<Rightarrow> u32 list \<Rightarrow> ('a lcd_state_scheme, unit) prog" where
  "command_config_hd44780 irq_poll args =
     (let oid = ucast (args ! 0) in
      bnd (gets cfg) (\<lambda>c.
      sq (oid_alloc oid OT_hd44780 (c_sizeof c ''hd44780''))
     (sq (upd_hd44780 oid (\<lambda>_. hd44780_zero))
     (sq (hw_setup (GpioOutSetup (args ! 1) 0))
     (sq (upd_hd44780 oid (hd_rs_update (\<lambda>_. args ! 1)))
     (sq (hw_setup (GpioOutSetup (args ! 2) 0))
     (sq (upd_hd44780 oid (hd_e_update (\<lambda>_. args ! 2)))
     (sq (hw_setup (GpioOutSetup (args ! 3) 0))
     (sq (upd_hd44780 oid (hd_d4_update (\<lambda>_. args ! 3)))
     (sq (hw_setup (GpioOutSetup (args ! 4) 0))
     (sq (upd_hd44780 oid (hd_d5_update (\<lambda>_. args ! 4)))
     (sq (hw_setup (GpioOutSetup (args ! 5) 0))
     (sq (upd_hd44780 oid (hd_d6_update (\<lambda>_. args ! 5)))
     (sq (hw_setup (GpioOutSetup (args ! 6) 0))
     (sq (upd_hd44780 oid (hd_d7_update (\<lambda>_. args ! 6)))
     (if \<not> CONFIG_HAVE_STRICT_TIMING c then upd_hd44780 oid (hd_cmd_wait_ticks_update (\<lambda>_. args ! 7))
      else
        bnd timer_read_time (\<lambda>start.
        sq (hd44780_xmit_byte irq_poll oid 0)
       (bnd timer_read_time (\<lambda>end_time.
        whenp (args ! 7 > end_time - start)
          (upd_hd44780 oid (hd_cmd_wait_ticks_update (\<lambda>_. args ! 7 - (end_time - start)))))))))))))))))))))))"

definition command_hd44780_send_cmds :: "('a lcd_state_scheme, unit) prog \<Rightarrow> u32 list \<Rightarrow> ('a lcd_state_scheme, unit) prog" where
  "command_hd44780_send_cmds irq_poll args =
     bnd (obj_lookup (ucast (args ! 0)) OT_hd44780) (\<lambda>oid.
     bnd (gets (\<lambda>s. hd_rs (hd44780s s oid))) (\<lambda>rs.
     sq (gpio_out_write rs 0)
    (bnd (msg_bytes (args ! 2) (ucast (args ! 1))) (hd44780_xmit irq_poll oid))))"

definition command_hd44780_send_data :: "('a lcd_state_scheme, unit) prog \<Rightarrow> u32 list \<Rightarrow> ('a lcd_state_scheme, unit) prog" where
  "command_hd44780_send_data irq_poll args =
     bnd (obj_lookup (ucast (args ! 0)) OT_hd44780) (\<lambda>oid.
     bnd (gets (\<lambda>s. hd_rs (hd44780s s oid))) (\<lambda>rs.
     sq (gpio_out_write rs 1)
    (bnd (msg_bytes (args ! 2) (ucast (args ! 1))) (hd44780_xmit irq_poll oid))))"

definition hd44780_shutdown :: "('a lcd_state_scheme, unit) prog" where
  "hd44780_shutdown =
     foreach_oid OT_hd44780 (\<lambda>oid.
       bnd (gets (\<lambda>s. hd44780s s oid)) (\<lambda>h.
       sq (gpio_out_write (hd_rs h) 0)
      (sq (gpio_out_write (hd_e h) 0)
      (sq (gpio_out_write (hd_d4 h) 0)
      (sq (gpio_out_write (hd_d5 h) 0)
      (sq (gpio_out_write (hd_d6 h) 0)
      (sq (gpio_out_write (hd_d7 h) 0)
          (upd_hd44780 oid (hd_last_update (\<lambda>_. 0))))))))))"

text \<open>The state at power-on.\<close>

definition lcd_init :: "config \<Rightarrow> (hwreq \<Rightarrow> nat \<Rightarrow> u32) \<Rightarrow> 'a \<Rightarrow> 'a lcd_state_scheme" where
  "lcd_init c e m = angle_init c e (lcd_state_ext (\<lambda>_. st7920_zero) (\<lambda>_. hd44780_zero) m)"

end
