(* ===== verification/Neopixel.thy ===== *)
theory Neopixel
  imports Lcd
begin

text \<open>
  WS2812 LEDs, \<^verbatim>\<open>src/neopixel.c\<close>: bits are sent as pulses of different length.  The timing
  variant for AVR boards reads a hardware register directly and is not modelled.
\<close>

section \<open>Definitions\<close>

record neopixel_s =
  np_pin :: u32
  np_bit_max_ticks :: u32
  np_last_req_time :: u32
  np_reset_min_ticks :: u32
  np_data_size :: u16
  np_data :: "u8 list"

record neopixel_state = lcd_state +
  neopixels :: "u8 \<Rightarrow> neopixel_s"

definition neopixel_zero :: neopixel_s where
  "neopixel_zero = \<lparr>np_pin = 0, np_bit_max_ticks = 0, np_last_req_time = 0, np_reset_min_ticks = 0,
     np_data_size = 0, np_data = []\<rparr>"

definition upd_neopixel :: "u8 \<Rightarrow> (neopixel_s \<Rightarrow> neopixel_s) \<Rightarrow> ('a neopixel_state_scheme, unit) prog" where
  "upd_neopixel oid f = upd (\<lambda>s. s\<lparr>neopixels := (neopixels s)(oid := f (neopixels s oid))\<rparr>)"

definition neopixel_check_elapsed :: "u32 \<Rightarrow> u32 \<Rightarrow> u32 \<Rightarrow> bool" where
  "neopixel_check_elapsed t1 t2 ticks \<longleftrightarrow> t2 - t1 \<ge> ticks"

definition neopixel_get_time :: "('a hw_scheme, u32) prog" where
  "neopixel_get_time = timer_read_time"

definition neopixel_delay :: "u32 \<Rightarrow> u32 \<Rightarrow> ('a hw_scheme, unit) prog" where
  "neopixel_delay start ticks =
     loopp (\<lambda>_.
       bnd neopixel_get_time (\<lambda>t.
       if neopixel_check_elapsed start t ticks then ret (Inr ()) else ret (Inl ()))) ()"

abbreviation PULSE_LONG_TICKS :: "'a hw_scheme \<Rightarrow> u32" where "PULSE_LONG_TICKS s \<equiv> nsecs_to_ticks s 650"
abbreviation PULSE_SHORT_TICKS :: "'a hw_scheme \<Rightarrow> u32" where "PULSE_SHORT_TICKS s \<equiv> nsecs_to_ticks s 200"
abbreviation BIT_MIN_TICKS :: "'a hw_scheme \<Rightarrow> u32" where "BIT_MIN_TICKS s \<equiv> nsecs_to_ticks s 1250"

definition command_config_neopixel :: "u32 list \<Rightarrow> ('a neopixel_state_scheme, unit) prog" where
  "command_config_neopixel args =
     sq (hw_setup (GpioOutSetup (args ! 1) 0))
    (let oid = ucast (args ! 0); data_size = ucast (args ! 2) :: u16 in
     if data_size AND 0x8000 \<noteq> 0 then shutdown ''Invalid neopixel data_size''
     else
       bnd (gets (\<lambda>s. c_sizeof (cfg s) ''neopixel_s'')) (\<lambda>sz.
       sq (oid_alloc oid OT_neopixel (sz + unat data_size))
          (upd_neopixel oid (\<lambda>_. \<lparr>np_pin = args ! 1, np_bit_max_ticks = args ! 3, np_last_req_time = 0,
             np_reset_min_ticks = args ! 4, np_data_size = data_size, np_data = replicate (unat data_size) 0\<rparr>))))"

text \<open>
  One bit: the time its pulse started, or \<open>None\<close> when the pause before it was too long.
\<close>

definition send_bit :: "u32 \<Rightarrow> u32 \<Rightarrow> bool \<Rightarrow> u32 \<Rightarrow> ('a hw_scheme, u32 option) prog" where
  "send_bit pin bit_max_ticks one last_start =
     bnd (gets (\<lambda>s. (BIT_MIN_TICKS s, PULSE_LONG_TICKS s, PULSE_SHORT_TICKS s))) (\<lambda>(bit_min, long, short).
     if one then
       sq (neopixel_delay last_start bit_min)
      (bnd neopixel_get_time (\<lambda>start.
       sq (gpio_out_toggle_noirq pin)
      (if neopixel_check_elapsed last_start start bit_max_ticks then ret None
       else
         sq (neopixel_delay start long)
        (sq (gpio_out_toggle_noirq pin)
        (bnd neopixel_get_time (\<lambda>t.
         sq (neopixel_delay t short)
            (ret (Some start))))))))
     else
       sq (neopixel_delay last_start bit_min)
      (bnd neopixel_get_time (\<lambda>start.
       sq (gpio_out_toggle_noirq pin)
      (sq (neopixel_delay start short)
      (sq (gpio_out_toggle_noirq pin)
          (ret (if neopixel_check_elapsed last_start start bit_max_ticks then None else Some start)))))))"

primrec send_bits :: "u32 \<Rightarrow> u32 \<Rightarrow> nat \<Rightarrow> u8 \<Rightarrow> u32 \<Rightarrow> ('a hw_scheme, u32 option) prog" where
  "send_bits pin bit_max_ticks 0 byte last_start = ret (Some last_start)"
| "send_bits pin bit_max_ticks (Suc n) byte last_start =
     bnd (send_bit pin bit_max_ticks (byte AND 0x80 \<noteq> 0) last_start) (\<lambda>r.
     case r of
       None \<Rightarrow> ret None
     | Some start \<Rightarrow> send_bits pin bit_max_ticks n (push_bit 1 byte) start)"

primrec send_bytes :: "u32 \<Rightarrow> u32 \<Rightarrow> u8 list \<Rightarrow> u32 \<Rightarrow> ('a hw_scheme, u32 option) prog" where
  "send_bytes pin bit_max_ticks [] last_start = ret (Some last_start)"
| "send_bytes pin bit_max_ticks (b # bs) last_start =
     bnd (send_bits pin bit_max_ticks 8 b last_start) (\<lambda>r.
     case r of
       None \<Rightarrow> ret None
     | Some start \<Rightarrow> send_bytes pin bit_max_ticks bs start)"

definition send_data :: "('a neopixel_state_scheme, unit) prog \<Rightarrow> u8 \<Rightarrow> ('a neopixel_state_scheme, int) prog" where
  "send_data irq_poll oid =
     bnd (gets (\<lambda>s. neopixels s oid)) (\<lambda>n.
     sq (wait_ticks irq_poll (np_last_req_time n) (np_reset_min_ticks n))
    (bnd neopixel_get_time (\<lambda>last_start.
     bnd (send_bytes (np_pin n) (np_bit_max_ticks n) (take (unat (np_data_size n)) (np_data n)) last_start) (\<lambda>r.
     sq (whenp (r = None) (gpio_out_write (np_pin n) 0))
    (bnd timer_read_time (\<lambda>t.
     sq (upd_neopixel oid (np_last_req_time_update (\<lambda>_. t)))
        (ret (if r = None then -1 else 0))))))))"

text \<open>Writing outside the data array has no result.\<close>

definition command_neopixel_update :: "u32 list \<Rightarrow> ('a neopixel_state_scheme, unit) prog" where
  "command_neopixel_update args =
     bnd (obj_lookup (ucast (args ! 0)) OT_neopixel) (\<lambda>oid.
     bnd (gets (\<lambda>s. neopixels s oid)) (\<lambda>n.
     let pos = args ! 1; data_len = ucast (args ! 2) :: u8 in
     if pos AND 0x8000 \<noteq> 0 \<or> pos + ucast data_len > ucast (np_data_size n)
     then shutdown ''Invalid neopixel update command''
     else
       bnd (msg_bytes (args ! 3) data_len) (\<lambda>data.
       if unat pos + length data > length (np_data n) then stuck
       else upd_neopixel oid (np_data_update (\<lambda>d. store_at d (unat pos) data)))))"

definition command_neopixel_send :: "('a neopixel_state_scheme, unit) prog \<Rightarrow> u32 list \<Rightarrow> ('a neopixel_state_scheme, unit) prog" where
  "command_neopixel_send irq_poll args =
     bnd (obj_lookup (ucast (args ! 0)) OT_neopixel) (\<lambda>oid.
     bnd (send_data irq_poll oid) (\<lambda>r.
     sendf ''neopixel_result oid=%c success=%c'' [VInt (ucast oid), VInt (if r \<noteq> 0 then 0 else 1)]))"

text \<open>The state at power-on.\<close>

definition neopixel_init :: "config \<Rightarrow> (hwreq \<Rightarrow> nat \<Rightarrow> u32) \<Rightarrow> 'a \<Rightarrow> 'a neopixel_state_scheme" where
  "neopixel_init c e m = lcd_init c e (neopixel_state_ext (\<lambda>_. neopixel_zero) m)"

end
