(* ===== verification/Serial_irq.thy ===== *)
theory Serial_irq
  imports Neopixel
begin

text \<open>
  The serial console, \<^verbatim>\<open>src/generic/serial_irq.c\<close>: the buffers between the UART interrupt
  and the message layer, and the task that finds and dispatches commands.  The interrupt handlers
  run between the steps of the task; where the code allows that, the model lets them.
\<close>

section \<open>Data\<close>

abbreviation RX_BUFFER_SIZE :: nat where "RX_BUFFER_SIZE \<equiv> 192"
abbreviation TX_BUFFER_SIZE :: nat where "TX_BUFFER_SIZE \<equiv> 96"

record serial_state = neopixel_state +
  receive_pos :: nat
  transmit_buf :: "u8 list"
  transmit_pos :: nat
  transmit_max :: nat
  link :: command_link

section \<open>Interrupt handlers\<close>

definition serial_rx_byte :: "u8 \<Rightarrow> ('a serial_state_scheme, unit) prog" where
  "serial_rx_byte data =
     sq (whenp (data = MESSAGE_SYNC) sched_wake_tasks)
        (upd (\<lambda>s. if receive_pos s \<ge> RX_BUFFER_SIZE then s
           else s\<lparr>receive_buf := (receive_buf s)[receive_pos s := data], receive_pos := receive_pos s + 1\<rparr>))"

definition serial_get_tx_byte :: "('a serial_state_scheme, u8 option) prog" where
  "serial_get_tx_byte =
     bnd (gets (\<lambda>s. transmit_pos s \<ge> transmit_max s)) (\<lambda>empty.
     if empty then ret None
     else
       bnd (gets (\<lambda>s. transmit_buf s ! transmit_pos s)) (\<lambda>b.
       sq (upd (\<lambda>s. s\<lparr>transmit_pos := transmit_pos s + 1\<rparr>))
          (ret (Some b))))"

primrec serial_rx_bytes :: "u8 list \<Rightarrow> ('a serial_state_scheme, unit) prog" where
  "serial_rx_bytes [] = ret ()"
| "serial_rx_bytes (b # bs) = sq (serial_rx_byte b) (serial_rx_bytes bs)"

section \<open>Receiving\<close>

text \<open>\<^verbatim>\<open>memmove\<close> inside an array.\<close>

definition memmove :: "nat \<Rightarrow> nat \<Rightarrow> nat \<Rightarrow> u8 list \<Rightarrow> u8 list" where
  "memmove dst src n buf = store_at buf dst (take n (drop src buf))"

text \<open>
  \<^verbatim>\<open>console_pop_input\<close>: the bytes of \<open>arrivals ! i\<close> are received by interrupts during
  round \<open>i\<close> of the loop, before it disables interrupts; after the last entry none arrive.  The
  subtraction is that of the source: a count larger than the position has no result.
\<close>

definition pop_round :: "nat \<Rightarrow> nat \<Rightarrow> u8 list \<Rightarrow> (nat \<Rightarrow> ('a serial_state_scheme, unit) prog)
    \<Rightarrow> ('a serial_state_scheme, unit) prog" where
  "pop_round len copied arrived retry =
     bnd (gets receive_pos) (\<lambda>rpos.
     if rpos < len then stuck
     else
       (let needcopy = rpos - len in
        sq (whenp (needcopy \<noteq> 0)
              (sq (upd (\<lambda>s. s\<lparr>receive_buf := memmove copied (copied + len) (needcopy - copied) (receive_buf s)\<rparr>))
                  sched_wake_tasks))
       (sq (serial_rx_bytes arrived)
       (bnd (gets receive_pos) (\<lambda>rpos'.
        if rpos' \<noteq> rpos then retry (if needcopy \<noteq> 0 then needcopy else copied)
        else upd (receive_pos_update (\<lambda>_. needcopy)))))))"

fun pop_rounds :: "nat \<Rightarrow> nat \<Rightarrow> u8 list list \<Rightarrow> ('a serial_state_scheme, unit) prog" where
  "pop_rounds len copied [] = pop_round len copied [] (\<lambda>_. stuck)"
| "pop_rounds len copied (a # rest) = pop_round len copied a (\<lambda>copied'. pop_rounds len copied' rest)"

definition console_pop_input :: "nat \<Rightarrow> u8 list list \<Rightarrow> ('a serial_state_scheme, unit) prog" where
  "console_pop_input len arrivals = pop_rounds len 0 arrivals"

text \<open>
  \<^verbatim>\<open>command_sendf(&encode_acknak)\<close>: an empty message.
\<close>

definition command_send_ack :: "('a hw_scheme, unit) prog" where
  "command_send_ack = sendf [] []"

definition bootloader_magic :: "u8 list" where
  "bootloader_magic =
     [32, 28, 32, 82, 101, 113, 117, 101, 115, 116, 32, 83, 101, 114, 105, 97, 108, 32, 66, 111, 111, 116, 108, 111,
      97, 100, 101, 114, 33, 33, 32, 126]"

definition console_task :: "'a serial_state_scheme command_parser list \<Rightarrow> ('a serial_state_scheme, unit) prog
    \<Rightarrow> u8 list list \<Rightarrow> ('a serial_state_scheme, unit) prog" where
  "console_task command_index irq_poll arrivals =
     bnd (gets (\<lambda>s. command_find_block (link s) (receive_buf s) (receive_pos s))) (\<lambda>(r, pop_count, nak, link').
     sq (upd (link_update (\<lambda>_. link')))
    (sq (whenp nak command_send_ack)
    (bnd (gets (\<lambda>s. (receive_buf s, receive_base (cfg s)))) (\<lambda>(buf, base).
     sq (whenp (r > 0) (command_dispatch command_index sched_is_shutdown sched_report_shutdown irq_poll base buf pop_count))
    (whenp (r \<noteq> 0)
       (bnd (gets (\<lambda>s. CONFIG_SERIAL_BOOTLOADER_SIDECHANNEL (cfg s) \<and> r < 0 \<and> pop_count = 32 \<and>
              take 32 (receive_buf s) = bootloader_magic)) (\<lambda>request.
        sq (whenp request (emit BootloaderRequest))
       (sq (console_pop_input pop_count arrivals)
           (whenp (r > 0) command_send_ack)))))))))"

section \<open>Sending\<close>

text \<open>
  \<^verbatim>\<open>console_sendf\<close>; \<open>sent\<close> bytes are transmitted by interrupts after the positions have been
  read and before transmission is disabled.  Writing behind the buffer has no result.
\<close>

primrec serial_tx_bytes :: "nat \<Rightarrow> ('a serial_state_scheme, u8 list) prog" where
  "serial_tx_bytes 0 = ret []"
| "serial_tx_bytes (Suc n) =
     bnd serial_get_tx_byte (\<lambda>r.
     bnd (serial_tx_bytes n) (\<lambda>bs. ret ((case r of None \<Rightarrow> bs | Some b \<Rightarrow> b # bs))))"

definition console_sendf :: "bool \<Rightarrow> nat \<Rightarrow> command_encoder \<Rightarrow> va_arg list \<Rightarrow> ('a serial_state_scheme, u8 list) prog" where
  "console_sendf int16 sent ce args =
     bnd (gets transmit_pos) (\<lambda>tpos.
     bnd (gets transmit_max) (\<lambda>tmax.
     let idle = tpos \<ge> tmax; tpos = (if idle then 0 else tpos); tmax = (if idle then 0 else tmax) in
     sq (whenp idle (upd (\<lambda>s. s\<lparr>transmit_max := 0, transmit_pos := 0\<rparr>)))
    (let max_size = ce_max_size ce in
     if tmax + max_size > TX_BUFFER_SIZE \<and> tmax + max_size - tpos > TX_BUFFER_SIZE then ret []
     else
       bnd (if tmax + max_size > TX_BUFFER_SIZE then
              bnd (serial_tx_bytes sent) (\<lambda>out.
              sq (upd (transmit_max_update (\<lambda>_. 0)))
             (bnd (gets transmit_pos) (\<lambda>tpos.
              sq (upd (\<lambda>s. s\<lparr>transmit_buf := memmove 0 tpos (tmax - tpos) (transmit_buf s), transmit_pos := 0,
                    transmit_max := tmax - tpos\<rparr>))
             (sq (emit SerialEnableTxIrq)
                 (ret (out, tmax - tpos))))))
            else ret ([], tmax)) (\<lambda>(out, tmax).
       bnd (gets (\<lambda>s. command_encode_and_frame int16 (next_sequence (link s)) (drop tmax (transmit_buf s)) ce args)) (\<lambda>r.
       bnd (run_parsef r) (\<lambda>(frame, msglen).
       if tmax + msglen > TX_BUFFER_SIZE then stuck
       else
         sq (upd (\<lambda>s. s\<lparr>transmit_buf := store_at (transmit_buf s) tmax (take msglen frame),
               transmit_max := tmax + msglen\<rparr>))
        (sq (emit SerialEnableTxIrq)
            (ret out))))))))"

text \<open>The state at power-on.\<close>

definition serial_init :: "config \<Rightarrow> (hwreq \<Rightarrow> nat \<Rightarrow> u32) \<Rightarrow> 'a \<Rightarrow> 'a serial_state_scheme" where
  "serial_init c e m = (neopixel_init c e (serial_state_ext 0 (replicate TX_BUFFER_SIZE 0) 0 0 command_link_init m))\<lparr>receive_buf := replicate RX_BUFFER_SIZE 0\<rparr>"

end
