(* ===== verification/Msgblock.thy ===== *)
theory Msgblock
  imports Complex_Main Command
begin

text \<open>
  The host side of the message layer, \<^verbatim>\<open>klippy/chelper/msgblock.c\<close>: validation of
  incoming blocks, the VLQ codec on whole messages, the queue message objects and the conversion
  between micro-controller clocks and host times.  The C \<^verbatim>\<open>double\<close> of the clock
  estimate is modelled by the real numbers.
\<close>

section \<open>Block validation\<close>

fun msgblock_crc_loop :: "u16 \<Rightarrow> u8 list \<Rightarrow> u16" where
  "msgblock_crc_loop crc [] = crc"
| "msgblock_crc_loop crc (b # bs) =
     (let data = b XOR ucast (crc AND 0xff);
          data = data XOR push_bit 4 data
      in msgblock_crc_loop
           (((push_bit 8 (ucast data) OR drop_bit 8 crc) XOR ucast (drop_bit 4 data))
             XOR push_bit 3 (ucast data)) bs)"

definition msgblock_crc16_ccitt :: "u8 list \<Rightarrow> u16" where
  "msgblock_crc16_ccitt buf = msgblock_crc_loop 0xffff buf"

text \<open>The code from label \<^verbatim>\<open>error\<close> on.\<close>

definition msgblock_check_error :: "u8 list \<Rightarrow> nat \<Rightarrow> int \<times> u8" where
  "msgblock_check_error buf buf_len =
     (case memchr buf MESSAGE_SYNC buf_len of
        Some next_sync \<Rightarrow> (- int (next_sync + 1), 0)
      | None \<Rightarrow> (- int buf_len, 1))"

text \<open>\<^verbatim>\<open>msgblock_check\<close>: the return value and the new \<^verbatim>\<open>*need_sync\<close>.\<close>

definition msgblock_check :: "u8 \<Rightarrow> u8 list \<Rightarrow> nat \<Rightarrow> int \<times> u8" where
  "msgblock_check need_sync buf buf_len =
     (if buf_len < MESSAGE_MIN then (0, need_sync)
      else if need_sync \<noteq> 0 then msgblock_check_error buf buf_len
      else
        (let msglen = unat (buf ! MESSAGE_POS_LEN);
             msgseq = buf ! MESSAGE_POS_SEQ
         in if msglen < MESSAGE_MIN \<or> msglen > MESSAGE_MAX then msgblock_check_error buf buf_len
            else if msgseq AND NOT MESSAGE_SEQ_MASK \<noteq> MESSAGE_DEST then msgblock_check_error buf buf_len
            else if buf_len < msglen then (0, need_sync)
            else if buf ! (msglen - MESSAGE_TRAILER_SYNC) \<noteq> MESSAGE_SYNC
              then msgblock_check_error buf buf_len
            else
              (let msgcrc = push_bit 8 (ucast (buf ! (msglen - MESSAGE_TRAILER_CRC)))
                            OR ucast (buf ! (msglen - MESSAGE_TRAILER_CRC + 1)) :: u16;
                   crc = msgblock_crc16_ccitt (take (msglen - MESSAGE_TRAILER_SIZE) buf)
               in if crc \<noteq> msgcrc then msgblock_check_error buf buf_len
                  else (int msglen, need_sync))))"

section \<open>The integer codec\<close>

text \<open>The host's copy of \<^verbatim>\<open>encode_int\<close> and \<^verbatim>\<open>parse_int\<close>.\<close>

definition msgblock_encode_int :: "u32 \<Rightarrow> u8 list" where
  "msgblock_encode_int v =
     (let sv = sint v;
          f4 = [ucast (v AND 0x7f)];
          f3 = ucast ((drop_bit 7 v AND 0x7f) OR 0x80) # f4;
          f2 = ucast ((drop_bit 14 v AND 0x7f) OR 0x80) # f3;
          f1 = ucast ((drop_bit 21 v AND 0x7f) OR 0x80) # f2
      in if sv < 3 * 2 ^ 5 \<and> sv \<ge> - (2 ^ 5) then f4
         else if sv < 3 * 2 ^ 12 \<and> sv \<ge> - (2 ^ 12) then f3
         else if sv < 3 * 2 ^ 19 \<and> sv \<ge> - (2 ^ 19) then f2
         else if sv < 3 * 2 ^ 26 \<and> sv \<ge> - (2 ^ 26) then f1
         else ucast (drop_bit 28 v OR 0x80) # f1)"

definition msgblock_parse_int :: "u8 list \<Rightarrow> nat \<Rightarrow> (u32 \<times> nat) option" where
  "msgblock_parse_int mem p =
     (if p < length mem then
        (let c = mem ! p;
             v = ucast (c AND 0x7f);
             v = (if c AND 0x60 = 0x60 then v OR (- 0x20) else v)
         in parse_int_loop mem (Suc p) c v)
      else None)"

text \<open>
  \<^verbatim>\<open>msgblock_decode\<close>: the loop over \<^verbatim>\<open>data_len\<close> values, then the test that
  the message is used up.  \<open>Some (0, vs)\<close> is the return value 0 with the data filled,
  \<open>Some (-1, vs)\<close> the return value -1, \<open>None\<close> a read outside the message.
\<close>

fun msgblock_decode_loop :: "nat \<Rightarrow> u8 list \<Rightarrow> nat \<Rightarrow> nat \<Rightarrow> (int \<times> u32 list) option" where
  "msgblock_decode_loop 0 msg p end_pos = Some (if p \<noteq> end_pos then -1 else 0, [])"
| "msgblock_decode_loop (Suc n) msg p end_pos =
     (if p \<ge> end_pos then Some (-1, [])
      else
        (case msgblock_parse_int msg p of
           None \<Rightarrow> None
         | Some (v, p') \<Rightarrow>
             map_option (\<lambda>(r, vs). (r, v # vs)) (msgblock_decode_loop n msg p' end_pos)))"

definition msgblock_decode :: "nat \<Rightarrow> u8 list \<Rightarrow> nat \<Rightarrow> (int \<times> u32 list) option" where
  "msgblock_decode data_len msg msg_len =
     msgblock_decode_loop data_len msg MESSAGE_HEADER_SIZE (msg_len - MESSAGE_TRAILER_SIZE)"

section \<open>Queue messages\<close>

text \<open>
  The union of clocks and times of \<^verbatim>\<open>struct queue_message\<close> is kept as two pairs of
  fields; no code reads the pair the message is not using.
\<close>

record queue_message =
  qm_len :: nat
  qm_msg :: "u8 list"
  qm_min_clock :: u64
  qm_req_clock :: u64
  qm_sent_time :: real
  qm_receive_time :: real
  qm_notify_id :: u64

definition message_alloc :: queue_message where
  "message_alloc = \<lparr>qm_len = 0, qm_msg = replicate MESSAGE_MAX 0, qm_min_clock = 0, qm_req_clock = 0,
     qm_sent_time = 0, qm_receive_time = 0, qm_notify_id = 0\<rparr>"

definition message_fill :: "u8 list \<Rightarrow> queue_message" where
  "message_fill data =
     message_alloc\<lparr>qm_msg := store_at (qm_msg message_alloc) 0 data, qm_len := length data\<rparr>"

text \<open>
  The loop of \<^verbatim>\<open>message_alloc_and_encode\<close>: \<open>p\<close> is the write position in
  \<^verbatim>\<open>qm->msg\<close>.  The result is the buffer with the final position, or \<open>None\<close> for the
  jump to \<^verbatim>\<open>fail\<close>; the buffer is returned in that case too.
\<close>

fun encode_loop :: "u8 list \<Rightarrow> nat \<Rightarrow> u32 list \<Rightarrow> u8 list \<times> nat option" where
  "encode_loop msg p [] = (msg, Some p)"
| "encode_loop msg p (v # vs) =
     (let bs = msgblock_encode_int v;
          msg = store_at msg p bs;
          p = p + length bs
      in if p > MESSAGE_PAYLOAD_MAX then (msg, None) else encode_loop msg p vs)"

definition message_alloc_and_encode :: "u32 list \<Rightarrow> queue_message" where
  "message_alloc_and_encode data =
     (case encode_loop (qm_msg message_alloc) 0 data of
        (msg, Some p) \<Rightarrow> message_alloc\<lparr>qm_msg := msg, qm_len := p\<rparr>
      | (msg, None) \<Rightarrow> message_alloc\<lparr>qm_msg := msg, qm_len := 0\<rparr>)"

text \<open>The bytes a message stands for.\<close>

definition qm_bytes :: "queue_message \<Rightarrow> u8 list" where
  "qm_bytes qm = take (qm_len qm) (qm_msg qm)"

section \<open>Clock estimation\<close>

record clock_estimate =
  ce_last_clock :: u64
  ce_conv_clock :: u64
  ce_conv_time :: real
  ce_est_freq :: real

definition clock_from_clock32 :: "clock_estimate \<Rightarrow> u32 \<Rightarrow> u64" where
  "clock_from_clock32 ce clock32 =
     ce_last_clock ce + scast (clock32 - ucast (ce_last_clock ce))"

definition clock_to_time :: "clock_estimate \<Rightarrow> u64 \<Rightarrow> real" where
  "clock_to_time ce clock =
     ce_conv_time ce + real_of_int (sint (clock - ce_conv_clock ce)) / ce_est_freq ce"

text \<open>The C conversion from a floating point value to an integer truncates towards zero.\<close>

definition trunc_real :: "real \<Rightarrow> int" where
  "trunc_real x = (if 0 \<le> x then \<lfloor>x\<rfloor> else \<lceil>x\<rceil>)"

definition clock_from_time :: "clock_estimate \<Rightarrow> real \<Rightarrow> u64" where
  "clock_from_time ce time =
     word_of_int (trunc_real ((time - ce_conv_time ce) * ce_est_freq ce + 1 / 2)) + ce_conv_clock ce"

section \<open>Block validation agrees with the firmware\<close>

lemma msgblock_crc_loop_eq: "msgblock_crc_loop crc bs = crc16_ccitt_loop crc bs"
  by (induction bs arbitrary: crc) (simp_all add: crc16_ccitt_byte_def Let_def)

lemma msgblock_crc16_ccitt_eq [simp]: "msgblock_crc16_ccitt = crc16_ccitt"
  by (rule ext) (simp add: msgblock_crc16_ccitt_def crc16_ccitt_def msgblock_crc_loop_eq)

lemma msgblock_check_valid: "valid_block buf n m \<Longrightarrow> msgblock_check 0 buf n = (int m, 0)"
  by (auto simp: msgblock_check_def valid_block_def Let_def)

lemma msgblock_check_invalid:
  assumes "\<not> (ns = 0 \<and> valid_block buf n (unat (buf ! 0)))"
  shows "msgblock_check ns buf n = msgblock_check_error buf n \<and> MESSAGE_MIN \<le> n \<or>
    msgblock_check ns buf n = (0, ns) \<and> n < MESSAGE_MAX"
  using assms by (auto simp: msgblock_check_def valid_block_def Let_def)

lemma msgblock_check_error_result:
  "\<exists>k ns'. msgblock_check_error buf n = (- int k, ns') \<and> k \<le> n \<and> (0 < n \<longrightarrow> 0 < k)"
  by (cases "memchr buf MESSAGE_SYNC n") (auto simp: msgblock_check_error_def dest: memchr_bound intro!: exI [of _ "Suc _"])


section \<open>Message round trip\<close>

lemma msgblock_encode_int_eq [simp]: "msgblock_encode_int = encode_int"
  by (rule ext) (simp add: msgblock_encode_int_def encode_int_def)

lemma msgblock_parse_int_eq [simp]: "msgblock_parse_int = parse_int"
  by (intro ext) (simp add: msgblock_parse_int_def parse_int_def)

abbreviation vlq_bytes :: "u32 list \<Rightarrow> u8 list" where
  "vlq_bytes vs \<equiv> concat (map encode_int vs)"

lemma length_store_at: "p + length bs \<le> length buf \<Longrightarrow> length (store_at buf p bs) = length buf"
  by (simp add: store_at_def)

lemma store_at_nil [simp]: "store_at buf p [] = buf"
  by (simp add: store_at_def)

lemma store_at_append:
  "p + length as + length bs \<le> length buf \<Longrightarrow>
   store_at (store_at buf p as) (p + length as) bs = store_at buf p (as @ bs)"
  by (cases as) (auto simp: store_at_def min_def ac_simps)

lemma encode_loop_spec:
  assumes "p \<le> MESSAGE_PAYLOAD_MAX" and "length msg = MESSAGE_MAX"
  shows "length (fst (encode_loop msg p vs)) = MESSAGE_MAX \<and>
    (if p + length (vlq_bytes vs) \<le> MESSAGE_PAYLOAD_MAX
     then encode_loop msg p vs = (store_at msg p (vlq_bytes vs), Some (p + length (vlq_bytes vs)))
     else snd (encode_loop msg p vs) = None)"
  using assms
proof (induction vs arbitrary: msg p)
  case (Cons v vs)
  let ?bs = "encode_int v" and ?p = "p + length (encode_int v)"
  have len: "length (store_at msg p ?bs) = MESSAGE_MAX"
    using Cons.prems length_encode_int [of v] by (simp add: length_store_at)
  show ?case
  proof (cases "?p \<le> MESSAGE_PAYLOAD_MAX")
    case True
    from Cons.IH [OF True len] True Cons.prems show ?thesis
      by (auto simp: Let_def store_at_append)
  next
    case False
    then show ?thesis using len by (simp add: Let_def)
  qed
qed simp

lemma message_encode_fits:
  assumes "length (vlq_bytes data) \<le> MESSAGE_PAYLOAD_MAX"
  shows "qm_bytes (message_alloc_and_encode data) = vlq_bytes data"
    and "qm_len (message_alloc_and_encode data) = length (vlq_bytes data)"
  using encode_loop_spec [of 0 "qm_msg message_alloc" data] assms
  by (simp_all add: message_alloc_and_encode_def qm_bytes_def message_alloc_def store_at_def)

text \<open>
  Encoding a host message never writes outside the 64-byte \<^verbatim>\<open>qm->msg\<close> array, although
  the length is only tested after each integer has been stored: the array keeps its size, and the
  result is either empty, when the encoded integers exceed \<open>MESSAGE_PAYLOAD_MAX\<close>, or holds
  exactly their bytes.
\<close>

lemma message_encode_safe:
  "length (qm_msg (message_alloc_and_encode data)) = MESSAGE_MAX \<and>
   qm_bytes (message_alloc_and_encode data) =
     (if length (vlq_bytes data) \<le> MESSAGE_PAYLOAD_MAX then vlq_bytes data else [])"
  using encode_loop_spec [of 0 "qm_msg message_alloc" data] message_encode_fits(1) [of data]
  by (auto simp: message_alloc_and_encode_def qm_bytes_def message_alloc_def
      split: prod.splits option.splits if_splits)

lemma decode_loop_wire:
  "msgblock_decode_loop (length vs) (pre @ vlq_bytes vs @ post) (length pre) (length pre + length (vlq_bytes vs))
     = Some (0, vs)"
proof (induction vs arbitrary: pre)
  case (Cons v vs)
  have "length pre < length pre + length (vlq_bytes (v # vs))"
    using length_encode_int [of v] by simp
  moreover have "parse_int (pre @ vlq_bytes (v # vs) @ post) (length pre) = Some (v, length pre + length (encode_int v))"
    using parse_int_encode [of pre v "vlq_bytes vs @ post"] by simp
  moreover note Cons.IH [of "pre @ encode_int v"]
  ultimately show ?case by (simp add: add.assoc)
qed simp

lemma message_block_split: "\<exists>hd tl. message_block sn body = hd @ body @ tl \<and> length hd = 2"
  by (rule exI [of _ "[of_nat (length body + MESSAGE_MIN), sn]"]) (simp add: message_block_def Let_def)

text \<open>
  C31.  Message round trip: integers encoded into a message by
  \<^verbatim>\<open>message_alloc_and_encode\<close>, framed as a block and decoded by \<^verbatim>\<open>msgblock_decode\<close> come
  back unchanged, with the success result 0.
\<close>

theorem msgblock_roundtrip:
  assumes "length (vlq_bytes data) \<le> MESSAGE_PAYLOAD_MAX"
  shows "msgblock_decode (length data)
      (message_block sn (qm_bytes (message_alloc_and_encode data)))
      (length (message_block sn (qm_bytes (message_alloc_and_encode data)))) = Some (0, data)"
proof -
  obtain hd tl where b: "message_block sn (vlq_bytes data) = hd @ vlq_bytes data @ tl" "length hd = 2"
    using message_block_split by blast
  have "msgblock_decode (length data) (hd @ vlq_bytes data @ tl) (length (vlq_bytes data) + 5) = Some (0, data)"
    using decode_loop_wire [of data hd tl] b(2) by (simp add: msgblock_decode_def add.commute)
  then show ?thesis
    using length_message_block [of sn "vlq_bytes data"]
    unfolding message_encode_fits(1) [OF assms] b(1) by argo
qed

theorem msgblock_roundtrip_witness:
  "length (vlq_bytes [1, 2, - 3, 400000]) \<le> MESSAGE_PAYLOAD_MAX \<and>
   msgblock_decode 4 (message_block 0x10 (qm_bytes (message_alloc_and_encode [1, 2, - 3, 400000])))
     (length (message_block 0x10 (qm_bytes (message_alloc_and_encode [1, 2, - 3, 400000])))) = Some (0, [1, 2, - 3, 400000])"
proof -
  have h: "length (vlq_bytes [1, 2, - 3, 400000]) \<le> MESSAGE_PAYLOAD_MAX" by code_simp
  have l: "length [1 :: u32, 2, - 3, 400000] = 4" by simp
  show ?thesis
    by (rule conjI [OF h msgblock_roundtrip [OF h, of 16, unfolded l]])
qed

section \<open>Clock conversion\<close>

lemma ucast_diff_32: "(ucast (a - b :: u64) :: u32) = ucast a - ucast b"
proof (transfer, simp)
  fix a b :: int
  have "take_bit 32 (take_bit 64 a - take_bit 64 b)
      = take_bit 32 (take_bit 32 (take_bit 64 a) - take_bit 32 (take_bit 64 b))"
    by (simp only: take_bit_diff)
  also have "\<dots> = take_bit 32 (take_bit 32 a - take_bit 32 b)" by simp
  also have "\<dots> = take_bit 32 (a - b)" by (rule take_bit_diff)
  finally show "take_bit 32 (a - b) = take_bit 32 (take_bit 64 a - take_bit 64 b)" by simp
qed

lemma sint_ucast_32: "sint (ucast (d :: u64) :: u32) = signed_take_bit 31 (sint d)"
  by (transfer; simp add: signed_take_bit_take_bit)

text \<open>
  Extending a 32-bit clock: a 64-bit micro-controller clock that lies within
  \<open>2 ^ 31\<close> ticks of \<^verbatim>\<open>last_clock\<close>, before or after it, is recovered from its low 32 bits,
  also where the 32-bit counter has wrapped in between.
\<close>

lemma clock32_extends:
  assumes "- (2 ^ 31) \<le> sint (c - ce_last_clock ce)" and "sint (c - ce_last_clock ce) < 2 ^ 31"
  shows "clock_from_clock32 ce (ucast c) = c"
proof -
  have "signed_take_bit 31 (sint (c - ce_last_clock ce)) = sint (c - ce_last_clock ce)"
    using assms by (rule signed_take_bit_int_eq_self)
  then show ?thesis
    by (simp add: clock_from_clock32_def scast_eq sint_ucast_32 flip: ucast_diff_32)
qed

lemma trunc_half: "trunc_real (real_of_int k + 1 / 2) = (if 0 \<le> k then k else k + 1)"
  by (auto simp: trunc_real_def) linarith+

text \<open>
  C35.  Time round trip: converting a clock to a time and back yields the clock again when
  it is not before \<^verbatim>\<open>conv_clock\<close>.  For an earlier clock the result is one tick late: the
  cast truncates towards zero, so that adding one half does not round to the nearest integer.
\<close>

theorem clock_time_roundtrip:
  assumes "ce_est_freq ce \<noteq> 0"
  shows "clock_from_time ce (clock_to_time ce c) = (if 0 \<le> sint (c - ce_conv_clock ce) then c else c + 1)"
proof -
  let ?d = "sint (c - ce_conv_clock ce)"
  have "clock_from_time ce (clock_to_time ce c) = word_of_int (trunc_real (real_of_int ?d + 1 / 2)) + ce_conv_clock ce"
    using assms by (simp add: clock_from_time_def clock_to_time_def)
  then show ?thesis
    unfolding trunc_half by simp
qed

theorem clock_time_roundtrip_witness:
  "clock_from_time \<lparr>ce_last_clock = 0, ce_conv_clock = 10, ce_conv_time = 0, ce_est_freq = 2\<rparr>
     (clock_to_time \<lparr>ce_last_clock = 0, ce_conv_clock = 10, ce_conv_time = 0, ce_est_freq = 2\<rparr> 7) = 8"
proof -
  have neg: "\<not> 0 \<le> sint (7 - 10 :: u64)" by code_simp
  have "ce_est_freq \<lparr>ce_last_clock = 0, ce_conv_clock = 10, ce_conv_time = 0, ce_est_freq = 2\<rparr> \<noteq> 0"
    by simp
  from clock_time_roundtrip [OF this, of 7] show ?thesis
    unfolding clock_estimate.simps if_not_P [OF neg] by simp
qed

end
