(* ===== verification/Stepcompress.thy ===== *)
theory Stepcompress
  imports Msgblock "HOL-Library.Signed_Division" "HOL-Library.Multiset"
begin

text \<open>
  The host's step compression, \<^verbatim>\<open>klippy/chelper/stepcompress.c\<close>: requested step times are
  covered by quadratic sequences (interval, count, add) within an error bound, checked, turned into
  \<^verbatim>\<open>queue_step\<close> messages, and the messages of several steppers are merged in the order of
  their clocks (\<^verbatim>\<open>steppersync\<close>).

  A piece of code is a \<open>prog\<close> over the object it works on.  Its \<^verbatim>\<open>int32_t\<close> arithmetic is
  over \<open>int\<close> with every intermediate result checked: a signed overflow, a division by zero and an
  access outside the queue array are undefined in C and get stuck here.  A negative return code is
  returned as such.  Floating point numbers are modelled by the real numbers.  The text that
  \<^verbatim>\<open>errorf\<close> prints is left out.
\<close>

section \<open>C integers\<close>

definition i32 :: "int \<Rightarrow> ('s, int) prog" where
  "i32 x = (if - (2 ^ 31) \<le> x \<and> x < 2 ^ 31 then ret x else stuck)"

definition i64 :: "int \<Rightarrow> ('s, int) prog" where
  "i64 x = (if - (2 ^ 63) \<le> x \<and> x < 2 ^ 63 then ret x else stuck)"

definition cdiv :: "int \<Rightarrow> int \<Rightarrow> ('s, int) prog" where
  "cdiv n d = (if d = 0 then stuck else i32 (n sdiv d))"

definition idiv_up :: "int \<Rightarrow> int \<Rightarrow> ('s, int) prog" where
  "idiv_up n d =
     (if n \<ge> 0 then bnd (i32 (n + d)) (\<lambda>t. bnd (i32 (t - 1)) (\<lambda>t. cdiv t d)) else cdiv n d)"

definition idiv_down :: "int \<Rightarrow> int \<Rightarrow> ('s, int) prog" where
  "idiv_down n d =
     (if n \<ge> 0 then cdiv n d else bnd (i32 (n - d)) (\<lambda>t. bnd (i32 (t + 1)) (\<lambda>t. cdiv t d)))"

section \<open>State\<close>

text \<open>
  The array between \<^verbatim>\<open>queue\<close> and \<^verbatim>\<open>queue_end\<close> is a list, the pointers into it are
  indices.  The newest entry of the history is its head.
\<close>

record history_steps =
  hs_first_clock :: u64
  hs_last_clock :: u64
  hs_start_position :: int
  hs_step_count :: int
  hs_interval :: int
  hs_add :: int

record stepcompress =
  sc_queue :: "u32 list"
  sc_queue_pos :: nat
  sc_queue_next :: nat
  sc_max_error :: u32
  sc_mcu_time_offset :: real
  sc_mcu_freq :: real
  sc_last_step_print_time :: real
  sc_last_step_clock :: u64
  sc_msg_queue :: "queue_message list"
  sc_oid :: u32
  sc_queue_step_msgtag :: u32
  sc_set_next_step_dir_msgtag :: u32
  sc_sdir :: int
  sc_invert_sdir :: int
  sc_next_step_clock :: u64
  sc_next_step_dir :: int
  sc_last_position :: int
  sc_history_list :: "history_steps list"

record step_move =
  sm_interval :: u32
  sm_count :: u16
  sm_add :: u16

record points =
  minp :: int
  maxp :: int

section \<open>Step compression\<close>

definition minmax_at :: "stepcompress \<Rightarrow> nat \<Rightarrow> points" where
  "minmax_at sc pos =
     (let lsc = ucast (sc_last_step_clock sc) :: u32;
          point = sc_queue sc ! pos - lsc;
          prevpoint = (if pos > sc_queue_pos sc then sc_queue sc ! (pos - 1) - lsc else 0);
          max_error = (point - prevpoint) div 2;
          max_error = (if max_error > sc_max_error sc then sc_max_error sc else max_error)
      in \<lparr>minp = sint (point - max_error), maxp = sint point\<rparr>)"

definition minmax_point :: "nat \<Rightarrow> (stepcompress, points) prog" where
  "minmax_point pos =
     bnd (gets (\<lambda>sc. sc)) (\<lambda>sc. if pos < length (sc_queue sc) then ret (minmax_at sc pos) else stuck)"

definition QUADRATIC_DEV :: u32 where "QUADRATIC_DEV = 11"

text \<open>The factor \<^verbatim>\<open>count*(count-1)/2\<close>.\<close>

definition addfactor :: "int \<Rightarrow> ('s, int) prog" where
  "addfactor cnt = bnd (i32 (cnt - 1)) (\<lambda>t. bnd (i32 (cnt * t)) (\<lambda>t. cdiv t 2))"

text \<open>
  How the search for the longest sequence with a given \<^verbatim>\<open>add\<close> ends: all points are covered,
  or \<^verbatim>\<open>nextcount\<close> points are one too many.
\<close>

datatype bisect_run =
    Covered int int
  | Broken int points int int int

text \<open>
  One round of the inner loop of \<^verbatim>\<open>compress_bisect_add\<close>; its variables are
  \<^verbatim>\<open>nextcount\<close>, \<^verbatim>\<open>nextmininterval\<close>, \<^verbatim>\<open>nextmaxinterval\<close> and
  \<^verbatim>\<open>interval\<close>.
\<close>

definition bisect_extend :: "nat \<Rightarrow> int \<Rightarrow> int \<times> int \<times> int \<times> int
    \<Rightarrow> (stepcompress, (int \<times> int \<times> int \<times> int) + bisect_run) prog" where
  "bisect_extend qlast add = (\<lambda>(nextcount, nextmin, nextmax, interval).
     bnd (i32 (nextcount + 1)) (\<lambda>nextcount.
     bnd (gets sc_queue_pos) (\<lambda>qp.
     if int qp + nextcount - 1 \<ge> int qlast then ret (Inr (Covered interval (nextcount - 1)))
     else
       bnd (minmax_point (nat (int qp + nextcount - 1))) (\<lambda>nextpoint.
       bnd (addfactor nextcount) (\<lambda>nextaddfactor.
       bnd (i32 (add * nextaddfactor)) (\<lambda>c.
       bnd (i32 (nextmin * nextcount)) (\<lambda>reach.
       bnd (i32 (minp nextpoint - c)) (\<lambda>lim.
       bnd (if reach < lim then idiv_up lim nextcount else ret nextmin) (\<lambda>nextmin.
       bnd (i32 (nextmax * nextcount)) (\<lambda>reach.
       bnd (i32 (maxp nextpoint - c)) (\<lambda>lim.
       bnd (if reach > lim then idiv_down lim nextcount else ret nextmax) (\<lambda>nextmax.
       if nextmin > nextmax then ret (Inr (Broken nextcount nextpoint nextmin nextmax interval))
       else ret (Inl (nextcount, nextmin, nextmax, nextmax))))))))))))))"

record bisect =
  b_outer_min :: int
  b_outer_max :: int
  b_add :: int
  b_minadd :: int
  b_maxadd :: int
  b_bestinterval :: int
  b_bestcount :: int
  b_bestadd :: int
  b_bestreach :: int
  b_zerointerval :: int
  b_zerocount :: int

text \<open>
  The end of a round of the outer loop: the range of \<^verbatim>\<open>add\<close> is narrowed and the next one
  is chosen, or the search ends.
\<close>

definition bisect_narrow :: "int \<Rightarrow> int \<Rightarrow> points \<Rightarrow> int \<Rightarrow> int \<Rightarrow> int \<Rightarrow> bisect
    \<Rightarrow> (stepcompress, bisect + (step_move + bisect)) prog" where
  "bisect_narrow cnt nextcount nextpoint nextmin nextmax interval b =
     (let add = b_add b in
      bnd (addfactor nextcount) (\<lambda>nextaddfactor.
      bnd (i32 (add * nextaddfactor)) (\<lambda>t.
      bnd (i32 (interval * nextcount)) (\<lambda>u.
      bnd (i32 (t + u)) (\<lambda>nextreach.
      bnd (if nextreach < minp nextpoint then bnd (i32 (add + 1)) (\<lambda>m. ret (b\<lparr>b_minadd := m, b_outer_max := nextmax\<rparr>))
           else bnd (i32 (add - 1)) (\<lambda>m. ret (b\<lparr>b_maxadd := m, b_outer_min := nextmin\<rparr>))) (\<lambda>b.
      bnd (if cnt > 1 then
             bnd (i32 (cnt * cnt)) (\<lambda>sqr.
             bnd (gets sc_max_error) (\<lambda>max_error.
             bnd (ret (sint (max_error * QUADRATIC_DEV div word_of_int sqr))) (\<lambda>errdelta.
             bnd (i32 (add - errdelta)) (\<lambda>lo.
             bnd (ret (if b_minadd b < lo then b\<lparr>b_minadd := lo\<rparr> else b)) (\<lambda>b.
             bnd (i32 (add + errdelta)) (\<lambda>hi.
             ret (if b_maxadd b > hi then b\<lparr>b_maxadd := hi\<rparr> else b)))))))
           else ret b) (\<lambda>b.
      bnd (i32 (b_outer_max b * nextcount)) (\<lambda>c.
      bnd (i32 (b_minadd b * nextaddfactor)) (\<lambda>t.
      bnd (i32 (minp nextpoint - c)) (\<lambda>lim.
      bnd (if t < lim then bnd (idiv_up lim nextaddfactor) (\<lambda>m. ret (b\<lparr>b_minadd := m\<rparr>)) else ret b) (\<lambda>b.
      bnd (i32 (b_outer_min b * nextcount)) (\<lambda>c.
      bnd (i32 (b_maxadd b * nextaddfactor)) (\<lambda>t.
      bnd (i32 (maxp nextpoint - c)) (\<lambda>lim.
      bnd (if t > lim then bnd (idiv_down lim nextaddfactor) (\<lambda>m. ret (b\<lparr>b_maxadd := m\<rparr>)) else ret b) (\<lambda>b.
      if b_minadd b > b_maxadd b then ret (Inr (Inr b))
      else
        bnd (i32 (b_maxadd b - b_minadd b)) (\<lambda>w.
        bnd (cdiv w 4) (\<lambda>q.
        bnd (i32 (b_maxadd b - q)) (\<lambda>a.
        ret (Inl (b\<lparr>b_add := a\<rparr>))))))))))))))))))))"

definition make_move :: "int \<Rightarrow> int \<Rightarrow> int \<Rightarrow> step_move" where
  "make_move interval cnt add =
     \<lparr>sm_interval = word_of_int interval, sm_count = word_of_int cnt, sm_add = word_of_int add\<rparr>"

definition bisect_round :: "nat \<Rightarrow> bisect \<Rightarrow> (stepcompress, bisect + (step_move + bisect)) prog" where
  "bisect_round qlast b =
     bnd (loopp (bisect_extend qlast (b_add b)) (1, b_outer_min b, b_outer_max b, b_outer_max b)) (\<lambda>run.
     case run of
       Covered interval cnt \<Rightarrow> ret (Inr (Inl (make_move interval cnt (b_add b))))
     | Broken nextcount nextpoint nextmin nextmax interval \<Rightarrow>
         bnd (i32 (nextcount - 1)) (\<lambda>cnt.
         bnd (addfactor cnt) (\<lambda>factor.
         bnd (i32 (b_add b * factor)) (\<lambda>t.
         bnd (i32 (interval * cnt)) (\<lambda>u.
         bnd (i32 (t + u)) (\<lambda>reach.
         if reach > b_bestreach b \<or> (reach = b_bestreach b \<and> interval > b_bestinterval b) then
           (let b = b\<lparr>b_bestinterval := interval, b_bestcount := cnt, b_bestadd := b_add b, b_bestreach := reach\<rparr>;
                b = (if b_add b = 0 then b\<lparr>b_zerointerval := interval, b_zerocount := cnt\<rparr> else b)
            in if cnt > 0x200 then ret (Inr (Inr b))
               else bisect_narrow cnt nextcount nextpoint nextmin nextmax interval b)
         else bisect_narrow cnt nextcount nextpoint nextmin nextmax interval b))))))"

definition compress_bisect_add :: "(stepcompress, step_move) prog" where
  "compress_bisect_add =
     bnd (gets (\<lambda>sc. min (sc_queue_next sc) (sc_queue_pos sc + 65535))) (\<lambda>qlast.
     bnd (gets sc_queue_pos) (\<lambda>qp.
     bnd (minmax_point qp) (\<lambda>point.
     bnd (loopp (bisect_round qlast)
       \<lparr>b_outer_min = minp point, b_outer_max = maxp point, b_add = 0, b_minadd = -0x8000, b_maxadd = 0x7fff,
        b_bestinterval = 0, b_bestcount = 1, b_bestadd = 1, b_bestreach = - (2 ^ 31),
        b_zerointerval = 0, b_zerocount = 0\<rparr>) (\<lambda>r.
     case r of
       Inl move \<Rightarrow> ret move
     | Inr b \<Rightarrow>
         bnd (i32 (b_zerocount b + b_zerocount b sdiv 16)) (\<lambda>z.
         ret (if z \<ge> b_bestcount b then make_move (b_zerointerval b) (b_zerocount b) 0
              else make_move (b_bestinterval b) (b_bestcount b) (b_bestadd b)))))))"

section \<open>Checking\<close>

abbreviation ERROR_RET :: int where "ERROR_RET \<equiv> -989898989"

fun check_points :: "step_move \<Rightarrow> nat \<Rightarrow> nat \<Rightarrow> u32 \<Rightarrow> u32 \<Rightarrow> (stepcompress, int) prog" where
  "check_points move 0 i p interval = ret 0"
| "check_points move (Suc k) i p interval =
     bnd (gets sc_queue_pos) (\<lambda>qp.
     bnd (minmax_point (qp + i)) (\<lambda>point.
     (let p = p + interval in
      if p < word_of_int (minp point) \<or> p > word_of_int (maxp point) then ret ERROR_RET
      else if interval \<ge> 0x80000000 then ret ERROR_RET
      else check_points move k (Suc i) p (interval + scast (sm_add move)))))"

definition check_line :: "step_move \<Rightarrow> (stepcompress, int) prog" where
  "check_line move =
     (if sm_count move = 0 \<or> (sm_interval move = 0 \<and> sm_add move = 0 \<and> sm_count move > 1)
         \<or> sm_interval move \<ge> 0x80000000 then ret ERROR_RET
      else check_points move (unat (sm_count move)) 0 0 (sm_interval move))"

section \<open>Interface\<close>

definition stepcompress_alloc :: "u32 \<Rightarrow> stepcompress" where
  "stepcompress_alloc oid =
     \<lparr>sc_queue = [], sc_queue_pos = 0, sc_queue_next = 0, sc_max_error = 0, sc_mcu_time_offset = 0, sc_mcu_freq = 0,
      sc_last_step_print_time = 0, sc_last_step_clock = 0, sc_msg_queue = [], sc_oid = oid,
      sc_queue_step_msgtag = 0, sc_set_next_step_dir_msgtag = 0, sc_sdir = -1, sc_invert_sdir = 0,
      sc_next_step_clock = 0, sc_next_step_dir = 0, sc_last_position = 0, sc_history_list = []\<rparr>"

definition stepcompress_fill :: "u32 \<Rightarrow> u32 \<Rightarrow> u32 \<Rightarrow> (stepcompress, unit) prog" where
  "stepcompress_fill max_error queue_step_msgtag set_next_step_dir_msgtag =
     upd (\<lambda>sc. sc\<lparr>sc_max_error := max_error, sc_queue_step_msgtag := queue_step_msgtag,
       sc_set_next_step_dir_msgtag := set_next_step_dir_msgtag\<rparr>)"

definition stepcompress_set_invert_sdir :: "u32 \<Rightarrow> (stepcompress, unit) prog" where
  "stepcompress_set_invert_sdir invert_sdir =
     (let invert_sdir = (if invert_sdir \<noteq> 0 then 1 else 0) in
      bnd (gets sc_invert_sdir) (\<lambda>old.
      whenp (invert_sdir \<noteq> old)
        (upd (\<lambda>sc. sc\<lparr>sc_invert_sdir := invert_sdir,
           sc_sdir := (if sc_sdir sc \<ge> 0 then sc_sdir sc XOR 1 else sc_sdir sc)\<rparr>))))"

text \<open>The entries at the end of the list are the oldest.\<close>

definition free_history :: "u64 \<Rightarrow> (stepcompress, unit) prog" where
  "free_history end_clock =
     upd (\<lambda>sc. sc\<lparr>sc_history_list := rev (dropWhile (\<lambda>hs. \<not> hs_last_clock hs > end_clock) (rev (sc_history_list sc)))\<rparr>)"

definition stepcompress_get_oid :: "(stepcompress, u32) prog" where
  "stepcompress_get_oid = gets sc_oid"

definition stepcompress_get_step_dir :: "(stepcompress, int) prog" where
  "stepcompress_get_step_dir = gets sc_next_step_dir"

abbreviation HISTORY_EXPIRE :: real where "HISTORY_EXPIRE \<equiv> 30"

definition calc_last_step_print_time :: "(stepcompress, unit) prog" where
  "calc_last_step_print_time =
     bnd (gets (\<lambda>sc. real (unat (sc_last_step_clock sc)))) (\<lambda>lsc.
     bnd (gets sc_mcu_freq) (\<lambda>mcu_freq.
     sq (upd (\<lambda>sc. sc\<lparr>sc_last_step_print_time := sc_mcu_time_offset sc + (lsc - 1 / 2) / mcu_freq\<rparr>))
        (whenp (lsc > mcu_freq * HISTORY_EXPIRE)
           (free_history (word_of_int (trunc_real (lsc - mcu_freq * HISTORY_EXPIRE)))))))"

definition stepcompress_set_time :: "real \<Rightarrow> real \<Rightarrow> (stepcompress, unit) prog" where
  "stepcompress_set_time time_offset mcu_freq =
     sq (upd (\<lambda>sc. sc\<lparr>sc_mcu_time_offset := time_offset, sc_mcu_freq := mcu_freq\<rparr>))
        calc_last_step_print_time"

definition CLOCK_DIFF_MAX :: u64 where "CLOCK_DIFF_MAX = push_bit 28 3"

text \<open>The \<^verbatim>\<open>queue_step\<close> message of a move.\<close>

definition move_msg :: "stepcompress \<Rightarrow> u64 \<Rightarrow> step_move \<Rightarrow> queue_message" where
  "move_msg sc first_clock move =
     (let qm = message_alloc_and_encode [sc_queue_step_msgtag sc, sc_oid sc, sm_interval move,
                 ucast (sm_count move), scast (sm_add move)];
          qm = qm\<lparr>qm_min_clock := sc_last_step_clock sc, qm_req_clock := sc_last_step_clock sc\<rparr>
      in if sm_count move = 1 \<and> first_clock \<ge> sc_last_step_clock sc + CLOCK_DIFF_MAX
         then qm\<lparr>qm_req_clock := first_clock\<rparr> else qm)"

definition add_move :: "u64 \<Rightarrow> step_move \<Rightarrow> (stepcompress, unit) prog" where
  "add_move first_clock move =
     (let cnt = int (unat (sm_count move)) in
      bnd (addfactor cnt) (\<lambda>factor.
      bnd (i32 (sint (sm_add move) * factor)) (\<lambda>t.
      let ticks = word_of_int t + sm_interval move * word_of_int (cnt - 1) :: u32;
          last_clock = first_clock + ucast ticks
      in
      sq (upd (\<lambda>sc. sc\<lparr>sc_msg_queue := sc_msg_queue sc @ [move_msg sc first_clock move],
                      sc_last_step_clock := last_clock\<rparr>))
     (bnd (gets (\<lambda>sc. \<lparr>hs_first_clock = first_clock, hs_last_clock = last_clock,
             hs_start_position = sc_last_position sc,
             hs_step_count = (if sc_sdir sc \<noteq> 0 then cnt else - cnt),
             hs_interval = sint (sm_interval move), hs_add = sint (sm_add move)\<rparr>)) (\<lambda>hs.
      bnd (gets sc_last_position) (\<lambda>lp.
      bnd (i64 (lp + hs_step_count hs)) (\<lambda>lp.
      upd (\<lambda>sc. sc\<lparr>sc_last_position := lp, sc_history_list := hs # sc_history_list sc\<rparr>))))))))"

text \<open>The loop of \<^verbatim>\<open>queue_flush\<close>; a nonzero result is the error that is returned.\<close>

definition flush_step :: "u64 \<Rightarrow> unit \<Rightarrow> (stepcompress, unit + int) prog" where
  "flush_step move_clock = (\<lambda>_.
     bnd (gets sc_last_step_clock) (\<lambda>lsc.
     if \<not> lsc < move_clock then ret (Inr 0)
     else
       bnd compress_bisect_add (\<lambda>move.
       bnd (check_line move) (\<lambda>r.
       if r \<noteq> 0 then ret (Inr r)
       else
         sq (add_move (lsc + ucast (sm_interval move)) move)
        (bnd (gets (\<lambda>sc. sc_queue_pos sc + unat (sm_count move) \<ge> sc_queue_next sc)) (\<lambda>fin.
         if fin then sq (upd (\<lambda>sc. sc\<lparr>sc_queue_pos := 0, sc_queue_next := 0\<rparr>)) (ret (Inr 0))
         else sq (upd (\<lambda>sc. sc\<lparr>sc_queue_pos := sc_queue_pos sc + unat (sm_count move)\<rparr>)) (ret (Inl ()))))))))"

definition queue_flush :: "u64 \<Rightarrow> (stepcompress, int) prog" where
  "queue_flush move_clock =
     bnd (gets (\<lambda>sc. sc_queue_pos sc \<ge> sc_queue_next sc)) (\<lambda>empty.
     if empty then ret 0
     else
       bnd (loopp (flush_step move_clock) ()) (\<lambda>r.
       if r \<noteq> 0 then ret r
       else sq calc_last_step_print_time (ret 0)))"

definition stepcompress_flush_far :: "u64 \<Rightarrow> (stepcompress, int) prog" where
  "stepcompress_flush_far abs_step_clock =
     bnd (gets (\<lambda>sc. \<lparr>sm_interval = ucast (abs_step_clock - sc_last_step_clock sc), sm_count = 1, sm_add = 0\<rparr>)) (\<lambda>move.
     sq (add_move abs_step_clock move)
    (sq calc_last_step_print_time
        (ret 0)))"

definition set_next_step_dir :: "int \<Rightarrow> (stepcompress, int) prog" where
  "set_next_step_dir sdir =
     bnd (gets sc_sdir) (\<lambda>old.
     if old = sdir then ret 0
     else
       bnd (queue_flush (-1)) (\<lambda>r.
       if r \<noteq> 0 then ret r
       else
         sq (upd (\<lambda>sc. sc\<lparr>sc_sdir := sdir\<rparr>))
        (sq (upd (\<lambda>sc.
               let qm = message_alloc_and_encode [sc_set_next_step_dir_msgtag sc, sc_oid sc,
                          word_of_int (sdir XOR sc_invert_sdir sc)]
               in sc\<lparr>sc_msg_queue := sc_msg_queue sc @ [qm\<lparr>qm_req_clock := sc_last_step_clock sc\<rparr>]\<rparr>))
            (ret 0))))"

text \<open>\<^verbatim>\<open>*sc->queue_next++ = clock\<close>: writing behind the array gets stuck.\<close>

definition queue_put :: "u64 \<Rightarrow> (stepcompress, unit) prog" where
  "queue_put clock =
     bnd (gets (\<lambda>sc. sc_queue_next sc < length (sc_queue sc))) (\<lambda>room.
     if room then upd (\<lambda>sc. sc\<lparr>sc_queue := (sc_queue sc)[sc_queue_next sc := ucast clock],
                               sc_queue_next := Suc (sc_queue_next sc)\<rparr>)
     else stuck)"

definition queue_append_far :: "(stepcompress, int) prog" where
  "queue_append_far =
     bnd (gets sc_next_step_clock) (\<lambda>step_clock.
     sq (upd (\<lambda>sc. sc\<lparr>sc_next_step_clock := 0\<rparr>))
    (bnd (queue_flush (step_clock - CLOCK_DIFF_MAX + 1)) (\<lambda>r.
     if r \<noteq> 0 then ret r
     else
       bnd (gets sc_last_step_clock) (\<lambda>lsc.
       if step_clock \<ge> lsc + CLOCK_DIFF_MAX then stepcompress_flush_far step_clock
       else sq (queue_put step_clock) (ret 0)))))"

definition QUEUE_START_SIZE :: nat where "QUEUE_START_SIZE = 1024"

text \<open>\<^verbatim>\<open>while (in_use >= alloc) alloc *= 2\<close>.\<close>

function grow_alloc :: "nat \<Rightarrow> nat \<Rightarrow> nat" where
  "grow_alloc in_use alloc = (if in_use \<ge> alloc \<and> alloc > 0 then grow_alloc in_use (alloc * 2) else alloc)"
  by auto
termination by (relation "measure (\<lambda>(n, a). Suc n - a)") auto

text \<open>The memory that \<^verbatim>\<open>realloc\<close> adds is filled with zeros; nothing reads it before it is written.\<close>

definition make_room :: "stepcompress \<Rightarrow> stepcompress" where
  "make_room sc =
     (let in_use = sc_queue_next sc - sc_queue_pos sc in
      if sc_queue_pos sc > 0 then
        sc\<lparr>sc_queue := take in_use (drop (sc_queue_pos sc) (sc_queue sc)) @ drop in_use (sc_queue sc),
           sc_queue_pos := 0, sc_queue_next := in_use\<rparr>
      else
        (let alloc = (if length (sc_queue sc) = 0 then QUEUE_START_SIZE else length (sc_queue sc));
             alloc = grow_alloc in_use alloc
         in sc\<lparr>sc_queue := sc_queue sc @ replicate (alloc - length (sc_queue sc)) 0,
               sc_queue_pos := 0, sc_queue_next := in_use\<rparr>))"

definition queue_append_extend :: "(stepcompress, int) prog" where
  "queue_append_extend =
     bnd (gets (\<lambda>sc. sc_queue_next sc - sc_queue_pos sc > 65535 + 2000)) (\<lambda>many.
     bnd (if many then
            bnd (gets (\<lambda>sc. ucast (sc_queue sc ! (sc_queue_next sc - 65535) - ucast (sc_last_step_clock sc)))) (\<lambda>flush.
            bnd (gets sc_last_step_clock) (\<lambda>lsc.
            queue_flush (lsc + flush)))
          else ret 0) (\<lambda>r.
     if r \<noteq> 0 then ret r
     else
       sq (upd (\<lambda>sc. if sc_queue_next sc \<ge> length (sc_queue sc) then make_room sc else sc))
      (bnd (gets sc_next_step_clock) (\<lambda>clock.
       sq (queue_put clock)
      (sq (upd (\<lambda>sc. sc\<lparr>sc_next_step_clock := 0\<rparr>))
          (ret 0))))))"

definition queue_append :: "(stepcompress, int) prog" where
  "queue_append =
     bnd (gets sc_next_step_dir) (\<lambda>dir.
     bnd (gets sc_sdir) (\<lambda>sdir.
     bnd (if dir \<noteq> sdir then set_next_step_dir dir else ret 0) (\<lambda>r.
     if r \<noteq> 0 then ret r
     else
       bnd (gets sc_next_step_clock) (\<lambda>clock.
       bnd (gets sc_last_step_clock) (\<lambda>lsc.
       if clock \<ge> lsc + CLOCK_DIFF_MAX then queue_append_far
       else
         bnd (gets (\<lambda>sc. sc_queue_next sc \<ge> length (sc_queue sc))) (\<lambda>full.
         if full then queue_append_extend
         else
           sq (queue_put clock)
          (sq (upd (\<lambda>sc. sc\<lparr>sc_next_step_clock := 0\<rparr>))
              (ret 0))))))))"

abbreviation SDS_FILTER_TIME :: real where "SDS_FILTER_TIME \<equiv> 75 / 100000"

text \<open>The conversion of a negative number to an unsigned type is undefined.\<close>

definition stepcompress_append :: "int \<Rightarrow> real \<Rightarrow> real \<Rightarrow> (stepcompress, int) prog" where
  "stepcompress_append sdir print_time step_time =
     bnd (gets (\<lambda>sc. trunc_real ((step_time + (print_time - sc_last_step_print_time sc)) * sc_mcu_freq sc))) (\<lambda>rel_sc.
     if rel_sc < 0 \<or> rel_sc \<ge> 2 ^ 64 then stuck
     else
       bnd (gets (\<lambda>sc. sc_last_step_clock sc + word_of_int rel_sc)) (\<lambda>step_clock.
       bnd (gets sc_next_step_clock) (\<lambda>pending.
       bnd (gets (\<lambda>sc. sdir \<noteq> sc_next_step_dir sc \<and>
              real_of_int (sint (step_clock - pending)) < SDS_FILTER_TIME * sc_mcu_freq sc)) (\<lambda>rollback.
       if pending \<noteq> 0 \<and> rollback then
         sq (upd (\<lambda>sc. sc\<lparr>sc_next_step_clock := 0, sc_next_step_dir := sdir\<rparr>)) (ret 0)
       else
         bnd (if pending \<noteq> 0 then queue_append else ret 0) (\<lambda>r.
         if r \<noteq> 0 then ret r
         else sq (upd (\<lambda>sc. sc\<lparr>sc_next_step_clock := step_clock, sc_next_step_dir := sdir\<rparr>)) (ret 0))))))"

definition stepcompress_commit :: "(stepcompress, int) prog" where
  "stepcompress_commit =
     bnd (gets sc_next_step_clock) (\<lambda>pending. if pending \<noteq> 0 then queue_append else ret 0)"

definition stepcompress_flush :: "u64 \<Rightarrow> (stepcompress, int) prog" where
  "stepcompress_flush move_clock =
     bnd (gets sc_next_step_clock) (\<lambda>pending.
     bnd (if pending \<noteq> 0 \<and> move_clock \<ge> pending then queue_append else ret 0) (\<lambda>r.
     if r \<noteq> 0 then ret r else queue_flush move_clock))"

definition stepcompress_reset :: "u64 \<Rightarrow> (stepcompress, int) prog" where
  "stepcompress_reset last_step_clock =
     bnd (stepcompress_flush (-1)) (\<lambda>r.
     if r \<noteq> 0 then ret r
     else
       sq (upd (\<lambda>sc. sc\<lparr>sc_last_step_clock := last_step_clock, sc_sdir := -1\<rparr>))
      (sq calc_last_step_print_time
          (ret 0)))"

definition stepcompress_set_last_position :: "u64 \<Rightarrow> int \<Rightarrow> (stepcompress, int) prog" where
  "stepcompress_set_last_position clock last_position =
     bnd (stepcompress_flush (-1)) (\<lambda>r.
     if r \<noteq> 0 then ret r
     else
       sq (upd (\<lambda>sc. sc\<lparr>sc_last_position := last_position,
             sc_history_list := \<lparr>hs_first_clock = clock, hs_last_clock = clock, hs_start_position = last_position,
               hs_step_count = 0, hs_interval = 0, hs_add = 0\<rparr> # sc_history_list sc\<rparr>))
          (ret 0))"

text \<open>The number of steps of a history entry that lie at or before \<open>clock\<close>.\<close>

definition past_offset :: "history_steps \<Rightarrow> u64 \<Rightarrow> ('s, int) prog" where
  "past_offset hs clock =
     bnd (i32 (sint (ucast (clock - hs_first_clock hs) :: u32) + hs_interval hs)) (\<lambda>ticks.
     if hs_add hs = 0 then cdiv ticks (hs_interval hs)
     else
       (let a = 1 / 2 * real_of_int (hs_add hs);
            b = real_of_int (hs_interval hs) - 1 / 2 * real_of_int (hs_add hs);
            c = - real_of_int ticks
        in i32 (trunc_real ((sqrt (b * b - 4 * a * c) - b) / (2 * a)))))"

fun find_past :: "u64 \<Rightarrow> int \<Rightarrow> history_steps list \<Rightarrow> ('s, int) prog" where
  "find_past clock last_position [] = ret last_position"
| "find_past clock last_position (hs # rest) =
     (if clock < hs_first_clock hs then find_past clock (hs_start_position hs) rest
      else if clock \<ge> hs_last_clock hs then i64 (hs_start_position hs + hs_step_count hs)
      else
        bnd (past_offset hs clock) (\<lambda>offset.
        if hs_step_count hs < 0 then i64 (hs_start_position hs - offset)
        else i64 (hs_start_position hs + offset)))"

definition stepcompress_find_past_position :: "u64 \<Rightarrow> (stepcompress, int) prog" where
  "stepcompress_find_past_position clock =
     bnd (gets (\<lambda>sc. sc)) (\<lambda>sc. find_past clock (sc_last_position sc) (sc_history_list sc))"

definition stepcompress_queue_msg :: "u32 list \<Rightarrow> (stepcompress, int) prog" where
  "stepcompress_queue_msg data =
     bnd (stepcompress_flush (-1)) (\<lambda>r.
     if r \<noteq> 0 then ret r
     else
       sq (upd (\<lambda>sc. sc\<lparr>sc_msg_queue := sc_msg_queue sc @
             [(message_alloc_and_encode data)\<lparr>qm_req_clock := sc_last_step_clock sc\<rparr>]\<rparr>))
          (ret 0))"

fun extract_old :: "nat \<Rightarrow> u64 \<Rightarrow> u64 \<Rightarrow> history_steps list \<Rightarrow> history_steps list" where
  "extract_old room start_clock end_clock [] = []"
| "extract_old room start_clock end_clock (hs # rest) =
     (if start_clock \<ge> hs_last_clock hs \<or> room = 0 then []
      else if end_clock \<le> hs_first_clock hs then extract_old room start_clock end_clock rest
      else hs # extract_old (room - 1) start_clock end_clock rest)"

text \<open>The entries written to \<^verbatim>\<open>p\<close>; the result of the function is their number.\<close>

definition stepcompress_extract_old :: "nat \<Rightarrow> u64 \<Rightarrow> u64 \<Rightarrow> (stepcompress, history_steps list) prog" where
  "stepcompress_extract_old room start_clock end_clock =
     gets (\<lambda>sc. extract_old room start_clock end_clock (sc_history_list sc))"

section \<open>Synchronisation of several steppers\<close>

text \<open>\<open>ss_sent\<close> holds the batches given to \<^verbatim>\<open>serialqueue_send_batch\<close>.\<close>

record steppersync =
  ss_sc_list :: "stepcompress list"
  ss_move_clocks :: "u64 list"
  ss_sent :: "queue_message list list"

definition steppersync_alloc :: "stepcompress list \<Rightarrow> nat \<Rightarrow> steppersync" where
  "steppersync_alloc sc_list move_num = \<lparr>ss_sc_list = sc_list, ss_move_clocks = replicate move_num 0, ss_sent = []\<rparr>"

text \<open>Running code on one of the objects.\<close>

definition on_sc :: "nat \<Rightarrow> (stepcompress, 'a) prog \<Rightarrow> (steppersync, 'a) prog" where
  "on_sc i m ss =
     (if i < length (ss_sc_list ss) then
        (case m (ss_sc_list ss ! i) of
           None \<Rightarrow> None
         | Some (r, sc) \<Rightarrow> Some (r, ss\<lparr>ss_sc_list := (ss_sc_list ss)[i := sc]\<rparr>))
      else None)"

fun set_time_loop :: "real \<Rightarrow> real \<Rightarrow> nat list \<Rightarrow> (steppersync, unit) prog" where
  "set_time_loop time_offset mcu_freq [] = ret ()"
| "set_time_loop time_offset mcu_freq (i # is) =
     sq (on_sc i (stepcompress_set_time time_offset mcu_freq)) (set_time_loop time_offset mcu_freq is)"

definition steppersync_set_time :: "real \<Rightarrow> real \<Rightarrow> (steppersync, unit) prog" where
  "steppersync_set_time time_offset mcu_freq =
     bnd (gets (\<lambda>ss. length (ss_sc_list ss))) (\<lambda>sc_num. set_time_loop time_offset mcu_freq [0..<sc_num])"

text \<open>
  \<^verbatim>\<open>heap_replace\<close>: the hole at \<open>pos\<close> sinks until \<open>req_clock\<close> fits.  A child
  behind the end of the array counts as \<^verbatim>\<open>UINT64_MAX\<close>; an access behind the end gets stuck.
\<close>

definition heap_step :: "u64 \<Rightarrow> nat \<Rightarrow> (steppersync, nat + unit) prog" where
  "heap_step req_clock pos =
     bnd (gets ss_move_clocks) (\<lambda>mc.
     let nmc = length mc; child1_pos = 2 * pos + 1; child2_pos = 2 * pos + 2;
         child2_clock = (if child2_pos < nmc then mc ! child2_pos else -1);
         child1_clock = (if child1_pos < nmc then mc ! child1_pos else -1)
     in
     if \<not> pos < nmc then stuck
     else if req_clock \<le> child1_clock \<and> req_clock \<le> child2_clock then
       sq (upd (\<lambda>ss. ss\<lparr>ss_move_clocks := mc[pos := req_clock]\<rparr>)) (ret (Inr ()))
     else if child1_clock < child2_clock then
       sq (upd (\<lambda>ss. ss\<lparr>ss_move_clocks := mc[pos := child1_clock]\<rparr>)) (ret (Inl child1_pos))
     else
       sq (upd (\<lambda>ss. ss\<lparr>ss_move_clocks := mc[pos := child2_clock]\<rparr>)) (ret (Inl child2_pos)))"

definition heap_replace :: "u64 \<Rightarrow> (steppersync, unit) prog" where
  "heap_replace req_clock = loopp (heap_step req_clock) 0"

abbreviation MAX_CLOCK :: u64 where "MAX_CLOCK \<equiv> 0x7fffffffffffffff"

text \<open>The search for the message with the lowest \<^verbatim>\<open>req_clock\<close>: the object it is first in.\<close>

fun find_lowest :: "nat \<Rightarrow> u64 \<Rightarrow> nat option \<Rightarrow> stepcompress list \<Rightarrow> nat option \<times> u64" where
  "find_lowest i req_clock qm [] = (qm, req_clock)"
| "find_lowest i req_clock qm (sc # scs) =
     (case sc_msg_queue sc of
        [] \<Rightarrow> find_lowest (Suc i) req_clock qm scs
      | m # _ \<Rightarrow> (if qm_req_clock m < req_clock then find_lowest (Suc i) (qm_req_clock m) (Some i) scs
                 else find_lowest (Suc i) req_clock qm scs))"

definition batch_step :: "u64 \<Rightarrow> queue_message list \<Rightarrow> (steppersync, queue_message list + queue_message list) prog" where
  "batch_step move_clock msgs =
     bnd (gets (\<lambda>ss. find_lowest 0 MAX_CLOCK None (ss_sc_list ss))) (\<lambda>(sel, req_clock).
     case sel of
       None \<Rightarrow> ret (Inr msgs)
     | Some i \<Rightarrow>
         bnd (gets (\<lambda>ss. hd (sc_msg_queue (ss_sc_list ss ! i)))) (\<lambda>qm.
         if qm_min_clock qm \<noteq> 0 \<and> req_clock > move_clock then ret (Inr msgs)
         else
           bnd (gets ss_move_clocks) (\<lambda>mc.
           if mc = [] then stuck
           else
             sq (whenp (qm_min_clock qm \<noteq> 0) (heap_replace (qm_min_clock qm)))
            (sq (on_sc i (upd (\<lambda>sc. sc\<lparr>sc_msg_queue := tl (sc_msg_queue sc)\<rparr>)))
                (ret (Inl (msgs @ [qm\<lparr>qm_min_clock := mc ! 0\<rparr>])))))))"

fun flush_all :: "u64 \<Rightarrow> nat list \<Rightarrow> (steppersync, int) prog" where
  "flush_all move_clock [] = ret 0"
| "flush_all move_clock (i # is) =
     bnd (on_sc i (stepcompress_flush move_clock)) (\<lambda>r. if r \<noteq> 0 then ret r else flush_all move_clock is)"

definition steppersync_flush :: "u64 \<Rightarrow> (steppersync, int) prog" where
  "steppersync_flush move_clock =
     bnd (gets (\<lambda>ss. length (ss_sc_list ss))) (\<lambda>sc_num.
     bnd (flush_all move_clock [0..<sc_num]) (\<lambda>r.
     if r \<noteq> 0 then ret r
     else
       bnd (loopp (batch_step move_clock) []) (\<lambda>msgs.
       sq (whenp (msgs \<noteq> []) (upd (\<lambda>ss. ss\<lparr>ss_sent := ss_sent ss @ [msgs]\<rparr>)))
          (ret 0))))"

end
