(* ===== verification/Quadratic.thy ===== *)
theory Quadratic
  imports Prelude
begin

text \<open>
  Quadratic step sequences over the integers: step \<open>j\<close> of a sequence with first interval
  \<open>i\<close> and increment \<open>add\<close> comes at time \<open>i * j + add * j * (j - 1) / 2\<close>.  The
  lemmas bound the products that occur when such a sequence fits a series of disjoint windows.
\<close>

section \<open>Quadratic sequences\<close>

definition tri :: "int \<Rightarrow> int" where "tri j = j * (j - 1) div 2"

definition seq_time :: "int \<Rightarrow> int \<Rightarrow> int \<Rightarrow> int" where
  "seq_time add i j = i * j + add * tri j"

definition fits :: "(int \<Rightarrow> int) \<Rightarrow> (int \<Rightarrow> int) \<Rightarrow> int \<Rightarrow> int \<Rightarrow> int \<Rightarrow> bool" where
  "fits lo hi add i n \<longleftrightarrow> (\<forall>j\<in>{1..n}. lo j \<le> seq_time add i j \<and> seq_time add i j \<le> hi j)"

definition spaced :: "(int \<Rightarrow> int) \<Rightarrow> (int \<Rightarrow> int) \<Rightarrow> int \<Rightarrow> int \<Rightarrow> bool" where
  "spaced lo hi N E \<longleftrightarrow> 1 \<le> N \<and> 1 \<le> lo 1 \<and> hi N < 3 * 2 ^ 28 \<and>
     (\<forall>j\<in>{1..N}. lo j \<le> hi j \<and> hi j - lo j \<le> E) \<and> (\<forall>j\<in>{1..<N}. hi j < lo (j + 1))"

lemma tri_double: "2 * tri j = j * (j - 1)"
proof -
  have "even (j * (j - 1))" by simp
  then show ?thesis by (simp add: tri_def)
qed

lemma tri_double_mult: "2 * (a * tri j) = a * j * (j - 1)"
proof -
  have "2 * (a * tri j) = a * (2 * tri j)" by simp
  then show ?thesis unfolding tri_double by simp
qed

lemma tri_simps [simp]: "tri 0 = 0" "tri 1 = 0" "tri 2 = 1"
  by (simp_all add: tri_def)

lemma tri_Suc: "tri (j + 1) = tri j + j"
  using tri_double [of j] tri_double [of "j + 1"] by (simp add: algebra_simps)

lemma tri_nonneg: "0 \<le> j \<Longrightarrow> 0 \<le> tri j"
proof -
  assume "0 \<le> j"
  then have "0 \<le> j * (j - 1)" by (cases "j = 0") auto
  then show ?thesis using tri_double [of j] by linarith
qed

lemma abs_tri:
  assumes "0 \<le> j"
  shows "- (a * tri j) \<le> \<bar>a\<bar> * tri j" and "a * tri j \<le> \<bar>a\<bar> * tri j"
  using mult_right_mono [OF abs_ge_minus_self tri_nonneg [OF assms], of a]
    mult_right_mono [OF abs_ge_self tri_nonneg [OF assms], of a] by simp_all

lemma seq_time_Suc: "seq_time add i (j + 1) = seq_time add i j + (i + add * j)"
  unfolding seq_time_def tri_Suc by (simp add: algebra_simps)

lemma seq_time_1 [simp]: "seq_time add i 1 = i"
  by (simp add: seq_time_def)

lemma spacedD:
  assumes "spaced lo hi N E"
  shows "1 \<le> N" and "1 \<le> lo 1" and "hi N < 3 * 2 ^ 28"
    and "1 \<le> j \<Longrightarrow> j \<le> N \<Longrightarrow> lo j \<le> hi j" and "1 \<le> j \<Longrightarrow> j \<le> N \<Longrightarrow> hi j - lo j \<le> E"
    and "1 \<le> j \<Longrightarrow> j < N \<Longrightarrow> hi j < lo (j + 1)"
  using assms by (auto simp: spaced_def)

lemma fitsD:
  assumes "fits lo hi add i n" and "1 \<le> j" and "j \<le> n"
  shows "lo j \<le> seq_time add i j" and "seq_time add i j \<le> hi j"
  using assms by (auto simp: fits_def)

lemma spaced_hi_mono:
  assumes "spaced lo hi N E" and "1 \<le> j" and "j \<le> k" and "k \<le> N"
  shows "hi j \<le> hi k"
  using assms(3,4)
proof (induction k rule: int_ge_induct)
  case (step k)
  have "hi k < lo (k + 1)" "lo (k + 1) \<le> hi (k + 1)"
    using spacedD(6) [OF assms(1), of k] spacedD(4) [OF assms(1), of "k + 1"] assms(2) step by auto
  then show ?case using step by simp
qed simp

lemma spaced_below:
  assumes "spaced lo hi N E" and "1 \<le> j" and "j < k" and "k \<le> N"
  shows "hi j < lo k"
proof -
  have "hi j \<le> hi (k - 1)" using spaced_hi_mono [OF assms(1,2), of "k - 1"] assms(3,4) by simp
  moreover have "hi (k - 1) < lo (k - 1 + 1)" using spacedD(6) [OF assms(1), of "k - 1"] assms by simp
  ultimately show ?thesis by simp
qed

lemma spaced_range:
  assumes "spaced lo hi N E" and "1 \<le> j" and "j \<le> N"
  shows "1 \<le> lo j" and "lo j \<le> hi j" and "hi j < 3 * 2 ^ 28"
proof -
  show "lo j \<le> hi j" using spacedD(4) [OF assms] .
  show "1 \<le> lo j"
  proof (cases "j = 1")
    case False
    then have "hi 1 < lo j" using spaced_below [OF assms(1), of 1 j] assms by simp
    then show ?thesis using spacedD(4) [OF assms(1), of 1] spacedD(1,2) [OF assms(1)] by linarith
  qed (use spacedD(2) [OF assms(1)] in simp)
  show "hi j < 3 * 2 ^ 28"
    using spaced_hi_mono [OF assms(1,2,3)] spacedD(3) [OF assms(1)] by simp
qed

text \<open>The steps of a fitting sequence never go backwards.\<close>

lemma fits_increment:
  assumes "spaced lo hi N E" and "fits lo hi add i n" and "n \<le> N" and "0 \<le> j" and "j < n"
  shows "1 \<le> i + add * j"
proof (cases "j = 0")
  case True
  have "lo 1 \<le> seq_time add i 1" using fitsD(1) [OF assms(2), of 1] assms(4,5) by simp
  then show ?thesis using True spacedD(2) [OF assms(1)] by simp
next
  case False
  have "seq_time add i j \<le> hi j" "lo (j + 1) \<le> seq_time add i (j + 1)"
    using fitsD(2) [OF assms(2), of j] fitsD(1) [OF assms(2), of "j + 1"] assms(4,5) False by auto
  moreover have "hi j < lo (j + 1)" using spaced_below [OF assms(1), of j "j + 1"] assms False by simp
  ultimately show ?thesis using seq_time_Suc [of add i j] by linarith
qed

lemma fits_total:
  assumes "spaced lo hi N E" and "fits lo hi add i n" and "1 \<le> n" and "n \<le> N"
  shows "1 \<le> i" and "1 \<le> seq_time add i n" and "seq_time add i n < 3 * 2 ^ 28" and "i < 3 * 2 ^ 28"
proof -
  show "1 \<le> i" using fits_increment [OF assms(1,2,4), of 0] assms(3) by simp
  have n: "lo n \<le> seq_time add i n" "seq_time add i n \<le> hi n" using fitsD [OF assms(2,3)] by auto
  then show "1 \<le> seq_time add i n" "seq_time add i n < 3 * 2 ^ 28"
    using spaced_range [OF assms(1,3,4)] by linarith+
  have "seq_time add i 1 \<le> hi 1" using fitsD(2) [OF assms(2), of 1] assms(3) by simp
  then show "i < 3 * 2 ^ 28" using spaced_range(3) [OF assms(1), of 1] spacedD(1) [OF assms(1)] by simp
qed

lemma fits_add_part:
  assumes "spaced lo hi N E" and "fits lo hi add i n" and "1 \<le> n" and "n \<le> N"
  shows "\<bar>add\<bar> * tri n < 3 * 2 ^ 28"
proof (cases "0 \<le> add")
  case True
  have "0 \<le> i * n" using fits_total(1) [OF assms] assms(3) by simp
  then show ?thesis using fits_total(3) [OF assms] True by (simp add: seq_time_def)
next
  case False
  have "1 \<le> i + add * (n - 1)" using fits_increment [OF assms(1,2,4), of "n - 1"] assms(3) by simp
  then have "0 \<le> (i + add * (n - 1)) * n" using assms(3) by simp
  also have "\<dots> = i * n + 2 * (add * tri n)" unfolding tri_double_mult by (simp add: algebra_simps)
  finally have "0 \<le> seq_time add i n + add * tri n" by (simp add: seq_time_def)
  then show ?thesis using fits_total(3) [OF assms] False by simp
qed

lemma fits_interval_part:
  assumes "spaced lo hi N E" and "fits lo hi add i n" and "1 \<le> n" and "n \<le> N"
  shows "i * n < 2 * (3 * 2 ^ 28)"
proof -
  have "- (add * tri n) < 3 * 2 ^ 28"
    using fits_add_part [OF assms] abs_tri(1) [of n add] assms(3) by linarith
  then show ?thesis using fits_total(3) [OF assms] by (simp add: seq_time_def)
qed

text \<open>One step further: the next products stay small too.\<close>

lemma fits_add_next:
  assumes "spaced lo hi N E" and "fits lo hi add i n" and "1 \<le> n" and "n \<le> N" and "\<bar>add\<bar> \<le> 2 ^ 15"
  shows "\<bar>add\<bar> * n < 2 ^ 27 + 1" and "\<bar>add\<bar> * tri (n + 1) \<le> 3 * 2 ^ 28 + 2 ^ 27"
proof -
  show *: "\<bar>add\<bar> * n < 2 ^ 27 + 1"
  proof (cases "n \<le> 2 ^ 12")
    case True
    then have "\<bar>add\<bar> * n \<le> 2 ^ 15 * 2 ^ 12" using assms(3,5) by (intro mult_mono) auto
    then show ?thesis by simp
  next
    case False
    then have "\<bar>add\<bar> * n * 2 ^ 12 \<le> \<bar>add\<bar> * n * (n - 1)" by (intro mult_left_mono) auto
    also have "\<dots> = 2 * (\<bar>add\<bar> * tri n)" unfolding tri_double_mult by (simp add: algebra_simps)
    also have "\<dots> < 2 * (3 * 2 ^ 28)" using fits_add_part [OF assms(1-4)] by linarith
    finally show ?thesis by (simp add: mult.commute)
  qed
  show "\<bar>add\<bar> * tri (n + 1) \<le> 3 * 2 ^ 28 + 2 ^ 27"
    using * fits_add_part [OF assms(1-4)] unfolding tri_Suc by (simp add: algebra_simps)
qed

lemma fits_interval_next:
  assumes "spaced lo hi N E" and "fits lo hi add i n" and "1 \<le> n" and "n \<le> N" and "\<bar>add\<bar> \<le> 2 ^ 15"
  shows "0 \<le> i * (n + 1)" and "i * (n + 1) < 6 * 2 ^ 28 + 2 ^ 25"
proof -
  note i = fits_total(1) [OF assms(1-4)]
  show "0 \<le> i * (n + 1)" using i assms(3) by simp
  consider "n = 1" | "2 \<le> n" "n \<le> 64" | "64 < n" using assms(3) by linarith
  then show "i * (n + 1) < 6 * 2 ^ 28 + 2 ^ 25"
  proof cases
    case 1
    then show ?thesis using fits_total(4) [OF assms(1-4)] by simp
  next
    case 2
    have "n * (n - 1) \<le> 64 * 63" using 2 by (intro mult_mono) auto
    then have "tri n \<le> 2016" using tri_double [of n] by linarith
    then have "\<bar>add\<bar> * tri n \<le> 2 ^ 15 * 2016" using assms(5) tri_nonneg [of n] 2 by (intro mult_mono) auto
    moreover have "- (add * tri n) \<le> \<bar>add\<bar> * tri n" using abs_tri(1) [of n add] 2 by simp
    ultimately have "i * n < 3 * 2 ^ 28 + 2 ^ 26"
      using fits_total(3) [OF assms(1-4)] by (simp add: seq_time_def)
    moreover have "2 * i \<le> i * n" using i 2 by simp
    ultimately show ?thesis by (simp add: algebra_simps)
  next
    case 3
    have "i * 64 \<le> i * n" using i 3 by (intro mult_left_mono) auto
    then show ?thesis using fits_interval_part [OF assms(1-4)] by (simp add: algebra_simps)
  qed
qed

end
