(* ===== verification/Bisect_correct.thy ===== *)
theory Bisect_correct
  imports Stepcompress Quadratic
begin

text \<open>
  Total correctness of \<^verbatim>\<open>compress_bisect_add\<close>: on a queue of increasing step times the search
  ends, none of its 32-bit computations overflows, and the sequence it returns fits the window of every
  step it covers.  The key to the bounds is that the windows are disjoint, so that the steps of a
  fitting sequence never go backwards.
\<close>


section \<open>Checked arithmetic\<close>

lemma wp_i32 [wp_simps]: "wp (i32 x) Q E s \<longleftrightarrow> - (2 ^ 31) \<le> x \<and> x < 2 ^ 31 \<and> Q x s"
  by (auto simp: i32_def wp_simps)

lemma wp_cdiv: "0 < d \<Longrightarrow> wp (cdiv n d) Q E s \<longleftrightarrow> - (2 ^ 31) \<le> n sdiv d \<and> n sdiv d < 2 ^ 31 \<and> Q (n sdiv d) s"
  by (simp add: cdiv_def wp_simps)

lemma sdiv_pos: "0 \<le> n \<Longrightarrow> 0 < d \<Longrightarrow> n sdiv d = n div (d :: int)"
  by (cases "n = 0") (auto simp: signed_divide_int_def)

lemma sdiv_neg: "n < 0 \<Longrightarrow> 0 < d \<Longrightarrow> n sdiv d = - ((- n) div (d :: int))"
  by (simp add: signed_divide_int_def)

lemma div_bounds: "0 < d \<Longrightarrow> n - d < (n div d) * d \<and> (n div d) * d \<le> (n :: int)"
proof -
  assume d: "0 < d"
  have "n - n mod d = n div d * d" by (rule minus_mod_eq_div_mult)
  then show ?thesis using pos_mod_bound [OF d, of n] pos_mod_sign [OF d, of n] by linarith
qed

lemma small_multiple:
  assumes "0 < d" and "l \<le> r * d" and "r * d \<le> u" and "l \<le> 0" and "0 \<le> (u :: int)"
  shows "l \<le> r" and "r \<le> u"
proof -
  have "r \<le> u"
  proof (cases "0 \<le> r")
    case True
    then have "r * 1 \<le> r * d" using assms(1) by (intro mult_left_mono) auto
    then show ?thesis using assms(3) by simp
  qed (use assms(5) in simp)
  moreover have "l \<le> r"
  proof (cases "0 \<le> r")
    case False
    then have "r * d \<le> r * 1" using assms(1) by (intro mult_left_mono_neg) auto
    then show ?thesis using assms(2) by simp
  qed (use assms(4) in simp)
  ultimately show "l \<le> r" and "r \<le> u" by simp_all
qed

lemma wp_idiv_up:
  assumes "0 < d" and "- (2 ^ 31) < n" and "n + d < 2 ^ 31" and "\<And>r. n \<le> r * d \<Longrightarrow> r * d < n + d \<Longrightarrow> Q r s"
  shows "wp (idiv_up n d) Q E s"
proof (cases "0 \<le> n")
  case True
  have *: "n \<le> (n + d - 1) div d * d" "(n + d - 1) div d * d < n + d"
    using div_bounds [of d "n + d - 1"] assms(1) by auto
  then have "- (2 ^ 31) \<le> (n + d - 1) div d" "(n + d - 1) div d < 2 ^ 31"
    using small_multiple [of d "- (2 ^ 31)" "(n + d - 1) div d" "n + d"] assms(1,3) True by auto
  then show ?thesis
    using True assms * by (simp add: idiv_up_def wp_simps wp_cdiv sdiv_pos)
next
  case False
  have *: "n \<le> - ((- n) div d) * d" "- ((- n) div d) * d < n + d"
    using div_bounds [of d "- n"] assms(1) by auto
  then have "- (2 ^ 31) \<le> - ((- n) div d)" "- ((- n) div d) < 2 ^ 31"
    using small_multiple [of d "- (2 ^ 31)" "- ((- n) div d)" "2 ^ 31 - 1"] assms(1-3) by auto
  then show ?thesis
    using False assms * by (simp add: idiv_up_def wp_simps wp_cdiv sdiv_neg)
qed

lemma wp_idiv_down:
  assumes "0 < d" and "- (2 ^ 31) \<le> n - d" and "n < 2 ^ 31" and "\<And>r. n - d < r * d \<Longrightarrow> r * d \<le> n \<Longrightarrow> Q r s"
  shows "wp (idiv_down n d) Q E s"
proof (cases "0 \<le> n")
  case True
  have *: "n - d < n div d * d" "n div d * d \<le> n" using div_bounds [of d n] assms(1) by auto
  then have "- (2 ^ 31) \<le> n div d" "n div d < 2 ^ 31"
    using small_multiple [of d "- (2 ^ 31)" "n div d" "2 ^ 31 - 1"] assms(1-3) by auto
  then show ?thesis
    using True assms * by (simp add: idiv_down_def wp_simps wp_cdiv sdiv_pos)
next
  case False
  have eq: "(n - d + 1) sdiv d = n div d"
  proof -
    have "(n - d + 1) sdiv d = - ((d - 1 - n) div d)" using False assms(1) by (simp add: sdiv_neg algebra_simps)
    also have "\<dots> = n div d"
    proof -
      let ?r = "(d - 1 - n) div d"
      have "- ?r * d \<le> n" "n < - ?r * d + d" using div_bounds [OF assms(1), of "d - 1 - n"] by auto
      then show ?thesis using assms(1)
        by (intro int_div_pos_eq [symmetric, of _ _ _ "n + ?r * d"]) (auto simp: algebra_simps)
    qed
    finally show ?thesis .
  qed
  have *: "n - d < n div d * d" "n div d * d \<le> n" using div_bounds [of d n] assms(1) by auto
  then have "- (2 ^ 31) \<le> n div d" "n div d < 2 ^ 31"
    using small_multiple [of d "- (2 ^ 31)" "n div d" "2 ^ 31 - 1"] assms(1-3) by auto
  then show ?thesis
    using False assms * by (simp add: idiv_down_def wp_simps wp_cdiv eq)
qed

lemma wp_addfactor:
  assumes "1 \<le> n" and "n \<le> 46341"
  shows "wp (addfactor n) Q E s \<longleftrightarrow> Q (tri n) s"
proof -
  have "n * (n - 1) \<le> 46341 * 46340" using assms by (intro mult_mono) auto
  moreover have "0 \<le> n * (n - 1)" using assms by simp
  moreover have "n * (n - 1) sdiv 2 = tri n" using assms by (simp add: sdiv_pos tri_def)
  moreover have "tri n \<le> n * (n - 1)" "0 \<le> tri n" using tri_double [of n] tri_nonneg [of n] assms by linarith+
  ultimately show ?thesis using assms by (simp add: addfactor_def wp_simps wp_cdiv)
qed

section \<open>The longest sequence for a given increment\<close>

definition win_lo :: "stepcompress \<Rightarrow> int \<Rightarrow> int" where
  "win_lo sc j = minp (minmax_at sc (nat (int (sc_queue_pos sc) + j - 1)))"

definition win_hi :: "stepcompress \<Rightarrow> int \<Rightarrow> int" where
  "win_hi sc j = maxp (minmax_at sc (nat (int (sc_queue_pos sc) + j - 1)))"

definition compress_ok :: "stepcompress \<Rightarrow> nat \<Rightarrow> bool" where
  "compress_ok sc qlast \<longleftrightarrow> qlast \<le> length (sc_queue sc) \<and> sc_queue_pos sc < qlast \<and> qlast - sc_queue_pos sc \<le> 46341 \<and>
     sc_max_error sc < 2 ^ 18 \<and>
     spaced (win_lo sc) (win_hi sc) (int qlast - int (sc_queue_pos sc)) (int (unat (sc_max_error sc)))"

lemma fits_between:
  assumes "fits lo hi a x n" and "fits lo hi a z n" and "x \<le> y" and "y \<le> z"
  shows "fits lo hi a y n"
  unfolding fits_def
proof (intro ballI conjI)
  fix j assume "j \<in> {1..n}"
  then have j: "1 \<le> j" "j \<le> n" by auto
  then have "x * j \<le> y * j" "y * j \<le> z * j" using assms(3,4) by (auto intro: mult_right_mono)
  then show "lo j \<le> seq_time a y j" "seq_time a y j \<le> hi j"
    using fitsD(1) [OF assms(1) j] fitsD(2) [OF assms(2) j] unfolding seq_time_def by linarith+
qed

lemma fits_Suc:
  assumes "fits lo hi a i n" and "0 \<le> n" and "lo (n + 1) \<le> seq_time a i (n + 1)" and "seq_time a i (n + 1) \<le> hi (n + 1)"
  shows "fits lo hi a i (n + 1)"
  unfolding fits_def
proof
  fix j assume "j \<in> {1..n + 1}"
  then consider "1 \<le> j" "j \<le> n" | "j = n + 1" by fastforce
  then show "lo j \<le> seq_time a i j \<and> seq_time a i j \<le> hi j"
    by cases (use assms fitsD [OF assms(1), of j] in auto)
qed

text \<open>The outer bounds of the interval; they may have crossed.\<close>

definition outer_ok :: "(int \<Rightarrow> int) \<Rightarrow> (int \<Rightarrow> int) \<Rightarrow> int \<Rightarrow> int \<Rightarrow> bool" where
  "outer_ok lo hi omin omax \<longleftrightarrow> lo 1 \<le> omin \<and> omin < 7 * 2 ^ 27 \<and> - (2 ^ 29) \<le> omax \<and> omax \<le> hi 1"

text \<open>The state of the inner loop.\<close>

definition head_ok :: "(int \<Rightarrow> int) \<Rightarrow> (int \<Rightarrow> int) \<Rightarrow> int \<Rightarrow> int \<Rightarrow> int \<Rightarrow> int \<Rightarrow> int \<times> int \<times> int \<times> int \<Rightarrow> bool" where
  "head_ok lo hi N omin omax add = (\<lambda>(n, nmin, nmax, i). 1 \<le> n \<and> n \<le> N \<and> i = nmax \<and> omin \<le> nmin \<and> nmax \<le> omax \<and> (n = 1 \<longrightarrow> nmax = omax) \<and>
     (fits lo hi add nmin n \<and> fits lo hi add nmax n \<and> nmin \<le> nmax \<or>
      n = 1 \<and> nmin = omin \<and> nmax = omax \<and> omax < omin \<and> 2 \<le> N))"

definition broken_ok :: "(int \<Rightarrow> int) \<Rightarrow> (int \<Rightarrow> int) \<Rightarrow> int \<Rightarrow> int \<Rightarrow> int \<Rightarrow> int \<Rightarrow> int \<Rightarrow> points \<Rightarrow> int \<Rightarrow> int \<Rightarrow> int \<Rightarrow> bool" where
  "broken_ok lo hi N omin omax add n pt nmin nmax i \<longleftrightarrow> 2 \<le> n \<and> n \<le> N \<and> pt = \<lparr>minp = lo n, maxp = hi n\<rparr> \<and>
     nmax < nmin \<and> omin \<le> nmin \<and> nmax \<le> omax \<and> nmin * n < 7 * 2 ^ 28 \<and> - (2 ^ 30) \<le> nmax * n \<and> (n = 2 \<longrightarrow> i = omax) \<and>
     (fits lo hi add i (n - 1) \<and> omin \<le> i \<or> n = 2 \<and> i = omax \<and> omax < omin)"

definition run_ok :: "(int \<Rightarrow> int) \<Rightarrow> (int \<Rightarrow> int) \<Rightarrow> int \<Rightarrow> int \<Rightarrow> int \<Rightarrow> int \<Rightarrow> bisect_run \<Rightarrow> bool" where
  "run_ok lo hi N omin omax add run =
     (case run of
        Covered i n \<Rightarrow> n = N \<and> fits lo hi add i N
      | Broken n pt nmin nmax i \<Rightarrow> broken_ok lo hi N omin omax add n pt nmin nmax i)"

lemma head_products:
  assumes "head_ok lo hi N omin omax add (n, nmin, nmax, i)" and "spaced lo hi N E"
    and "outer_ok lo hi omin omax" and "\<bar>add\<bar> \<le> 2 ^ 15"
  shows "\<bar>add * tri (n + 1)\<bar> \<le> 3 * 2 ^ 28 + 2 ^ 27"
    and "0 \<le> nmin * (n + 1)" and "nmin * (n + 1) < 7 * 2 ^ 28"
    and "- (2 ^ 30) \<le> nmax * (n + 1)" and "nmax * (n + 1) < 7 * 2 ^ 28"
proof -
  consider (fit) "fits lo hi add nmin n" "fits lo hi add nmax n" "1 \<le> n" "n \<le> N"
    | (crossed) "n = 1" "nmin = omin" "nmax = omax"
    using assms(1) by (auto simp: head_ok_def)
  then have "\<bar>add * tri (n + 1)\<bar> \<le> 3 * 2 ^ 28 + 2 ^ 27 \<and> 0 \<le> nmin * (n + 1) \<and> nmin * (n + 1) < 7 * 2 ^ 28 \<and>
    - (2 ^ 30) \<le> nmax * (n + 1) \<and> nmax * (n + 1) < 7 * 2 ^ 28"
  proof cases
    case fit
    have "\<bar>add * tri (n + 1)\<bar> = \<bar>add\<bar> * tri (n + 1)" using tri_nonneg [of "n + 1"] fit(3) by (simp add: abs_mult)
    then show ?thesis
      using fits_add_next(2) [OF assms(2) fit(1,3,4) assms(4)]
        fits_interval_next [OF assms(2) fit(1,3,4) assms(4)] fits_interval_next [OF assms(2) fit(2,3,4) assms(4)]
      by auto
  next
    case crossed
    then show ?thesis
      using assms(3,4) spaced_range [OF assms(2), of 1] spacedD(1) [OF assms(2)] by (auto simp: outer_ok_def)
  qed
  then show "\<bar>add * tri (n + 1)\<bar> \<le> 3 * 2 ^ 28 + 2 ^ 27"
    and "0 \<le> nmin * (n + 1)" and "nmin * (n + 1) < 7 * 2 ^ 28"
    and "- (2 ^ 30) \<le> nmax * (n + 1)" and "nmax * (n + 1) < 7 * 2 ^ 28" by auto
qed

text \<open>The two updates of a round.\<close>

lemma wp_raise_min:
  assumes "0 < n" and "- (2 ^ 31) < l" and "l + n < 2 ^ 31"
    and "\<And>r. l \<le> r * n \<Longrightarrow> x \<le> r \<Longrightarrow> r = x \<or> r * n < l + n \<Longrightarrow> Q r s"
  shows "wp (if x * n < l then idiv_up l n else ret x) Q E s"
proof (cases "x * n < l")
  case True
  have "x \<le> r" if "l \<le> r * n" for r
  proof -
    have "x * n \<le> r * n" using True that by simp
    then show ?thesis using assms(1) by simp
  qed
  then show ?thesis using True assms by (auto intro!: wp_idiv_up)
qed (use assms in \<open>auto simp: wp_simps\<close>)

lemma wp_lower_max:
  assumes "0 < n" and "- (2 ^ 31) \<le> l - n" and "l < 2 ^ 31"
    and "\<And>r. r * n \<le> l \<Longrightarrow> r \<le> x \<Longrightarrow> r = x \<or> l - n < r * n \<Longrightarrow> Q r s"
  shows "wp (if l < x * n then idiv_down l n else ret x) Q E s"
proof (cases "l < x * n")
  case True
  have "r \<le> x" if "r * n \<le> l" for r
  proof -
    have "r * n \<le> x * n" using True that by simp
    then show ?thesis using assms(1) by simp
  qed
  then show ?thesis using True assms by (auto intro!: wp_idiv_down)
qed (use assms in \<open>auto simp: wp_simps\<close>)

lemma head_step:
  assumes "head_ok lo hi N omin omax add (n, nmin, nmax, i)" and "n + 1 \<le> N" and "spaced lo hi N E"
    and "lo (n + 1) - add * tri (n + 1) \<le> nmin' * (n + 1)" and "nmin \<le> nmin'"
    and "nmax' * (n + 1) \<le> hi (n + 1) - add * tri (n + 1)" and "nmax' \<le> nmax" and "nmin' \<le> nmax'"
  shows "head_ok lo hi N omin omax add (n + 1, nmin', nmax', nmax')"
proof -
  have f: "fits lo hi add nmin n" "fits lo hi add nmax n" "1 \<le> n"
    using assms(1,5,7,8) by (auto simp: head_ok_def)
  have le: "nmin' * (n + 1) \<le> nmax' * (n + 1)" using assms(8) f(3) by (intro mult_right_mono) auto
  have "fits lo hi add x (n + 1)" if "x = nmin' \<or> x = nmax'" for x
  proof (rule fits_Suc)
    show "fits lo hi add x n" using that assms(5,7,8) by (intro fits_between [OF f(1,2)]) auto
    show "lo (n + 1) \<le> seq_time add x (n + 1)" "seq_time add x (n + 1) \<le> hi (n + 1)"
      using that assms(4,6) le unfolding seq_time_def by (elim disjE; simp only:; linarith)+
  qed (use f in simp)
  then show ?thesis using assms f by (auto simp: head_ok_def)
qed

lemma head_broken:
  assumes "head_ok lo hi N omin omax add (n, nmin, nmax, i)" and "n + 1 \<le> N"
    and "nmin \<le> nmin'" and "nmax' \<le> nmax" and "nmax' < nmin'"
    and "nmin' * (n + 1) < 7 * 2 ^ 28" and "- (2 ^ 30) \<le> nmax' * (n + 1)"
  shows "broken_ok lo hi N omin omax add (n + 1) \<lparr>minp = lo (n + 1), maxp = hi (n + 1)\<rparr> nmin' nmax' i"
  using assms by (auto simp: head_ok_def broken_ok_def)

lemma points_eta [simp]: "\<lparr>minp = minp r, maxp = maxp r\<rparr> = r"
  by (cases r) simp

lemma wp_minmax_point:
  assumes "compress_ok sc qlast" and "1 \<le> j" and "j \<le> int qlast - int (sc_queue_pos sc)"
  shows "wp (minmax_point (nat (int (sc_queue_pos sc) + j - 1))) Q E sc \<longleftrightarrow> Q \<lparr>minp = win_lo sc j, maxp = win_hi sc j\<rparr> sc"
proof -
  have "nat (int (sc_queue_pos sc) + j - 1) < length (sc_queue sc)" using assms by (auto simp: compress_ok_def)
  then show ?thesis by (simp add: minmax_point_def wp_simps win_lo_def win_hi_def)
qed

lemma extend_ok:
  assumes ok: "compress_ok sc qlast" and N: "N = int qlast - int (sc_queue_pos sc)"
    and lo: "lo = win_lo sc" and hi: "hi = win_hi sc"
    and head: "head_ok lo hi N omin omax add (n, nmin, nmax, i)"
    and outer: "outer_ok lo hi omin omax" and add: "\<bar>add\<bar> \<le> 2 ^ 15"
  shows "wp (bisect_extend qlast add (n, nmin, nmax, i))
    (\<lambda>r s. s = sc \<and> (case r of Inl st \<Rightarrow> head_ok lo hi N omin omax add st \<and> fst st = n + 1
                      | Inr run \<Rightarrow> run_ok lo hi N omin omax add run)) E sc"
proof -
  have sp: "spaced lo hi N (int (unat (sc_max_error sc)))" and N46: "N \<le> 46341"
    using ok N lo hi by (auto simp: compress_ok_def)
  have n: "1 \<le> n" "n \<le> N" using head by (auto simp: head_ok_def)
  show ?thesis
  proof (cases "n + 1 \<le> N")
    case False
    then have "int (sc_queue_pos sc) + (n + 1) - 1 \<ge> int qlast" using N by simp
    moreover have nN: "n = N" using False n by simp
    moreover have "fits lo hi add i N" using head nN by (auto simp: head_ok_def)
    ultimately show ?thesis using n N46 by (simp add: bisect_extend_def wp_simps run_ok_def)
  next
    case True
    let ?c = "add * tri (n + 1)"
    note prod = head_products [OF head sp outer add]
    have w: "1 \<le> lo (n + 1)" "lo (n + 1) \<le> hi (n + 1)" "hi (n + 1) < 3 * 2 ^ 28"
      using spaced_range [OF sp, of "n + 1"] n True by auto
    have last: "wp (bnd (if nmax * (n + 1) > hi (n + 1) - ?c then idiv_down (hi (n + 1) - ?c) (n + 1) else ret nmax) (\<lambda>nmax'.
       if nmin' > nmax' then ret (Inr (Broken (n + 1) \<lparr>minp = lo (n + 1), maxp = hi (n + 1)\<rparr> nmin' nmax' i))
       else ret (Inl (n + 1, nmin', nmax', nmax'))))
      (\<lambda>r s. s = sc \<and> (case r of Inl st \<Rightarrow> head_ok lo hi N omin omax add st \<and> fst st = n + 1
                        | Inr run \<Rightarrow> run_ok lo hi N omin omax add run)) E sc"
      if m: "lo (n + 1) - ?c \<le> nmin' * (n + 1)" "nmin \<le> nmin'" "nmin' * (n + 1) < 7 * 2 ^ 28" for nmin'
      unfolding wp_bnd
    proof (rule wp_lower_max)
      fix r
      assume r: "r * (n + 1) \<le> hi (n + 1) - ?c" "r \<le> nmax" "r = nmax \<or> hi (n + 1) - ?c - (n + 1) < r * (n + 1)"
      have low: "- (2 ^ 30) \<le> r * (n + 1)" using r(3) prod w n N46 True by auto
      show "wp (if nmin' > r then ret (Inr (Broken (n + 1) \<lparr>minp = lo (n + 1), maxp = hi (n + 1)\<rparr> nmin' r i))
         else ret (Inl (n + 1, nmin', r, r)))
       (\<lambda>r s. s = sc \<and> (case r of Inl st \<Rightarrow> head_ok lo hi N omin omax add st \<and> fst st = n + 1
                        | Inr run \<Rightarrow> run_ok lo hi N omin omax add run)) E sc"
        using head_broken [OF head True m(2) r(2) _ m(3) low] head_step [OF head True sp m(1,2) r(1,2)]
        by (simp add: wp_simps run_ok_def)
    qed (use prod w n True N46 in auto)
    have guard: "(int (sc_queue_pos sc) + (n + 1) - 1 \<ge> int qlast) = False" using N True by simp
    have j: "1 \<le> n + 1" "n + 1 \<le> int qlast - int (sc_queue_pos sc)" "n + 1 \<le> 46341" using n True N N46 by auto
    show ?thesis
      apply (simp only: bisect_extend_def prod.case wp_bnd wp_i32 wp_gets guard if_False wp_minmax_point [OF ok j(1,2)]
        wp_addfactor [OF j(1,3)] points.simps flip: lo hi)
      apply (intro conjI wp_raise_min)
                 prefer 12
      subgoal premises r for r
      proof -
        have "r * (n + 1) < 7 * 2 ^ 28" using r(3) prod w j by auto
        then show ?thesis
          using last [OF r(1,2)] prod w unfolding wp_bnd wp_i32 by auto
      qed
      using prod w n j by auto
  qed
qed

lemma extend_loop_ok:
  assumes ok: "compress_ok sc qlast" and N: "N = int qlast - int (sc_queue_pos sc)"
    and lo: "lo = win_lo sc" and hi: "hi = win_hi sc"
    and outer: "outer_ok lo hi omin omax" and add: "\<bar>add\<bar> \<le> 2 ^ 15" and start: "omin \<le> omax \<or> 2 \<le> N"
  shows "wp (loopp (bisect_extend qlast add) (1, omin, omax, omax))
    (\<lambda>run s. s = sc \<and> run_ok lo hi N omin omax add run) E sc"
proof (rule wp_loopp [where I = "\<lambda>st s. s = sc \<and> head_ok lo hi N omin omax add st" and m = "\<lambda>st _. nat (N - fst st)"])
  have "1 \<le> N" using ok N by (auto simp: compress_ok_def)
  moreover have "fits lo hi add x 1" if "lo 1 \<le> x" "x \<le> hi 1" for x
    using that by (auto simp: fits_def dest!: order_antisym)
  ultimately show "sc = sc \<and> head_ok lo hi N omin omax add (1, omin, omax, omax)"
    using outer start by (auto simp: head_ok_def outer_ok_def)
next
  fix st s
  assume st: "s = sc \<and> head_ok lo hi N omin omax add st"
  obtain n nmin nmax i where eq: "st = (n, nmin, nmax, i)" by (cases st) auto
  have "n \<le> N" using st eq by (simp add: head_ok_def)
  show "wp (bisect_extend qlast add st)
     (\<lambda>r s'. case r of Inl st' \<Rightarrow> (s' = sc \<and> head_ok lo hi N omin omax add st') \<and> nat (N - fst st') < nat (N - fst st)
        | Inr run \<Rightarrow> s' = sc \<and> run_ok lo hi N omin omax add run) E s"
    using extend_ok [OF ok N lo hi _ outer add, of n nmin nmax i E] st unfolding eq
    by (auto elim!: wp_mono split: sum.splits simp: head_ok_def)
qed

section \<open>Narrowing the range of the increment\<close>

definition same_best :: "bisect \<Rightarrow> bisect \<Rightarrow> bool" where
  "same_best b b' \<longleftrightarrow> b_bestinterval b' = b_bestinterval b \<and> b_bestcount b' = b_bestcount b \<and>
     b_bestadd b' = b_bestadd b \<and> b_bestreach b' = b_bestreach b \<and>
     b_zerointerval b' = b_zerointerval b \<and> b_zerocount b' = b_zerocount b"

definition range_ok :: "bisect \<Rightarrow> bool" where
  "range_ok b \<longleftrightarrow> - (2 ^ 15) \<le> b_minadd b \<and> b_minadd b \<le> b_add b \<and> b_add b \<le> b_maxadd b \<and> b_maxadd b < 2 ^ 15"

lemma wp_limit_min:
  assumes "0 < t" and "- (2 ^ 31) < l" and "l + t < 2 ^ 31"
    and "\<And>m. b_minadd b \<le> m \<Longrightarrow> Q (b\<lparr>b_minadd := m\<rparr>) s"
  shows "wp (if b_minadd b * t < l then bnd (idiv_up l t) (\<lambda>m. ret (b\<lparr>b_minadd := m\<rparr>)) else ret b) Q E s"
proof -
  have "wp (if b_minadd b * t < l then idiv_up l t else ret (b_minadd b)) (\<lambda>m. Q (b\<lparr>b_minadd := m\<rparr>)) E s"
    by (rule wp_raise_min [OF assms(1-3)]) (rule assms(4))
  then show ?thesis by (auto simp: wp_simps split: if_splits)
qed

lemma wp_limit_max:
  assumes "0 < t" and "- (2 ^ 31) \<le> l - t" and "l < 2 ^ 31"
    and "\<And>m. m \<le> b_maxadd b \<Longrightarrow> Q (b\<lparr>b_maxadd := m\<rparr>) s"
  shows "wp (if l < b_maxadd b * t then bnd (idiv_down l t) (\<lambda>m. ret (b\<lparr>b_maxadd := m\<rparr>)) else ret b) Q E s"
proof -
  have "wp (if l < b_maxadd b * t then idiv_down l t else ret (b_maxadd b)) (\<lambda>m. Q (b\<lparr>b_maxadd := m\<rparr>)) E s"
    by (rule wp_lower_max [OF assms(1-3)]) (rule assms(4))
  then show ?thesis by (auto simp: wp_simps split: if_splits)
qed

text \<open>The products a broken run leaves behind.\<close>

lemma broken_products:
  assumes "broken_ok lo hi N omin omax add n pt nmin nmax i" and "spaced lo hi N E"
    and "outer_ok lo hi omin omax" and "\<bar>add\<bar> \<le> 2 ^ 15"
  shows "\<bar>add * tri n\<bar> \<le> 3 * 2 ^ 28 + 2 ^ 27" and "- (2 ^ 30) \<le> i * n" and "i * n < 7 * 2 ^ 28"
    and "- (5 * 2 ^ 28) \<le> add * tri n + i * n" and "add * tri n + i * n < 7 * 2 ^ 28"
proof -
  have n: "2 \<le> n" "n \<le> N" using assms(1) by (auto simp: broken_ok_def)
  consider (fit) "fits lo hi add i (n - 1)" | (crossed) "n = 2" "i = omax"
    using assms(1) by (auto simp: broken_ok_def)
  then have "\<bar>add * tri n\<bar> \<le> 3 * 2 ^ 28 + 2 ^ 27 \<and> - (2 ^ 30) \<le> i * n \<and> i * n < 7 * 2 ^ 28 \<and>
    - (5 * 2 ^ 28) \<le> add * tri n + i * n \<and> add * tri n + i * n < 7 * 2 ^ 28"
  proof cases
    case fit
    have m: "1 \<le> n - 1" "n - 1 \<le> N" using n by auto
    have "\<bar>add * tri n\<bar> = \<bar>add\<bar> * tri n" using tri_nonneg [of n] n by (simp add: abs_mult)
    moreover have "add * tri n + i * n = seq_time add i (n - 1) + (i + add * (n - 1))"
      using seq_time_Suc [of add i "n - 1"] by (simp add: seq_time_def)
    moreover have "\<bar>add * (n - 1)\<bar> < 2 ^ 27 + 1"
      using fits_add_next(1) [OF assms(2) fit m assms(4)] n by (simp add: abs_mult)
    ultimately show ?thesis
      using fits_add_next(2) [OF assms(2) fit m assms(4)] fits_interval_next [OF assms(2) fit m assms(4)]
        fits_total [OF assms(2) fit m] by auto
  next
    case crossed
    then show ?thesis
      using assms(3,4) spaced_range [OF assms(2), of 1] spacedD(1) [OF assms(2)] by (auto simp: outer_ok_def)
  qed
  then show "\<bar>add * tri n\<bar> \<le> 3 * 2 ^ 28 + 2 ^ 27" and "- (2 ^ 30) \<le> i * n" and "i * n < 7 * 2 ^ 28"
    and "- (5 * 2 ^ 28) \<le> add * tri n + i * n" and "add * tri n + i * n < 7 * 2 ^ 28" by auto
qed

lemma broken_outer_products:
  assumes "broken_ok lo hi N omin omax add n pt nmin nmax i" and "spaced lo hi N E"
    and "outer_ok lo hi omin omax" and "\<bar>add\<bar> \<le> 2 ^ 15" and "n \<le> 513" and "E < 2 ^ 18"
  shows "- (2 ^ 30) \<le> omin * n" and "omin * n < 7 * 2 ^ 28" and "- (2 ^ 30) \<le> nmin * n" and "nmin * n < 7 * 2 ^ 28"
    and "- (2 ^ 30) \<le> omax * n" and "omax * n < 7 * 2 ^ 28" and "- (2 ^ 30) \<le> nmax * n" and "nmax * n < 7 * 2 ^ 28"
proof -
  have n: "2 \<le> n" "n \<le> N" and c: "nmax < nmin" "omin \<le> nmin" "nmax \<le> omax"
    and p: "nmin * n < 7 * 2 ^ 28" "- (2 ^ 30) \<le> nmax * n"
    using assms(1) by (auto simp: broken_ok_def)
  have m: "nmax * n \<le> nmin * n" "omin * n \<le> nmin * n" "nmax * n \<le> omax * n"
    using c n(1) by (auto intro!: mult_right_mono)
  have "1 \<le> omin" using assms(3) spacedD(2) [OF assms(2)] by (simp add: outer_ok_def)
  then have "0 \<le> omin * n" using n(1) by simp
  moreover have "omax * n < 7 * 2 ^ 28"
  proof -
    consider (fit) "fits lo hi add i (n - 1)" "omin \<le> i" | (crossed) "n = 2"
      using assms(1) by (auto simp: broken_ok_def)
    then show ?thesis
    proof cases
      case fit
      have "omax \<le> i + E" using fit(2) assms(3) spacedD(1,5) [OF assms(2)] by (force simp: outer_ok_def)
      then have "omax * n \<le> (i + E) * n" using n(1) by (intro mult_right_mono) auto
      also have "\<dots> = i * n + E * n" by (simp add: algebra_simps)
      also have "E * n \<le> 2 ^ 18 * 513" using assms(5,6) n(1) by (intro mult_mono) auto
      finally show ?thesis using fits_interval_next(2) [OF assms(2) fit(1) _ _ assms(4)] n by simp
    next
      case crossed
      then show ?thesis
        using assms(3) spaced_range(3) [OF assms(2), of 1] spacedD(1) [OF assms(2)] by (simp add: outer_ok_def)
    qed
  qed
  ultimately show "- (2 ^ 30) \<le> omin * n" and "omin * n < 7 * 2 ^ 28" and "- (2 ^ 30) \<le> nmin * n" and "nmin * n < 7 * 2 ^ 28"
    and "- (2 ^ 30) \<le> omax * n" and "omax * n < 7 * 2 ^ 28" and "- (2 ^ 30) \<le> nmax * n" and "nmax * n < 7 * 2 ^ 28"
    using p m by auto
qed

lemma errdelta_ok:
  assumes "max_error < (2 ^ 18 :: u32)" and "2 \<le> m" and "m \<le> (512 :: int)"
  defines "d \<equiv> sint (max_error * QUADRATIC_DEV div word_of_int (m * m))"
  shows "0 \<le> d" and "d * (m * m) < 2 ^ 22"
proof -
  have e: "unat max_error < 2 ^ 18" using assms(1) by (simp add: word_less_nat_alt)
  then have prod: "unat (max_error * QUADRATIC_DEV) = unat max_error * 11"
    by (simp add: QUADRATIC_DEV_def unat_mult_lem [THEN iffD1])
  have "m * m \<le> 512 * 512" "4 \<le> m * m" using assms(2,3) mult_mono [of m 512 m 512] mult_mono [of 2 m 2 m] by auto
  then have sqr: "unat (word_of_int (m * m) :: u32) = nat (m * m)" by (intro unat_of_int_u32) auto
  have q: "unat (max_error * QUADRATIC_DEV div word_of_int (m * m)) = unat max_error * 11 div nat (m * m)"
    by (simp only: unat_div prod sqr)
  also have "\<dots> \<le> unat max_error * 11" by simp
  finally have "unat (max_error * QUADRATIC_DEV div word_of_int (m * m)) < 2 ^ 31" using e by simp
  then have d: "d = int (unat max_error * 11 div nat (m * m))" unfolding d_def by (simp only: sint_small q)
  show "0 \<le> d" by (simp add: d)
  have "unat max_error * 11 div nat (m * m) * nat (m * m) \<le> unat max_error * 11" by simp
  then have "int (unat max_error * 11 div nat (m * m)) * (m * m) \<le> int (unat max_error * 11)"
    by (metis (no_types, lifting) int_nat_eq of_nat_le_iff of_nat_mult zero_le_square)
  also have "\<dots> < int (2 ^ 22)" using e by (simp only: of_nat_less_iff) simp
  also have "\<dots> = 2 ^ 22" by simp
  finally show "d * (m * m) < 2 ^ 22" unfolding d .
qed

lemma near_product:
  assumes "a - d \<le> x" and "x \<le> a + d" and "0 \<le> (t :: int)" and "d * t \<le> k"
  shows "a * t - k \<le> x * t" and "x * t \<le> a * t + k"
proof -
  have "(a - d) * t \<le> x * t" "x * t \<le> (a + d) * t" using assms(1-3) by (auto intro: mult_right_mono)
  then show "a * t - k \<le> x * t" and "x * t \<le> a * t + k" using assms(4) by (auto simp: algebra_simps)
qed

lemma wp_clip:
  assumes cnt: "cnt = n - 1" and n: "2 \<le> n" "n \<le> 513" and E: "sc_max_error sc < 2 ^ 18"
    and add: "\<bar>add\<bar> \<le> 2 ^ 15"
    and range: "- (2 ^ 15) \<le> b_minadd b" "b_minadd b \<le> add + 1" "add - 1 \<le> b_maxadd b" "b_maxadd b < 2 ^ 15"
    and Q: "\<And>m M. b_minadd b \<le> m \<Longrightarrow> M \<le> b_maxadd b \<Longrightarrow>
      \<bar>m * tri n\<bar> \<le> \<bar>add * tri n\<bar> + 2 ^ 23 \<Longrightarrow> \<bar>M * tri n\<bar> \<le> \<bar>add * tri n\<bar> + 2 ^ 23 \<Longrightarrow>
      Q (b\<lparr>b_minadd := m, b_maxadd := M\<rparr>) sc"
  shows "wp (if cnt > 1 then
             bnd (i32 (cnt * cnt)) (\<lambda>sqr.
             bnd (gets sc_max_error) (\<lambda>max_error.
             bnd (ret (sint (max_error * QUADRATIC_DEV div word_of_int sqr))) (\<lambda>errdelta.
             bnd (i32 (add - errdelta)) (\<lambda>lo.
             bnd (ret (if b_minadd b < lo then b\<lparr>b_minadd := lo\<rparr> else b)) (\<lambda>b.
             bnd (i32 (add + errdelta)) (\<lambda>hi.
             ret (if b_maxadd b > hi then b\<lparr>b_maxadd := hi\<rparr> else b)))))))
           else ret b) Q E sc"
proof (cases "cnt > 1")
  case False
  then have [simp]: "n = 2" using cnt n by simp
  have "Q (b\<lparr>b_minadd := b_minadd b, b_maxadd := b_maxadd b\<rparr>) sc" using range add by (intro Q) auto
  then show ?thesis using False by (simp add: wp_simps)
next
  case True
  define d where "d = sint (sc_max_error sc * QUADRATIC_DEV div word_of_int (cnt * cnt))"
  have d: "0 \<le> d" "d * (cnt * cnt) < 2 ^ 22" using errdelta_ok [OF E, of cnt] True cnt n unfolding d_def by auto
  have sqr: "0 \<le> cnt * cnt" "cnt * cnt \<le> 512 * 512" using True cnt n mult_mono [of cnt 512 cnt 512] by auto
  have "tri n \<le> cnt * cnt"
  proof -
    have "2 * tri n = n * (n - 1)" by (rule tri_double)
    also have "\<dots> = (cnt + 1) * cnt" using cnt by simp
    also have "\<dots> = cnt * cnt + cnt" by (simp add: algebra_simps)
    finally have "2 * tri n = cnt * cnt + cnt" .
    moreover have "cnt * 1 \<le> cnt * cnt" using True by (intro mult_left_mono) auto
    ultimately show ?thesis by simp
  qed
  moreover have t: "0 \<le> tri n" using n by (simp add: tri_nonneg)
  ultimately have dt: "(d + 1) * tri n \<le> 2 ^ 23"
    using d sqr mult_mono [of d d "tri n" "cnt * cnt"] by (simp add: algebra_simps)
  have d22: "d < 2 ^ 22"
  proof -
    have "d * 1 \<le> d * (cnt * cnt)" using d(1) True mult_mono [of 1 cnt 1 cnt] by (intro mult_left_mono) auto
    then show ?thesis using d(2) by simp
  qed
  let ?m = "max (b_minadd b) (add - d)" and ?M = "min (b_maxadd b) (add + d)"
  have near: "add - (d + 1) \<le> ?m" "?m \<le> add + (d + 1)" "add - (d + 1) \<le> ?M" "?M \<le> add + (d + 1)"
    using d range by (auto simp: max_def min_def)
  have q: "Q (b\<lparr>b_minadd := ?m, b_maxadd := ?M\<rparr>) sc"
    using near_product [OF near(1,2) t dt] near_product [OF near(3,4) t dt] by (intro Q) auto
  have eq1: "(if b_minadd b < add - d then b\<lparr>b_minadd := add - d\<rparr> else b) = b\<lparr>b_minadd := ?m\<rparr>" by simp
  have eq2: "(if add + d < b_maxadd (b\<lparr>b_minadd := ?m\<rparr>) then b\<lparr>b_minadd := ?m, b_maxadd := add + d\<rparr> else b\<lparr>b_minadd := ?m\<rparr>)
      = b\<lparr>b_minadd := ?m, b_maxadd := ?M\<rparr>"
    by (simp add: min_def)
  have "- (2 ^ 31) \<le> (0 :: int)" by simp
  then have low: "- (2 ^ 31) \<le> cnt * cnt" using sqr(1) by (rule order_trans)
  have bounds: "cnt * cnt < 2 ^ 31" "- (2 ^ 31) \<le> add - d" "add - d < 2 ^ 31"
      "- (2 ^ 31) \<le> add + d" "add + d < 2 ^ 31"
    using sqr d d22 add by auto
  show ?thesis
    unfolding if_P [OF True] wp_bnd wp_i32 wp_gets wp_ret d_def [symmetric] eq1 eq2 using low bounds q by blast
qed

definition narrowed :: "(int \<Rightarrow> int) \<Rightarrow> (int \<Rightarrow> int) \<Rightarrow> bisect \<Rightarrow> bisect + (step_move + bisect) \<Rightarrow> bool" where
  "narrowed lo hi b r =
     (case r of
        Inl b' \<Rightarrow> range_ok b' \<and> outer_ok lo hi (b_outer_min b') (b_outer_max b') \<and> same_best b b' \<and>
          b_maxadd b' - b_minadd b' < b_maxadd b - b_minadd b
      | Inr (Inl _) \<Rightarrow> False
      | Inr (Inr b') \<Rightarrow> same_best b b')"

lemma half_bounds:
  assumes "2 \<le> n" and "nmin * n < 7 * 2 ^ 28" and "- (2 ^ 30) \<le> nmax * (n :: int)"
  shows "nmin < 7 * 2 ^ 27" and "- (2 ^ 29) \<le> nmax"
proof -
  show "nmin < 7 * 2 ^ 27"
  proof (rule ccontr)
    assume "\<not> nmin < 7 * 2 ^ 27"
    then have "7 * 2 ^ 27 * 2 \<le> nmin * n" using assms(1) by (intro mult_mono) auto
    then show False using assms(2) by simp
  qed
  show "- (2 ^ 29) \<le> nmax"
  proof (rule ccontr)
    assume *: "\<not> - (2 ^ 29) \<le> nmax"
    then have "nmax * n \<le> nmax * 2" using assms(1) by (intro mult_left_mono_neg) auto
    then show False using assms(3) * by simp
  qed
qed

text \<open>The end of a round: the next increment lies in the narrowed range.\<close>

lemma wp_choose:
  assumes "- (2 ^ 15) \<le> b_minadd b'" and "b_maxadd b' < 2 ^ 15"
    and "b_maxadd b' - b_minadd b' < b_maxadd b - b_minadd b"
    and "outer_ok lo hi (b_outer_min b') (b_outer_max b')" and "same_best b b'"
  shows "wp (if b_minadd b' > b_maxadd b' then ret (Inr (Inr b'))
      else
        bnd (i32 (b_maxadd b' - b_minadd b')) (\<lambda>w.
        bnd (cdiv w 4) (\<lambda>q.
        bnd (i32 (b_maxadd b' - q)) (\<lambda>a.
        ret (Inl (b'\<lparr>b_add := a\<rparr>))))))
     (\<lambda>r s. s = sc \<and> narrowed lo hi b r) E sc"
proof (cases "b_minadd b' > b_maxadd b'")
  case True
  then show ?thesis using assms by (simp add: wp_simps narrowed_def)
next
  case False
  let ?w = "b_maxadd b' - b_minadd b'"
  have "?w sdiv 4 = ?w div 4" using False by (simp add: sdiv_pos)
  moreover have "0 \<le> ?w div 4" "?w div 4 \<le> ?w" using False by auto
  ultimately show ?thesis
    using False assms by (simp add: wp_simps wp_cdiv narrowed_def range_ok_def same_best_def)
qed

lemma narrow_tail:
  assumes E: "sc_max_error sc < 2 ^ 18" and cnt: "cnt = n - 1" and n: "2 \<le> n" "n \<le> 513"
    and add: "\<bar>add\<bar> \<le> 2 ^ 15" and prod: "\<bar>add * tri n\<bar> \<le> 3 * 2 ^ 28 + 2 ^ 27"
    and pt: "1 \<le> minp pt" "minp pt \<le> maxp pt" "maxp pt < 3 * 2 ^ 28"
    and range: "- (2 ^ 15) \<le> b_minadd b1" "b_minadd b1 \<le> add + 1" "add - 1 \<le> b_maxadd b1" "b_maxadd b1 < 2 ^ 15"
    and width: "b_maxadd b1 - b_minadd b1 < b_maxadd b - b_minadd b" and best: "same_best b b1"
    and outer: "outer_ok lo hi (b_outer_min b1) (b_outer_max b1)"
    and omin: "- (2 ^ 30) \<le> b_outer_min b1 * n" "b_outer_min b1 * n < 7 * 2 ^ 28"
    and omax: "- (2 ^ 30) \<le> b_outer_max b1 * n" "b_outer_max b1 * n < 7 * 2 ^ 28"
  shows "wp (bnd (if cnt > 1 then
             bnd (i32 (cnt * cnt)) (\<lambda>sqr.
             bnd (gets sc_max_error) (\<lambda>max_error.
             bnd (ret (sint (max_error * QUADRATIC_DEV div word_of_int sqr))) (\<lambda>errdelta.
             bnd (i32 (add - errdelta)) (\<lambda>lo.
             bnd (ret (if b_minadd b1 < lo then b1\<lparr>b_minadd := lo\<rparr> else b1)) (\<lambda>b.
             bnd (i32 (add + errdelta)) (\<lambda>hi.
             ret (if b_maxadd b > hi then b\<lparr>b_maxadd := hi\<rparr> else b)))))))
           else ret b1) (\<lambda>b.
      bnd (i32 (b_outer_max b * n)) (\<lambda>c.
      bnd (i32 (b_minadd b * tri n)) (\<lambda>t.
      bnd (i32 (minp pt - c)) (\<lambda>lim.
      bnd (if t < lim then bnd (idiv_up lim (tri n)) (\<lambda>m. ret (b\<lparr>b_minadd := m\<rparr>)) else ret b) (\<lambda>b.
      bnd (i32 (b_outer_min b * n)) (\<lambda>c.
      bnd (i32 (b_maxadd b * tri n)) (\<lambda>t.
      bnd (i32 (maxp pt - c)) (\<lambda>lim.
      bnd (if t > lim then bnd (idiv_down lim (tri n)) (\<lambda>m. ret (b\<lparr>b_maxadd := m\<rparr>)) else ret b) (\<lambda>b.
      if b_minadd b > b_maxadd b then ret (Inr (Inr b))
      else
        bnd (i32 (b_maxadd b - b_minadd b)) (\<lambda>w.
        bnd (cdiv w 4) (\<lambda>q.
        bnd (i32 (b_maxadd b - q)) (\<lambda>a.
        ret (Inl (b\<lparr>b_add := a\<rparr>))))))))))))))) (\<lambda>r s. s = sc \<and> narrowed lo hi b r) E sc"
proof -
  have t: "1 \<le> tri n" "tri n \<le> 2 ^ 18"
  proof -
    have "2 * 1 \<le> n * (n - 1)" using n by (intro mult_mono) auto
    moreover have "n * (n - 1) \<le> 513 * 512" using n by (intro mult_mono) auto
    ultimately show "1 \<le> tri n" "tri n \<le> 2 ^ 18" using tri_double [of n] by auto
  qed
  show ?thesis
    apply (subst wp_bnd, rule wp_clip [OF cnt n E add range])
    subgoal premises m for m M
      apply (simp only: wp_bnd wp_i32)
      apply (intro conjI wp_limit_min)
               prefer 10
      subgoal premises m2 for m2
        apply (simp only: wp_bnd wp_i32)
        apply (intro conjI wp_limit_max)
                 prefer 10
        subgoal for m3
          using m m2 range width best outer by (intro wp_choose) (auto simp: same_best_def)
        using m t prod omin pt by auto
      using m t prod omax pt by auto
    done
qed

lemma wp_side:
  assumes "\<bar>add\<bar> \<le> 2 ^ 15" and "Q (b\<lparr>b_minadd := add + 1, b_outer_max := nmax\<rparr>) s"
    and "Q (b\<lparr>b_maxadd := add - 1, b_outer_min := nmin\<rparr>) s"
  shows "wp (if c then bnd (i32 (add + 1)) (\<lambda>m. ret (b\<lparr>b_minadd := m, b_outer_max := nmax\<rparr>))
     else bnd (i32 (add - 1)) (\<lambda>m. ret (b\<lparr>b_maxadd := m, b_outer_min := nmin\<rparr>))) Q E s"
  using assms by (auto simp: wp_simps)

lemma narrow_ok:
  assumes ok: "compress_ok sc qlast" and N: "N = int qlast - int (sc_queue_pos sc)"
    and lo: "lo = win_lo sc" and hi: "hi = win_hi sc"
    and broken: "broken_ok lo hi N (b_outer_min b) (b_outer_max b) (b_add b) n pt nmin nmax i"
    and outer: "outer_ok lo hi (b_outer_min b) (b_outer_max b)" and range: "range_ok b"
    and cnt: "cnt = n - 1" and n513: "n \<le> 513"
  shows "wp (bisect_narrow cnt n pt nmin nmax i b) (\<lambda>r s. s = sc \<and> narrowed lo hi b r) E sc"
proof -
  let ?add = "b_add b" and ?E = "int (unat (sc_max_error sc))"
  have sp: "spaced lo hi N ?E" and E: "sc_max_error sc < 2 ^ 18" using ok N lo hi by (auto simp: compress_ok_def)
  then have E18: "?E < 2 ^ 18" by (simp add: word_less_def)
  have n: "2 \<le> n" "n \<le> N" and pt: "pt = \<lparr>minp = lo n, maxp = hi n\<rparr>" using broken by (auto simp: broken_ok_def)
  have c: "nmax < nmin" "b_outer_min b \<le> nmin" "nmax \<le> b_outer_max b" using broken by (auto simp: broken_ok_def)
  note h = half_bounds [OF n(1), of nmin nmax]
  have n46: "1 \<le> n" "n \<le> 46341" using n n513 by auto
  have add: "\<bar>?add\<bar> \<le> 2 ^ 15" using range by (auto simp: range_ok_def)
  note prod = broken_products [OF broken sp outer add] broken_outer_products [OF broken sp outer add n513 E18]
  have w: "1 \<le> lo n" "lo n \<le> hi n" "hi n < 3 * 2 ^ 28" using spaced_range [OF sp, of n] n by auto
  show ?thesis
    apply (simp only: bisect_narrow_def Let_def wp_bnd wp_i32 wp_addfactor [OF n46])
    apply (intro conjI wp_side [OF add])
           prefer 7
    subgoal
      by (rule narrow_tail [OF E cnt n(1) n513 add prod(1)])
        (use prod w pt range outer c h in \<open>auto simp: range_ok_def outer_ok_def same_best_def\<close>)
          prefer 7
    subgoal
      by (rule narrow_tail [OF E cnt n(1) n513 add prod(1)])
        (use prod w pt range outer c h in \<open>auto simp: range_ok_def outer_ok_def same_best_def\<close>)
    using prod by auto
qed

section \<open>The whole search\<close>

definition best_ok :: "(int \<Rightarrow> int) \<Rightarrow> (int \<Rightarrow> int) \<Rightarrow> int \<Rightarrow> bisect \<Rightarrow> bool" where
  "best_ok lo hi N b \<longleftrightarrow> fits lo hi (b_bestadd b) (b_bestinterval b) (b_bestcount b) \<and>
     1 \<le> b_bestcount b \<and> b_bestcount b \<le> N \<and> - (2 ^ 15) \<le> b_bestadd b \<and> b_bestadd b < 2 ^ 15 \<and>
     b_bestreach b = seq_time (b_bestadd b) (b_bestinterval b) (b_bestcount b) \<and> hi 1 \<le> b_bestreach b \<and> 2 \<le> N"

definition zero_ok :: "(int \<Rightarrow> int) \<Rightarrow> (int \<Rightarrow> int) \<Rightarrow> int \<Rightarrow> bisect \<Rightarrow> bool" where
  "zero_ok lo hi N b \<longleftrightarrow> b_zerocount b = 0 \<or>
     1 \<le> b_zerocount b \<and> b_zerocount b \<le> N \<and> fits lo hi 0 (b_zerointerval b) (b_zerocount b)"

definition search_ok :: "(int \<Rightarrow> int) \<Rightarrow> (int \<Rightarrow> int) \<Rightarrow> int \<Rightarrow> bisect \<Rightarrow> bool" where
  "search_ok lo hi N b \<longleftrightarrow> range_ok b \<and> outer_ok lo hi (b_outer_min b) (b_outer_max b) \<and> zero_ok lo hi N b \<and>
     (b_bestreach b = - (2 ^ 31) \<and> b_outer_min b \<le> b_outer_max b \<and> b_outer_max b = hi 1 \<or>
      best_ok lo hi N b \<and> b_bestcount b \<le> 0x200)"

definition move_fits :: "(int \<Rightarrow> int) \<Rightarrow> (int \<Rightarrow> int) \<Rightarrow> int \<Rightarrow> step_move \<Rightarrow> bool" where
  "move_fits lo hi N move \<longleftrightarrow> (\<exists>i n add. move = make_move i n add \<and> fits lo hi add i n \<and> 1 \<le> n \<and> n \<le> N \<and>
     - (2 ^ 15) \<le> add \<and> add < 2 ^ 15)"

definition round_ok :: "(int \<Rightarrow> int) \<Rightarrow> (int \<Rightarrow> int) \<Rightarrow> int \<Rightarrow> bisect \<Rightarrow> bisect + (step_move + bisect) \<Rightarrow> bool" where
  "round_ok lo hi N b r =
     (case r of
        Inl b' \<Rightarrow> search_ok lo hi N b' \<and> b_maxadd b' - b_minadd b' < b_maxadd b - b_minadd b
      | Inr (Inl move) \<Rightarrow> move_fits lo hi N move
      | Inr (Inr b') \<Rightarrow> best_ok lo hi N b' \<and> zero_ok lo hi N b')"

lemma narrowed_round:
  assumes "narrowed lo hi b r" and "best_ok lo hi N b" and "zero_ok lo hi N b" and "b_bestcount b \<le> 0x200"
    and "b_maxadd b = b_maxadd b0" and "b_minadd b = b_minadd b0"
  shows "round_ok lo hi N b0 r"
proof -
  have "best_ok lo hi N b' \<and> zero_ok lo hi N b' \<and> b_bestcount b' \<le> 0x200" if "same_best b b'" for b'
    using that assms by (simp add: same_best_def best_ok_def zero_ok_def)
  then show ?thesis
    using assms(1,5,6) by (auto simp: narrowed_def round_ok_def search_ok_def split: sum.splits)
qed

text \<open>What a broken run says about the reach.\<close>

lemma broken_reach:
  assumes "broken_ok lo hi N omin omax add n pt nmin nmax i" and "spaced lo hi N E"
    and "outer_ok lo hi omin omax"
  shows "\<bar>add * tri (n - 1)\<bar> < 3 * 2 ^ 28" and "- (2 ^ 29) \<le> i * (n - 1)" and "i * (n - 1) < 6 * 2 ^ 28"
    and "- (2 ^ 29) \<le> add * tri (n - 1) + i * (n - 1)" and "add * tri (n - 1) + i * (n - 1) < 3 * 2 ^ 28"
proof -
  have n: "2 \<le> n" "n \<le> N" using assms(1) by (auto simp: broken_ok_def)
  consider (fit) "fits lo hi add i (n - 1)" | (crossed) "n = 2" "i = omax"
    using assms(1) by (auto simp: broken_ok_def)
  then have "\<bar>add * tri (n - 1)\<bar> < 3 * 2 ^ 28 \<and> - (2 ^ 29) \<le> i * (n - 1) \<and> i * (n - 1) < 6 * 2 ^ 28 \<and>
     - (2 ^ 29) \<le> add * tri (n - 1) + i * (n - 1) \<and> add * tri (n - 1) + i * (n - 1) < 3 * 2 ^ 28"
  proof cases
    case fit
    have m: "1 \<le> n - 1" "n - 1 \<le> N" using n by auto
    have "\<bar>add * tri (n - 1)\<bar> = \<bar>add\<bar> * tri (n - 1)" using tri_nonneg [of "n - 1"] n by (simp add: abs_mult)
    moreover have "0 \<le> i * (n - 1)" using fits_total(1) [OF assms(2) fit m] n by simp
    ultimately show ?thesis
      using fits_add_part [OF assms(2) fit m] fits_interval_part [OF assms(2) fit m] fits_total [OF assms(2) fit m]
      by (auto simp: seq_time_def)
  next
    case crossed
    then show ?thesis
      using assms(3) spaced_range [OF assms(2), of 1] spacedD(1) [OF assms(2)] by (auto simp: outer_ok_def)
  qed
  then show "\<bar>add * tri (n - 1)\<bar> < 3 * 2 ^ 28" and "- (2 ^ 29) \<le> i * (n - 1)" and "i * (n - 1) < 6 * 2 ^ 28"
    and "- (2 ^ 29) \<le> add * tri (n - 1) + i * (n - 1)" and "add * tri (n - 1) + i * (n - 1) < 3 * 2 ^ 28" by auto
qed

text \<open>A longer sequence reaches further than the best one so far.\<close>

lemma longer_is_better:
  assumes "best_ok lo hi N b" and "fits lo hi add i m" and "b_bestcount b < m" and "m \<le> N" and "spaced lo hi N E"
  shows "b_bestreach b < seq_time add i m"
proof -
  let ?c = "b_bestcount b"
  have c: "1 \<le> ?c" "b_bestreach b = seq_time (b_bestadd b) (b_bestinterval b) ?c" using assms(1) by (auto simp: best_ok_def)
  have "b_bestreach b \<le> hi ?c" using assms(1) fitsD(2) [of lo hi "b_bestadd b" "b_bestinterval b" ?c ?c] c by (simp add: best_ok_def)
  also have "\<dots> < lo m" using spaced_below [OF assms(5) c(1) assms(3,4)] .
  also have "\<dots> \<le> seq_time add i m" using fitsD(1) [OF assms(2), of m] c(1) assms(3) by simp
  finally show ?thesis .
qed

text \<open>The best sequence after a run that improves on it.\<close>

lemma better_ok:
  assumes search: "search_ok lo hi N b" and sp: "spaced lo hi N E"
    and broken: "broken_ok lo hi N (b_outer_min b) (b_outer_max b) (b_add b) n pt nmin nmax i"
    and reach: "reach = b_add b * tri (n - 1) + i * (n - 1)"
    and better: "reach > b_bestreach b \<or> (reach = b_bestreach b \<and> i > b_bestinterval b)"
  shows "fits lo hi (b_add b) i (n - 1) \<and> hi 1 \<le> reach"
proof -
  have n: "2 \<le> n" "n \<le> N" "n = 2 \<longrightarrow> i = b_outer_max b" using broken by (auto simp: broken_ok_def)
  have r: "reach = seq_time (b_add b) i (n - 1)" by (simp add: reach seq_time_def)
  consider (fit) "fits lo hi (b_add b) i (n - 1)" | (crossed) "n = 2" "i = b_outer_max b" "b_outer_max b < b_outer_min b"
    using broken by (auto simp: broken_ok_def)
  then show ?thesis
  proof cases
    case fit
    have "hi 1 \<le> reach" if "b_bestreach b = - (2 ^ 31)" "b_outer_max b = hi 1"
    proof (cases "n = 2")
      case True
      then show ?thesis using r n that by simp
    next
      case False
      then have "hi 1 < lo (n - 1)" using spaced_below [OF sp, of 1 "n - 1"] n by simp
      then show ?thesis using fitsD(1) [OF fit, of "n - 1"] r n by simp
    qed
    moreover have "hi 1 \<le> reach" if "best_ok lo hi N b" using that better by (auto simp: best_ok_def)
    ultimately show ?thesis using fit search by (auto simp: search_ok_def)
  next
    case crossed
    then have "hi 1 \<le> b_bestreach b" and "i \<le> hi 1"
      using search by (auto simp: search_ok_def best_ok_def outer_ok_def)
    moreover have "reach = i" using r crossed by simp
    ultimately have "i = hi 1" "reach = hi 1" using better by auto
    then show ?thesis using spaced_range(2) [OF sp, of 1] n crossed by (auto simp: fits_def dest!: order_antisym)
  qed
qed

lemma round_step_ok:
  assumes ok: "compress_ok sc qlast" and N: "N = int qlast - int (sc_queue_pos sc)"
    and lo: "lo = win_lo sc" and hi: "hi = win_hi sc" and search: "search_ok lo hi N b"
    and broken: "broken_ok lo hi N (b_outer_min b) (b_outer_max b) (b_add b) n pt nmin nmax i"
  defines "reach \<equiv> b_add b * tri (n - 1) + i * (n - 1)"
  shows "wp (if reach > b_bestreach b \<or> (reach = b_bestreach b \<and> i > b_bestinterval b) then
           (let b = b\<lparr>b_bestinterval := i, b_bestcount := n - 1, b_bestadd := b_add b, b_bestreach := reach\<rparr>;
                b = (if b_add b = 0 then b\<lparr>b_zerointerval := i, b_zerocount := n - 1\<rparr> else b)
            in if n - 1 > 0x200 then ret (Inr (Inr b))
               else bisect_narrow (n - 1) n pt nmin nmax i b)
         else bisect_narrow (n - 1) n pt nmin nmax i b)
      (\<lambda>r s. s = sc \<and> round_ok lo hi N b r) E sc"
proof -
  have sp: "spaced lo hi N (int (unat (sc_max_error sc)))" using ok N lo hi by (simp add: compress_ok_def)
  have n: "2 \<le> n" "n \<le> N" using broken by (auto simp: broken_ok_def)
  have r: "reach = seq_time (b_add b) i (n - 1)" by (simp add: reach_def seq_time_def)
  have range: "range_ok b" and outer: "outer_ok lo hi (b_outer_min b) (b_outer_max b)" and zero: "zero_ok lo hi N b"
    using search by (auto simp: search_ok_def)
  show ?thesis
  proof (cases "reach > b_bestreach b \<or> (reach = b_bestreach b \<and> i > b_bestinterval b)")
    case True
    have fit: "fits lo hi (b_add b) i (n - 1)" "hi 1 \<le> reach"
      using better_ok [OF search sp broken _ True] by (simp_all add: reach_def)
    define b1 where "b1 = b\<lparr>b_bestinterval := i, b_bestcount := n - 1, b_bestadd := b_add b, b_bestreach := reach\<rparr>"
    define b2 where "b2 = (if b_add b1 = 0 then b1\<lparr>b_zerointerval := i, b_zerocount := n - 1\<rparr> else b1)"
    have frame: "b_add b2 = b_add b" "b_minadd b2 = b_minadd b" "b_maxadd b2 = b_maxadd b"
      "b_outer_min b2 = b_outer_min b" "b_outer_max b2 = b_outer_max b" "b_bestcount b2 = n - 1"
      by (auto simp: b2_def b1_def)
    have best: "best_ok lo hi N b2" "zero_ok lo hi N b2"
      using fit n r range zero by (auto simp: b2_def b1_def best_ok_def zero_ok_def range_ok_def)
    have range2: "range_ok b2" using range by (simp add: range_ok_def frame)
    have narrow: "wp (bisect_narrow (n - 1) n pt nmin nmax i b2) (\<lambda>r s. s = sc \<and> round_ok lo hi N b r) E sc"
      if "n - 1 \<le> 0x200"
      using narrow_ok [OF ok N lo hi broken [folded frame(1,4,5)] outer [folded frame(4,5)] range2 refl, of E] that
      by (auto elim!: wp_mono intro!: narrowed_round [OF _ best] simp: frame)
    show ?thesis
      unfolding if_P [OF True] Let_def b1_def [symmetric] b2_def [symmetric]
      using narrow best by (simp add: wp_simps round_ok_def)
  next
    case False
    have best: "best_ok lo hi N b" "b_bestcount b \<le> 0x200"
    proof -
      have "- (2 ^ 29) \<le> reach" using broken_reach(4) [OF broken sp outer] by (simp add: reach_def)
      then show "best_ok lo hi N b" "b_bestcount b \<le> 0x200" using search False by (auto simp: search_ok_def)
    qed
    have "n - 1 \<le> 0x200"
    proof (rule ccontr)
      assume long: "\<not> n - 1 \<le> 0x200"
      then have "fits lo hi (b_add b) i (n - 1)" using broken by (auto simp: broken_ok_def)
      then have "b_bestreach b < reach"
        unfolding r using longer_is_better [OF best(1) _ _ _ sp] best(2) long n by simp
      then show False using False by simp
    qed
    then show ?thesis
      unfolding if_not_P [OF False]
      using narrow_ok [OF ok N lo hi broken outer range refl, of E]
      by (auto elim!: wp_mono intro!: narrowed_round [OF _ best(1) zero best(2)])
  qed
qed

lemma bisect_round_ok:
  assumes ok: "compress_ok sc qlast" and N: "N = int qlast - int (sc_queue_pos sc)"
    and lo: "lo = win_lo sc" and hi: "hi = win_hi sc" and search: "search_ok lo hi N b"
  shows "wp (bisect_round qlast b) (\<lambda>r s. s = sc \<and> round_ok lo hi N b r) E sc"
proof -
  have sp: "spaced lo hi N (int (unat (sc_max_error sc)))" and N46: "N \<le> 46341" using ok N lo hi by (auto simp: compress_ok_def)
  have range: "range_ok b" and outer: "outer_ok lo hi (b_outer_min b) (b_outer_max b)"
    and start: "b_outer_min b \<le> b_outer_max b \<or> 2 \<le> N"
    using search by (auto simp: search_ok_def best_ok_def)
  have add: "\<bar>b_add b\<bar> \<le> 2 ^ 15" "- (2 ^ 15) \<le> b_add b" "b_add b < 2 ^ 15" using range by (auto simp: range_ok_def)
  show ?thesis
    unfolding bisect_round_def wp_bnd
  proof (rule wp_mono [OF extend_loop_ok [OF ok N lo hi outer add(1) start, of "\<lambda>_ _. False"]])
    fix run s
    assume run: "s = sc \<and> run_ok lo hi N (b_outer_min b) (b_outer_max b) (b_add b) run"
    show "wp (case run of
       Covered interval cnt \<Rightarrow> ret (Inr (Inl (make_move interval cnt (b_add b))))
     | Broken nextcount nextpoint nextmin nextmax interval \<Rightarrow>
         bnd (i32 (nextcount - 1)) (\<lambda>cnt.
         bnd (addfactor cnt) (\<lambda>factor.
         bnd (i32 (b_add b * factor)) (\<lambda>t.
         bnd (i32 (interval * cnt)) (\<lambda>u.
         bnd (i32 (t + u)) (\<lambda>reach.
         if reach > b_bestreach b \<or> (reach = b_bestreach b \<and> interval > b_bestinterval b) then
           (let b = b\<lparr>b_bestinterval := interval, b_bestcount := cnt, b_bestadd := b_add b, b_bestreach := reach\<rparr>;
                b = (if b_add b = 0 then b\<lparr>b_zerointerval := interval, b_zerocount := cnt\<rparr> else b)
            in if cnt > 0x200 then ret (Inr (Inr b))
               else bisect_narrow cnt nextcount nextpoint nextmin nextmax interval b)
         else bisect_narrow cnt nextcount nextpoint nextmin nextmax interval b))))))
      (\<lambda>r s. s = sc \<and> round_ok lo hi N b r) E s"
    proof (cases run)
      case (Covered i n)
      then have "move_fits lo hi N (make_move i n (b_add b))"
        using run add spacedD(1) [OF sp] unfolding move_fits_def by (auto simp: run_ok_def)
      then show ?thesis using Covered run by (simp add: wp_simps round_ok_def)
    next
      case (Broken n pt nmin nmax i)
      then have broken: "broken_ok lo hi N (b_outer_min b) (b_outer_max b) (b_add b) n pt nmin nmax i"
        using run by (simp add: run_ok_def)
      then have n: "1 \<le> n - 1" "n - 1 \<le> 46341" using N46 by (auto simp: broken_ok_def)
      show ?thesis
        unfolding Broken bisect_run.case conjunct1 [OF run]
        apply (simp only: wp_bnd wp_i32 wp_addfactor [OF n])
        using round_step_ok [OF ok N lo hi search broken] broken_reach [OF broken sp outer] n by auto
    qed
  qed simp
qed

lemma compress_search_ok:
  assumes ok: "compress_ok sc (min (sc_queue_next sc) (sc_queue_pos sc + 65535))"
    and N: "N = int (min (sc_queue_next sc) (sc_queue_pos sc + 65535)) - int (sc_queue_pos sc)"
  shows "wp compress_bisect_add (\<lambda>move s. s = sc \<and> move_fits (win_lo sc) (win_hi sc) N move) E sc"
proof -
  define lo where "lo = win_lo sc"
  define hi where "hi = win_hi sc"
  let ?qlast = "min (sc_queue_next sc) (sc_queue_pos sc + 65535)"
  have sp: "spaced lo hi N (int (unat (sc_max_error sc)))" and N46: "N \<le> 46341"
    using ok N by (auto simp: compress_ok_def lo_def hi_def)
  let ?b = "\<lparr>b_outer_min = lo 1, b_outer_max = hi 1, b_add = 0, b_minadd = -0x8000, b_maxadd = 0x7fff,
        b_bestinterval = 0, b_bestcount = 1, b_bestadd = 1, b_bestreach = - (2 ^ 31),
        b_zerointerval = 0, b_zerocount = 0\<rparr>"
  have init: "search_ok lo hi N ?b"
    using spaced_range [OF sp, of 1] spacedD(1) [OF sp]
    by (auto simp: search_ok_def range_ok_def outer_ok_def zero_ok_def)
  have loop: "wp (loopp (bisect_round ?qlast) ?b)
    (\<lambda>r s. s = sc \<and> (case r of Inl move \<Rightarrow> move_fits lo hi N move | Inr b \<Rightarrow> best_ok lo hi N b \<and> zero_ok lo hi N b)) E sc"
  proof (rule wp_loopp [where I = "\<lambda>b s. s = sc \<and> search_ok lo hi N b" and m = "\<lambda>b _. nat (b_maxadd b - b_minadd b)"])
    show "sc = sc \<and> search_ok lo hi N ?b" using init by simp
  next
    fix b s
    assume b: "s = sc \<and> search_ok lo hi N b"
    then have "b_minadd b \<le> b_maxadd b" by (auto simp: search_ok_def range_ok_def)
    then show "wp (bisect_round ?qlast b)
       (\<lambda>r s'. case r of Inl b' \<Rightarrow> (s' = sc \<and> search_ok lo hi N b') \<and> nat (b_maxadd b' - b_minadd b') < nat (b_maxadd b - b_minadd b)
          | Inr r \<Rightarrow> s' = sc \<and> (case r of Inl move \<Rightarrow> move_fits lo hi N move | Inr b \<Rightarrow> best_ok lo hi N b \<and> zero_ok lo hi N b)) E s"
      using bisect_round_ok [OF ok N lo_def hi_def, of b E] b
      by (auto elim!: wp_mono simp: round_ok_def search_ok_def range_ok_def split: sum.splits)
  qed
  have first: "wp (minmax_point (sc_queue_pos sc)) Q E sc \<longleftrightarrow> Q \<lparr>minp = lo 1, maxp = hi 1\<rparr> sc" for Q
    using wp_minmax_point [OF ok, of 1 Q E] spacedD(1) [OF sp] N by (simp add: lo_def hi_def)
  show ?thesis
    unfolding compress_bisect_add_def wp_bnd wp_gets first points.simps lo_def [symmetric] hi_def [symmetric]
  proof (rule wp_mono [OF loop])
    fix r s
    assume r: "s = sc \<and> (case r of Inl move \<Rightarrow> move_fits lo hi N move | Inr b \<Rightarrow> best_ok lo hi N b \<and> zero_ok lo hi N b)"
    show "wp (case r of
       Inl move \<Rightarrow> ret move
     | Inr b \<Rightarrow>
         bnd (i32 (b_zerocount b + b_zerocount b sdiv 16)) (\<lambda>z.
         ret (if z \<ge> b_bestcount b then make_move (b_zerointerval b) (b_zerocount b) 0
              else make_move (b_bestinterval b) (b_bestcount b) (b_bestadd b))))
       (\<lambda>move s. s = sc \<and> move_fits lo hi N move) E s"
    proof (cases r)
      case (Inr b)
      then have b: "best_ok lo hi N b" "zero_ok lo hi N b" and s: "s = sc" using r by auto
      have z: "b_zerocount b sdiv 16 = b_zerocount b div 16" "0 \<le> b_zerocount b" "b_zerocount b \<le> 46341"
        using b(2) N46 by (auto simp: zero_ok_def sdiv_pos)
      have "0 \<le> b_zerocount b div 16" "b_zerocount b div 16 \<le> b_zerocount b" using z(2) by auto
      moreover have "move_fits lo hi N (make_move (b_zerointerval b) (b_zerocount b) 0)"
        if "b_bestcount b \<le> b_zerocount b + b_zerocount b div 16"
      proof -
        have "b_zerocount b \<noteq> 0" using that b(1) by (auto simp: best_ok_def)
        then have "fits lo hi 0 (b_zerointerval b) (b_zerocount b) \<and> 1 \<le> b_zerocount b \<and> b_zerocount b \<le> N"
          using b(2) by (auto simp: zero_ok_def)
        then show ?thesis unfolding move_fits_def by (auto intro!: exI)
      qed
      moreover have "move_fits lo hi N (make_move (b_bestinterval b) (b_bestcount b) (b_bestadd b))"
        using b(1) unfolding move_fits_def best_ok_def by (auto intro!: exI)
      ultimately show ?thesis using Inr z s by (simp add: wp_simps)
    qed (use r in \<open>simp add: wp_simps\<close>)
  qed
qed

end
