(* ===== verification/Flush_correct.thy ===== *)
theory Flush_correct
  imports Bisect_correct
begin

text \<open>
  From requested step times to queued moves: the sequences found by the search pass
  \<^verbatim>\<open>check_line\<close>, \<^verbatim>\<open>queue_flush\<close> covers every request in order and on time, and the two
  places where the code leaves the range of its integers or of its queue.
\<close>


section \<open>Fitting moves pass the check\<close>

lemma check_points_ok:
  assumes ok: "compress_ok sc qlast" and N: "N = int qlast - int (sc_queue_pos sc)"
    and fit: "fits (win_lo sc) (win_hi sc) a i n" and n: "n \<le> N" and a: "- (2 ^ 15) \<le> a" "a < 2 ^ 15"
    and move: "sm_add move = word_of_int a"
    and k: "int j + int k = n"
  shows "wp (check_points move k j (word_of_int (seq_time a i (int j))) (word_of_int (i + a * int j)))
    (\<lambda>r s. r = 0 \<and> s = sc) E sc"
  using k
proof (induction k arbitrary: j)
  case 0
  then show ?case by (simp add: wp_simps)
next
  case (Suc k)
  have sp: "spaced (win_lo sc) (win_hi sc) N (int (unat (sc_max_error sc)))" using ok N by (simp add: compress_ok_def)
  let ?t = "seq_time a i (int j + 1)" and ?d = "i + a * int j"
  have j: "1 \<le> int j + 1" "int j + 1 \<le> n" "int j + 1 \<le> N" using Suc.prems n by auto
  have w: "win_lo sc (int j + 1) \<le> ?t" "?t \<le> win_hi sc (int j + 1)" using fitsD [OF fit j(1,2)] .
  have r: "1 \<le> win_lo sc (int j + 1)" "win_hi sc (int j + 1) < 3 * 2 ^ 28" using spaced_range [OF sp j(1,3)] by auto
  have d: "1 \<le> ?d" using fits_increment [OF sp fit n, of "int j"] j by simp
  have t: "?t = seq_time a i (int j) + ?d" by (rule seq_time_Suc)
  have "0 \<le> seq_time a i (int j)"
  proof (cases "j = 0")
    case False
    then show ?thesis using fitsD(1) [OF fit, of "int j"] spaced_range(1) [OF sp, of "int j"] j by simp
  qed (simp add: seq_time_def)
  then have d31: "?d < 2 ^ 31" using t w r by simp
  have pos: "sc_queue_pos sc + j = nat (int (sc_queue_pos sc) + (int j + 1) - 1)" by simp
  have sum: "(word_of_int (seq_time a i (int j)) + word_of_int ?d :: u32) = word_of_int ?t" by (simp add: t)
  have next_d: "(word_of_int ?d + scast (sm_add move) :: u32) = word_of_int (i + a * int (Suc j))"
    using scast_of_int_u16 [OF a] by (simp add: move algebra_simps)
  have le: "\<not> (word_of_int ?t :: u32) < word_of_int (win_lo sc (int j + 1))" "\<not> (word_of_int ?t :: u32) > word_of_int (win_hi sc (int j + 1))"
    using w r by (subst less_of_int_u32; simp)+
  have small: "\<not> (word_of_int ?d :: u32) \<ge> 0x80000000"
  proof -
    have "unat (word_of_int ?d :: u32) = nat ?d" using d d31 by (intro unat_of_int_u32) auto
    then show ?thesis unfolding word_le_nat_alt using d31 by (simp only:) simp
  qed
  have IH: "wp (check_points move k (Suc j) (word_of_int ?t) (word_of_int (i + a * int (Suc j)))) (\<lambda>r s. r = 0 \<and> s = sc) E sc"
    using Suc.IH [of "Suc j"] Suc.prems by (simp add: add.commute)
  show ?case
    unfolding check_points.simps wp_bnd wp_gets pos Let_def sum next_d
    apply (subst wp_minmax_point [OF ok j(1)])
    using j N le small IH by (simp_all add: wp_simps)
qed

lemma check_line_ok:
  assumes ok: "compress_ok sc qlast" and N: "N = int qlast - int (sc_queue_pos sc)"
    and fit: "fits (win_lo sc) (win_hi sc) a i n" and n: "1 \<le> n" "n \<le> N" and a: "- (2 ^ 15) \<le> a" "a < 2 ^ 15"
  shows "wp (check_line (make_move i n a)) (\<lambda>r s. r = 0 \<and> s = sc) E sc"
proof -
  have sp: "spaced (win_lo sc) (win_hi sc) N (int (unat (sc_max_error sc)))" and "N \<le> 46341" using ok N by (auto simp: compress_ok_def)
  then have cnt: "unat (word_of_int n :: u16) = nat n" using n by (intro unat_of_int_u16) auto
  have i: "1 \<le> i" "i < 3 * 2 ^ 28" using fits_total(1,4) [OF sp fit n] .
  then have u: "unat (word_of_int i :: u32) = nat i" by (intro unat_of_int_u32) auto
  have "word_of_int n \<noteq> (0 :: u16)" using cnt n by (metis nat_0_iff not_one_le_zero order_trans unsigned_0)
  moreover have "word_of_int i \<noteq> (0 :: u32)" using u i by (metis nat_0_iff not_one_le_zero order_trans unsigned_0)
  moreover have "\<not> (word_of_int i :: u32) \<ge> 0x80000000" using u i by (simp add: word_le_nat_alt)
  moreover have "wp (check_points (make_move i n a) (nat n) 0 0 (word_of_int i)) (\<lambda>r s. r = 0 \<and> s = sc) E sc"
    using check_points_ok [OF ok N fit n(2) a, of "make_move i n a" 0 "nat n" E] n
    by (simp add: make_move_def seq_time_def)
  ultimately show ?thesis using cnt by (simp add: check_line_def make_move_def)
qed

section \<open>The windows of the requested times\<close>

text \<open>
  \<open>requests sc rs\<close>: the queue holds the requested step times \<open>rs\<close> (their low 32 bits), which
  increase, start after the last step and stay within \<^verbatim>\<open>CLOCK_DIFF_MAX\<close> of it.
\<close>

definition requests :: "stepcompress \<Rightarrow> int list \<Rightarrow> bool" where
  "requests sc rs \<longleftrightarrow> sc_queue_next sc = sc_queue_pos sc + length rs \<and> sc_queue_next sc \<le> length (sc_queue sc) \<and>
     (\<forall>k<length rs. sc_queue sc ! (sc_queue_pos sc + k) = word_of_int (rs ! k)) \<and>
     sorted_wrt (<) (uint (sc_last_step_clock sc) # rs) \<and>
     (\<forall>r\<in>set rs. r < uint (sc_last_step_clock sc) + 3 * 2 ^ 28 \<and> r < 2 ^ 64) \<and>
     length rs \<le> 46341 \<and> sc_max_error sc < 2 ^ 18 \<and> \<bar>sc_last_position sc\<bar> + int (length rs) < 2 ^ 63"

definition step_before :: "int \<Rightarrow> int list \<Rightarrow> nat \<Rightarrow> int" where
  "step_before l rs k = (if k = 0 then l else rs ! (k - 1))"

lemma requests_nth: "requests sc rs \<Longrightarrow> k < length rs \<Longrightarrow> sc_queue sc ! (sc_queue_pos sc + k) = word_of_int (rs ! k)"
  by (simp add: requests_def)

lemma requests_order:
  assumes "requests sc rs" and "k < length rs"
  shows "uint (sc_last_step_clock sc) \<le> step_before (uint (sc_last_step_clock sc)) rs k"
    and "step_before (uint (sc_last_step_clock sc)) rs k < rs ! k"
    and "rs ! k < uint (sc_last_step_clock sc) + 3 * 2 ^ 28"
proof -
  let ?l = "uint (sc_last_step_clock sc)"
  have s: "sorted_wrt (<) (?l # rs)" and b: "\<forall>r\<in>set rs. r < ?l + 3 * 2 ^ 28" using assms(1) by (auto simp: requests_def)
  have "rs ! (k - 1) \<in> set rs" using assms(2) by (intro nth_mem) simp
  then show "?l \<le> step_before ?l rs k" using s by (auto simp: step_before_def)
  show "step_before ?l rs k < rs ! k"
    using s assms(2) sorted_wrt_nth_less [of "(<)" rs "k - 1" k] by (auto simp: step_before_def)
  show "rs ! k < ?l + 3 * 2 ^ 28" using b assms(2) by auto
qed

lemma minmax_requests:
  assumes "requests sc rs" and "k < length rs"
  defines "l \<equiv> uint (sc_last_step_clock sc)"
  defines "e \<equiv> min (int (unat (sc_max_error sc))) ((rs ! k - step_before l rs k) div 2)"
  shows "minmax_at sc (sc_queue_pos sc + k) = \<lparr>minp = rs ! k - l - e, maxp = rs ! k - l\<rparr>"
proof -
  note o = requests_order [OF assms(1,2), folded l_def]
  define p where "p = step_before l rs k"
  have q: "sc_queue sc ! (sc_queue_pos sc + k) = word_of_int (rs ! k)" using assms(1,2) by (rule requests_nth)
  have lsc: "(ucast (sc_last_step_clock sc) :: u32) = word_of_int l" by (simp add: l_def)
  have point: "sc_queue sc ! (sc_queue_pos sc + k) - ucast (sc_last_step_clock sc) = (word_of_int (rs ! k - l) :: u32)"
    unfolding q lsc by simp
  have prev: "(if sc_queue_pos sc + k > sc_queue_pos sc then sc_queue sc ! (sc_queue_pos sc + k - 1) - ucast (sc_last_step_clock sc) else 0)
      = (word_of_int (p - l) :: u32)"
  proof (cases "k = 0")
    case False
    then have "sc_queue sc ! (sc_queue_pos sc + k - 1) = word_of_int (rs ! (k - 1))"
      using requests_nth [OF assms(1), of "k - 1"] assms(2) by simp
    then show ?thesis using False by (simp add: p_def step_before_def l_def)
  qed (simp add: p_def step_before_def)
  define d where "d = (word_of_int (rs ! k - l) - word_of_int (p - l)) div (2 :: u32)"
  have "(word_of_int (rs ! k - l) - word_of_int (p - l) :: u32) = word_of_int (rs ! k - p)" by simp
  moreover have "unat (word_of_int (rs ! k - p) :: u32) = nat (rs ! k - p)"
    using o by (intro unat_of_int_u32) (auto simp: p_def)
  ultimately have "unat d = nat (rs ! k - p) div 2" unfolding d_def by (simp only: unat_div) simp
  then have ud: "int (unat d) = (rs ! k - p) div 2" using o(2) by (simp only: zdiv_int) (simp add: p_def)
  define me where "me = (if d > sc_max_error sc then sc_max_error sc else d)"
  have me: "int (unat me) = e"
    using ud by (auto simp: me_def e_def p_def word_less_nat_alt min_def simp del: of_nat_unat)
  have eb: "0 \<le> e" "e \<le> rs ! k - p" using o by (auto simp: e_def p_def)
  have "me = word_of_int e" using me by (metis of_int_of_nat_eq of_nat_unat ucast_id)
  then have "word_of_int (rs ! k - l) - me = (word_of_int (rs ! k - l - e) :: u32)" by simp
  moreover have "sint (word_of_int (rs ! k - l - e) :: u32) = rs ! k - l - e" "sint (word_of_int (rs ! k - l) :: u32) = rs ! k - l"
    using o eb by (auto intro!: sint_of_int_u32 simp: p_def simp del: of_int_diff)
  ultimately show ?thesis
    unfolding minmax_at_def Let_def point prev d_def [symmetric] me_def [symmetric] by simp
qed

lemma requests_windows:
  assumes "requests sc rs" and "1 \<le> j" and "j \<le> int (length rs)"
  defines "l \<equiv> uint (sc_last_step_clock sc)"
  shows "win_hi sc j = rs ! nat (j - 1) - l"
    and "win_lo sc j = win_hi sc j - min (int (unat (sc_max_error sc))) ((rs ! nat (j - 1) - step_before l rs (nat (j - 1))) div 2)"
proof -
  have pos: "nat (int (sc_queue_pos sc) + j - 1) = sc_queue_pos sc + nat (j - 1)" using assms(2) by simp
  note m = minmax_requests [OF assms(1), of "nat (j - 1)", folded l_def]
  show "win_hi sc j = rs ! nat (j - 1) - l" using m assms(2,3) unfolding win_hi_def pos by simp
  then show "win_lo sc j = win_hi sc j - min (int (unat (sc_max_error sc))) ((rs ! nat (j - 1) - step_before l rs (nat (j - 1))) div 2)"
    using m assms(2,3) unfolding win_lo_def pos by simp
qed

lemma requests_spaced:
  assumes "requests sc rs" and "rs \<noteq> []"
  shows "spaced (win_lo sc) (win_hi sc) (int (length rs)) (int (unat (sc_max_error sc)))"
proof -
  let ?l = "uint (sc_last_step_clock sc)" and ?E = "int (unat (sc_max_error sc))"
  have len: "1 \<le> int (length rs)" using assms(2) by (cases rs) auto
  have w: "win_hi sc j = rs ! nat (j - 1) - ?l"
      "win_lo sc j = rs ! nat (j - 1) - ?l - min ?E ((rs ! nat (j - 1) - step_before ?l rs (nat (j - 1))) div 2)"
      "?l \<le> step_before ?l rs (nat (j - 1))"
      "step_before ?l rs (nat (j - 1)) < rs ! nat (j - 1)" "rs ! nat (j - 1) - ?l < 3 * 2 ^ 28"
    if "1 \<le> j" "j \<le> int (length rs)" for j
  proof -
    have "nat (j - 1) < length rs" using that by linarith
    then show "win_hi sc j = rs ! nat (j - 1) - ?l"
      "win_lo sc j = rs ! nat (j - 1) - ?l - min ?E ((rs ! nat (j - 1) - step_before ?l rs (nat (j - 1))) div 2)"
      "?l \<le> step_before ?l rs (nat (j - 1))"
      "step_before ?l rs (nat (j - 1)) < rs ! nat (j - 1)" "rs ! nat (j - 1) - ?l < 3 * 2 ^ 28"
      using requests_windows [OF assms(1) that] requests_order [OF assms(1), of "nat (j - 1)"] by auto
  qed
  have half: "step_before ?l rs (nat (j - 1)) - ?l < win_lo sc j" if "1 \<le> j" "j \<le> int (length rs)" for j
    using w(2,4) [OF that] by simp linarith
  show ?thesis
    unfolding spaced_def
  proof (intro conjI ballI)
    show "1 \<le> win_lo sc 1" using half [of 1] w(3) [of 1] len by simp
    show "win_hi sc (int (length rs)) < 3 * 2 ^ 28" using w(1,5) [of "int (length rs)"] len by simp
    fix j
    show "win_lo sc j \<le> win_hi sc j" "win_hi sc j - win_lo sc j \<le> ?E" if "j \<in> {1..int (length rs)}"
      using w [of j] that by auto
    show "win_hi sc j < win_lo sc (j + 1)" if "j \<in> {1..<int (length rs)}"
      using half [of "j + 1"] w(1) [of j] that by (simp add: step_before_def nat_diff_distrib)
  qed (use len in simp)
qed

lemma requests_compress_ok:
  assumes "requests sc rs" and "rs \<noteq> []"
  shows "compress_ok sc (min (sc_queue_next sc) (sc_queue_pos sc + 65535))"
    and "int (min (sc_queue_next sc) (sc_queue_pos sc + 65535)) - int (sc_queue_pos sc) = int (length rs)"
  using assms requests_spaced [OF assms] by (auto simp: compress_ok_def requests_def)

section \<open>Flushing the queue\<close>

text \<open>The step times a list of moves stands for, from the clock \<open>l\<close> of the step before.\<close>

definition move_time :: "int \<Rightarrow> step_move \<Rightarrow> int \<Rightarrow> int" where
  "move_time l m j = l + seq_time (sint (sm_add m)) (uint (sm_interval m)) j"

definition move_times :: "int \<Rightarrow> step_move \<Rightarrow> int list" where
  "move_times l m = map (\<lambda>k. move_time l m (int k + 1)) [0..<unat (sm_count m)]"

definition move_end :: "int \<Rightarrow> step_move \<Rightarrow> int" where
  "move_end l m = move_time l m (int (unat (sm_count m)))"

fun moves_times :: "int \<Rightarrow> step_move list \<Rightarrow> int list" where
  "moves_times l [] = []"
| "moves_times l (m # ms) = move_times l m @ moves_times (move_end l m) ms"

definition moves_end :: "int \<Rightarrow> step_move list \<Rightarrow> int" where
  "moves_end = foldl move_end"

lemma moves_times_append: "moves_times l (ms @ [m]) = moves_times l ms @ move_times (moves_end l ms) m"
  by (induction ms arbitrary: l) (simp_all add: moves_end_def)

lemma moves_end_append: "moves_end l (ms @ [m]) = move_end (moves_end l ms) m"
  by (simp add: moves_end_def)

text \<open>A step may come early by at most the error bound, and never late.\<close>

definition on_time :: "u32 \<Rightarrow> int \<Rightarrow> int \<Rightarrow> bool" where
  "on_time max_error t r \<longleftrightarrow> r - int (unat max_error) \<le> t \<and> t \<le> r"

definition step_bytes :: "stepcompress \<Rightarrow> step_move \<Rightarrow> u8 list" where
  "step_bytes sc m = qm_bytes (message_alloc_and_encode [sc_queue_step_msgtag sc, sc_oid sc, sm_interval m,
     ucast (sm_count m), scast (sm_add m)])"

definition same_setup :: "stepcompress \<Rightarrow> stepcompress \<Rightarrow> bool" where
  "same_setup sc s \<longleftrightarrow> sc_max_error s = sc_max_error sc \<and> sc_oid s = sc_oid sc \<and>
     sc_queue_step_msgtag s = sc_queue_step_msgtag sc \<and> sc_set_next_step_dir_msgtag s = sc_set_next_step_dir_msgtag sc \<and>
     sc_sdir s = sc_sdir sc \<and> sc_invert_sdir s = sc_invert_sdir sc \<and> sc_mcu_freq s = sc_mcu_freq sc \<and>
     sc_mcu_time_offset s = sc_mcu_time_offset sc \<and>
     sc_next_step_clock s = sc_next_step_clock sc \<and> sc_next_step_dir s = sc_next_step_dir sc \<and>
     length (sc_queue s) = length (sc_queue sc)"

definition flushed :: "stepcompress \<Rightarrow> stepcompress \<Rightarrow> step_move list \<Rightarrow> int list \<Rightarrow> bool" where
  "flushed sc s ms rs \<longleftrightarrow> same_setup sc s \<and>
     uint (sc_last_step_clock s) = moves_end (uint (sc_last_step_clock sc)) ms \<and>
     list_all2 (on_time (sc_max_error sc)) (moves_times (uint (sc_last_step_clock sc)) ms) rs \<and>
     map qm_bytes (sc_msg_queue s) = map qm_bytes (sc_msg_queue sc) @ map (step_bytes sc) ms \<and>
     sc_last_position s = sc_last_position sc + (if sc_sdir sc \<noteq> 0 then int (length rs) else - int (length rs))"

lemma qm_bytes_move_msg: "qm_bytes (move_msg sc first m) = step_bytes sc m"
  by (simp add: move_msg_def step_bytes_def qm_bytes_def Let_def)

lemma fits_move_times:
  assumes r: "requests s rs" "rs \<noteq> []" and fit: "fits (win_lo s) (win_hi s) a i n" and n: "1 \<le> n" "n \<le> int (length rs)"
    and a: "- (2 ^ 15) \<le> a" "a < 2 ^ 15"
  defines "l \<equiv> uint (sc_last_step_clock s)"
  shows "list_all2 (on_time (sc_max_error s)) (move_times l (make_move i n a)) (take (nat n) rs)"
    and "move_end l (make_move i n a) = l + seq_time a i n"
    and "uint (sm_interval (make_move i n a)) = i" and "unat (sm_count (make_move i n a)) = nat n"
proof -
  have sp: "spaced (win_lo s) (win_hi s) (int (length rs)) (int (unat (sc_max_error s)))"
    and len: "length rs \<le> 46341" using requests_spaced [OF r] r(1) by (auto simp: requests_def)
  have i: "1 \<le> i" "i < 3 * 2 ^ 28" using fits_total(1,4) [OF sp fit n] .
  show ui: "uint (sm_interval (make_move i n a)) = i"
    using i by (simp add: make_move_def unsigned_of_int take_bit_int_eq_self)
  show un: "unat (sm_count (make_move i n a)) = nat n"
    using n len by (simp add: make_move_def unat_of_int_u16)
  have sa: "sint (sm_add (make_move i n a)) = a" using a by (simp add: make_move_def sint_of_int_u16)
  show "move_end l (make_move i n a) = l + seq_time a i n"
    using n by (simp add: move_end_def move_time_def ui un sa)
  show "list_all2 (on_time (sc_max_error s)) (move_times l (make_move i n a)) (take (nat n) rs)"
    unfolding list_all2_conv_all_nth
  proof (intro conjI allI impI)
    show "length (move_times l (make_move i n a)) = length (take (nat n) rs)" using n by (simp add: move_times_def un)
    fix k assume "k < length (move_times l (make_move i n a))"
    then have k: "1 \<le> int k + 1" "int k + 1 \<le> n" by (auto simp: move_times_def un)
    have "win_hi s (int k + 1) = rs ! k - l" using requests_windows(1) [OF r(1) k(1)] k(2) n by (simp add: l_def)
    moreover have "win_hi s (int k + 1) - win_lo s (int k + 1) \<le> int (unat (sc_max_error s))"
      using spacedD(5) [OF sp k(1)] k n by simp
    ultimately show "on_time (sc_max_error s) (move_times l (make_move i n a) ! k) (take (nat n) rs ! k)"
      using fitsD [OF fit k] k unfolding on_time_def
      by (simp add: move_times_def move_time_def un ui sa)
  qed
qed

lemma wp_i64 [wp_simps]: "wp (i64 x) Q E s \<longleftrightarrow> - (2 ^ 63) \<le> x \<and> x < 2 ^ 63 \<and> Q x s"
  by (auto simp: i64_def wp_simps)

lemma fits_after_first:
  assumes "spaced lo hi N E" and "fits lo hi a i n" and "1 \<le> n" and "n \<le> N"
  shows "i \<le> seq_time a i n"
  using assms(3)
proof (cases "n = 1")
  case False
  then have "hi 1 < lo n" using spaced_below [OF assms(1), of 1 n] assms(3,4) by simp
  moreover have "seq_time a i 1 \<le> hi 1" "lo n \<le> seq_time a i n" using fitsD(2) [OF assms(2), of 1] fitsD(1) [OF assms(2), of n] assms(3) by auto
  ultimately show ?thesis by simp
qed simp

lemma add_move_ok:
  assumes r: "requests s rs" "rs \<noteq> []" and fit: "fits (win_lo s) (win_hi s) a i n" and n: "1 \<le> n" "n \<le> int (length rs)"
    and a: "- (2 ^ 15) \<le> a" "a < 2 ^ 15"
  defines "l \<equiv> uint (sc_last_step_clock s)" and "m \<equiv> make_move i n a"
  defines "first \<equiv> sc_last_step_clock s + ucast (sm_interval m)"
  assumes Q: "\<And>hs. Q () (s\<lparr>sc_msg_queue := sc_msg_queue s @ [move_msg s first m],
      sc_last_step_clock := word_of_int (l + seq_time a i n),
      sc_last_position := sc_last_position s + (if sc_sdir s \<noteq> 0 then n else - n), sc_history_list := hs\<rparr>)"
  shows "wp (add_move first m) Q E s"
proof -
  have sp: "spaced (win_lo s) (win_hi s) (int (length rs)) (int (unat (sc_max_error s)))"
    and len: "length rs \<le> 46341" and pos: "\<bar>sc_last_position s\<bar> + int (length rs) < 2 ^ 63"
    using requests_spaced [OF r] r(1) by (auto simp: requests_def)
  note tot = fits_total [OF sp fit n] fits_after_first [OF sp fit n]
  have f: "int (unat (sm_count m)) = n" "sint (sm_add m) = a" "sm_interval m = word_of_int i"
    using fits_move_times(4) [OF r fit n a] n a by (simp_all add: m_def make_move_def sint_of_int_u16)
  have n46: "1 \<le> n" "n \<le> 46341" using n len by auto
  have prod: "\<bar>a * tri n\<bar> < 3 * 2 ^ 28" using fits_add_part [OF sp fit n] tri_nonneg [of n] n by (simp add: abs_mult)
  have ticks: "word_of_int (a * tri n) + word_of_int i * word_of_int (n - 1) = (word_of_int (seq_time a i n - i) :: u32)"
    by (simp add: seq_time_def algebra_simps)
  have u: "(ucast (word_of_int (seq_time a i n - i) :: u32) :: u64) = word_of_int (seq_time a i n - i)"
    using tot by (intro ucast_of_int_u32) auto
  have ui: "(ucast (word_of_int i :: u32) :: u64) = word_of_int i" using tot by (intro ucast_of_int_u32) auto
  have last: "first + ucast (word_of_int (a * tri n) + word_of_int i * word_of_int (n - 1) :: u32) = word_of_int (l + seq_time a i n)"
    unfolding ticks u first_def f(3) ui l_def by simp
  show ?thesis
    unfolding add_move_def Let_def f wp_bnd wp_addfactor [OF n46] wp_i32 wp_sq wp_upd wp_gets last
    using prod pos n Q by (auto simp: wp_simps)
qed

text \<open>One move of the flush: a prefix of the requests is done, the rest is still waiting.\<close>

lemma requests_drop:
  assumes r: "requests s rs" and n: "n < length rs"
    and l: "uint (sc_last_step_clock s) \<le> uint (sc_last_step_clock s')" "uint (sc_last_step_clock s') < rs ! n"
    and same: "sc_queue s' = sc_queue s" "sc_queue_next s' = sc_queue_next s" "sc_queue_pos s' = sc_queue_pos s + n"
      "sc_max_error s' = sc_max_error s"
    and lp: "\<bar>sc_last_position s'\<bar> \<le> \<bar>sc_last_position s\<bar> + int n"
  shows "requests s' (drop n rs)"
proof -
  have sorted: "sorted_wrt (<) rs" using r by (simp add: requests_def)
  have ge: "rs ! n \<le> r'" if mem: "r' \<in> set (drop n rs)" for r'
  proof -
    obtain k where k: "k < length (drop n rs)" "r' = drop n rs ! k" using mem unfolding in_set_conv_nth by blast
    show ?thesis
    proof (cases "k = 0")
      case False
      then have "rs ! n < rs ! (n + k)" using k(1) by (intro sorted_wrt_nth_less [OF sorted]) auto
      then show ?thesis using k by simp
    qed (use k in simp)
  qed
  have after: "sorted_wrt (<) (uint (sc_last_step_clock s') # drop n rs)"
    using order.strict_trans2 [OF l(2) ge] sorted_wrt_drop [OF sorted] by simp
  have "\<forall>r\<in>set rs. r < uint (sc_last_step_clock s) + 3 * 2 ^ 28 \<and> r < 2 ^ 64" using r by (simp add: requests_def)
  then have bound: "\<forall>r\<in>set (drop n rs). r < uint (sc_last_step_clock s') + 3 * 2 ^ 28 \<and> r < 2 ^ 64"
    using l(1) set_drop_subset [of n rs] by (meson add_le_cancel_right order.strict_trans2 subsetD)
  have nth: "sc_queue s' ! (sc_queue_pos s' + k) = word_of_int (drop n rs ! k)" if "k < length (drop n rs)" for k
    using requests_nth [OF r, of "n + k"] that n by (simp add: same add.assoc)
  have "sc_queue_next s = sc_queue_pos s + length rs" "sc_queue_next s \<le> length (sc_queue s)" "length rs \<le> 46341"
    "sc_max_error s < 2 ^ 18" "\<bar>sc_last_position s\<bar> + int (length rs) < 2 ^ 63"
    using r by (simp_all add: requests_def)
  then show ?thesis
    unfolding requests_def using after bound nth n same lp by simp
qed

lemma take_drop_flushed:
  assumes "flushed sc s ms rs1" and "list_all2 (on_time (sc_max_error sc)) (move_times (uint (sc_last_step_clock s)) m) rs'"
    and "same_setup s s'" and "uint (sc_last_step_clock s') = move_end (uint (sc_last_step_clock s)) m"
    and "sc_msg_queue s' = sc_msg_queue s @ [qm]" and "qm_bytes qm = step_bytes s m"
    and "sc_last_position s' = sc_last_position s + (if sc_sdir s \<noteq> 0 then int (length rs') else - int (length rs'))"
  shows "flushed sc s' (ms @ [m]) (rs1 @ rs')"
  using assms
  by (auto simp: flushed_def same_setup_def moves_times_append moves_end_append step_bytes_def intro!: list_all2_appendI)

definition flush_inv :: "stepcompress \<Rightarrow> int list \<Rightarrow> stepcompress \<Rightarrow> bool" where
  "flush_inv sc rs s \<longleftrightarrow> (\<exists>ms rs1 rs2. rs = rs1 @ rs2 \<and> rs2 \<noteq> [] \<and> requests s rs2 \<and> flushed sc s ms rs1)"

definition flush_end :: "stepcompress \<Rightarrow> int list \<Rightarrow> u64 \<Rightarrow> stepcompress \<Rightarrow> bool" where
  "flush_end sc rs move_clock s \<longleftrightarrow>
     (\<exists>ms rs1 rs2. rs = rs1 @ rs2 \<and> requests s rs2 \<and> flushed sc s ms rs1 \<and>
        (rs2 = [] \<or> move_clock \<le> sc_last_step_clock s))"

lemma flush_move_ok:
  assumes rs: "rs = rs1 @ rs2" "rs2 \<noteq> []" "requests s rs2" "flushed sc s ms rs1"
    and fit: "fits (win_lo s) (win_hi s) a i n" and n: "1 \<le> n" "n \<le> int (length rs2)"
    and a: "- (2 ^ 15) \<le> a" "a < 2 ^ 15"
  defines "m \<equiv> make_move i n a"
  shows "wp (add_move (sc_last_step_clock s + ucast (sm_interval m)) m)
    (\<lambda>_. wp (bnd (gets (\<lambda>sc. sc_queue_pos sc + unat (sm_count m) \<ge> sc_queue_next sc)) (\<lambda>fin.
       if fin then sq (upd (\<lambda>sc. sc\<lparr>sc_queue_pos := 0, sc_queue_next := 0\<rparr>)) (ret (Inr 0))
       else sq (upd (\<lambda>sc. sc\<lparr>sc_queue_pos := sc_queue_pos sc + unat (sm_count m)\<rparr>)) (ret (Inl ()))))
     (\<lambda>r s'. case r of
       Inl (_ :: unit) \<Rightarrow> flush_inv sc rs s' \<and> sc_queue_next s' - sc_queue_pos s' < sc_queue_next s - sc_queue_pos s
     | Inr e \<Rightarrow> e = (0 :: int) \<and> flush_end sc rs move_clock s') E) E s"
proof -
  let ?l = "uint (sc_last_step_clock s)"
  have sp: "spaced (win_lo s) (win_hi s) (int (length rs2)) (int (unat (sc_max_error s)))"
    by (rule requests_spaced [OF rs(3,2)])
  note tot = fits_total [OF sp fit n]
  note times = fits_move_times [OF rs(3,2) fit n a, folded m_def]
  have next_step: "sc_queue_next s = sc_queue_pos s + length rs2" using rs(3) by (simp add: requests_def)
  have end_le: "?l + seq_time a i n \<le> rs2 ! nat (n - 1)"
    using fitsD(2) [OF fit n(1)] requests_windows(1) [OF rs(3) n] by simp
  moreover have in_set: "rs2 ! nat (n - 1) \<in> set rs2" using n by (intro nth_mem) linarith
  ultimately have end64: "?l + seq_time a i n < 2 ^ 64" using rs(3) by (force simp: requests_def)
  then have end_clock: "uint (word_of_int (?l + seq_time a i n) :: u64) = ?l + seq_time a i n"
    using tot by (simp add: unsigned_of_int take_bit_int_eq_self del: of_int_add)
  show ?thesis
    unfolding m_def
  proof (rule add_move_ok [OF rs(3,2) fit n a], fold m_def)
    fix hs
    let ?s1 = "s\<lparr>sc_msg_queue := sc_msg_queue s @ [move_msg s (sc_last_step_clock s + ucast (sm_interval m)) m],
      sc_last_step_clock := word_of_int (?l + seq_time a i n),
      sc_last_position := sc_last_position s + (if sc_sdir s \<noteq> 0 then n else - n), sc_history_list := hs\<rparr>"
    have fl: "flushed sc s' (ms @ [m]) (rs1 @ take (nat n) rs2)"
      if "s' = ?s1\<lparr>sc_queue_pos := 0, sc_queue_next := 0\<rparr> \<or> s' = ?s1\<lparr>sc_queue_pos := sc_queue_pos s + nat n\<rparr>" for s'
      by (rule take_drop_flushed [OF rs(4), of m _ _ "move_msg s (sc_last_step_clock s + ucast (sm_interval m)) m"])
        (use that times rs(4) end_clock n in \<open>auto simp: same_setup_def flushed_def qm_bytes_move_msg simp del: of_int_add\<close>)
    show "wp (bnd (gets (\<lambda>sc. sc_queue_pos sc + unat (sm_count m) \<ge> sc_queue_next sc)) (\<lambda>fin.
       if fin then sq (upd (\<lambda>sc. sc\<lparr>sc_queue_pos := 0, sc_queue_next := 0\<rparr>)) (ret (Inr 0))
       else sq (upd (\<lambda>sc. sc\<lparr>sc_queue_pos := sc_queue_pos sc + unat (sm_count m)\<rparr>)) (ret (Inl ()))))
     (\<lambda>r s'. case r of
       Inl (_ :: unit) \<Rightarrow> flush_inv sc rs s' \<and> sc_queue_next s' - sc_queue_pos s' < sc_queue_next s - sc_queue_pos s
     | Inr e \<Rightarrow> e = (0 :: int) \<and> flush_end sc rs move_clock s') E ?s1"
    proof (cases "n = int (length rs2)")
      case True
      have "requests (?s1\<lparr>sc_queue_pos := 0, sc_queue_next := 0\<rparr>) []"
        using rs(3) n True by (auto simp: requests_def)
      then have "flush_end sc rs move_clock (?s1\<lparr>sc_queue_pos := 0, sc_queue_next := 0\<rparr>)"
        using fl [OF disjI1, OF refl] True rs(1) unfolding flush_end_def by (intro exI [of _ "ms @ [m]"] exI [of _ rs] exI [of _ "[]"]) auto
      then show ?thesis using True next_step times(4) by (simp add: wp_simps del: of_int_add)
    next
      case False
      let ?s2 = "?s1\<lparr>sc_queue_pos := sc_queue_pos s + nat n\<rparr>"
      have n2: "nat n < length rs2" using False n by linarith
      have "rs2 ! nat (n - 1) < rs2 ! nat n"
        using rs(3) sorted_wrt_nth_less [of "(<)" rs2 "nat (n - 1)" "nat n"] n n2 by (auto simp: requests_def)
      then have "requests ?s2 (drop (nat n) rs2)"
        using end_le tot end_clock n by (intro requests_drop [OF rs(3) n2]) (auto simp del: of_int_add)
      then have "flush_inv sc rs ?s2"
        using fl [OF disjI2, OF refl] rs(1) n2 unfolding flush_inv_def
        by (intro exI [of _ "ms @ [m]"] exI [of _ "rs1 @ take (nat n) rs2"] exI [of _ "drop (nat n) rs2"]) auto
      then show ?thesis using False next_step times(4) n n2 by (simp add: wp_simps del: of_int_add)
    qed
  qed
qed

lemma flush_step_ok:
  assumes "flush_inv sc rs s"
  shows "wp (flush_step move_clock u)
    (\<lambda>r s'. case r of
       Inl _ \<Rightarrow> flush_inv sc rs s' \<and> sc_queue_next s' - sc_queue_pos s' < sc_queue_next s - sc_queue_pos s
     | Inr e \<Rightarrow> e = 0 \<and> flush_end sc rs move_clock s') E s"
proof -
  obtain ms rs1 rs2 where rs: "rs = rs1 @ rs2" "rs2 \<noteq> []" "requests s rs2" "flushed sc s ms rs1"
    using assms by (auto simp: flush_inv_def)
  show ?thesis
  proof (cases "sc_last_step_clock s < move_clock")
    case False
    then have "flush_end sc rs move_clock s" using rs unfolding flush_end_def by (metis not_less)
    then show ?thesis using False by (simp add: flush_step_def wp_simps)
  next
    case True
    note ok = requests_compress_ok [OF rs(3,2)]
    have sp: "spaced (win_lo s) (win_hi s) (int (length rs2)) (int (unat (sc_max_error s)))"
      by (rule requests_spaced [OF rs(3,2)])
    let ?R = "\<lambda>r s'. case r of
       Inl (_ :: unit) \<Rightarrow> flush_inv sc rs s' \<and> sc_queue_next s' - sc_queue_pos s' < sc_queue_next s - sc_queue_pos s
     | Inr e \<Rightarrow> e = (0 :: int) \<and> flush_end sc rs move_clock s'"
    show ?thesis
      unfolding flush_step_def wp_bnd wp_gets
    proof (simp only: True not_True_eq_False if_False wp_bnd, rule wp_mono [OF compress_search_ok [OF ok(1) refl, of "\<lambda>_ _. False"]])
      fix mv s0
      assume "s0 = s \<and> move_fits (win_lo s) (win_hi s)
        (int (min (sc_queue_next s) (sc_queue_pos s + 65535)) - int (sc_queue_pos s)) mv"
      then obtain i n a where s0: "s0 = s" and mv: "mv = make_move i n a" and fit: "fits (win_lo s) (win_hi s) a i n"
        and n: "1 \<le> n" "n \<le> int (length rs2)" and a: "- (2 ^ 15) \<le> a" "a < 2 ^ 15"
        unfolding move_fits_def ok(2) by blast
      show "wp (bnd (check_line mv) (\<lambda>r. if r \<noteq> 0 then ret (Inr r) else
           sq (add_move (sc_last_step_clock s + ucast (sm_interval mv)) mv)
            (bnd (gets (\<lambda>sc. sc_queue_pos sc + unat (sm_count mv) \<ge> sc_queue_next sc)) (\<lambda>fin.
             if fin then sq (upd (\<lambda>sc. sc\<lparr>sc_queue_pos := 0, sc_queue_next := 0\<rparr>)) (ret (Inr 0))
             else sq (upd (\<lambda>sc. sc\<lparr>sc_queue_pos := sc_queue_pos sc + unat (sm_count mv)\<rparr>)) (ret (Inl ())))))) ?R E s0"
        unfolding wp_bnd [of "check_line mv"]
      proof (unfold s0, rule wp_mono [OF check_line_ok [OF ok(1) ok(2) [symmetric] fit n a, folded mv, of "\<lambda>_ _. False"]])
        fix r :: int and s1
        assume r: "r = 0 \<and> s1 = s"
        show "wp (if r \<noteq> 0 then ret (Inr r) else
           sq (add_move (sc_last_step_clock s + ucast (sm_interval mv)) mv)
            (bnd (gets (\<lambda>sc. sc_queue_pos sc + unat (sm_count mv) \<ge> sc_queue_next sc)) (\<lambda>fin.
             if fin then sq (upd (\<lambda>sc. sc\<lparr>sc_queue_pos := 0, sc_queue_next := 0\<rparr>)) (ret (Inr 0))
             else sq (upd (\<lambda>sc. sc\<lparr>sc_queue_pos := sc_queue_pos sc + unat (sm_count mv)\<rparr>)) (ret (Inl ()))))) ?R E s1"
          using flush_move_ok [OF rs fit n a, folded mv, of move_clock E] r by (simp add: wp_sq)
      qed simp
    qed simp
  qed
qed

lemma flush_end_cong:
  assumes "flush_end sc rs move_clock s"
  shows "flush_end sc rs move_clock (s\<lparr>sc_last_step_print_time := t\<rparr>)"
    and "flush_end sc rs move_clock (s\<lparr>sc_history_list := hs\<rparr>)"
  using assms by (auto simp: flush_end_def requests_def flushed_def same_setup_def)

lemma calc_time_flush_end:
  assumes "flush_end sc rs move_clock s"
  shows "wp calc_last_step_print_time (\<lambda>_ s'. flush_end sc rs move_clock s') E s"
  unfolding calc_last_step_print_time_def free_history_def
  by (auto simp: wp_simps intro!: flush_end_cong assms)

lemma flushed_refl: "flushed sc sc [] []"
  by (simp add: flushed_def same_setup_def moves_end_def)

lemma queue_flush_ok:
  assumes "requests sc rs"
  shows "wp (queue_flush move_clock) (\<lambda>r s. r = 0 \<and> flush_end sc rs move_clock s) E sc"
proof (cases "rs = []")
  case True
  then have "flush_end sc rs move_clock sc" "sc_queue_next sc \<le> sc_queue_pos sc"
    using assms flushed_refl unfolding flush_end_def by (auto simp: requests_def)
  then show ?thesis by (simp add: queue_flush_def wp_simps)
next
  case False
  then have "\<not> sc_queue_next sc \<le> sc_queue_pos sc" using assms by (simp add: requests_def)
  moreover have "wp (loopp (flush_step move_clock) ()) (\<lambda>r s. r = 0 \<and> flush_end sc rs move_clock s) E sc"
  proof (rule wp_loopp [where I = "\<lambda>_. flush_inv sc rs" and m = "\<lambda>_ s. sc_queue_next s - sc_queue_pos s"])
    show "flush_inv sc rs sc"
      using assms False flushed_refl unfolding flush_inv_def by (intro exI [of _ "[]"] exI [of _ rs]) auto
    fix u s assume "flush_inv sc rs s"
    then show "wp (flush_step move_clock u)
        (\<lambda>r s'. case r of Inl a' \<Rightarrow> flush_inv sc rs s' \<and> sc_queue_next s' - sc_queue_pos s' < sc_queue_next s - sc_queue_pos s
          | Inr b \<Rightarrow> b = 0 \<and> flush_end sc rs move_clock s') E s"
      by (rule flush_step_ok)
  qed
  ultimately show ?thesis
    unfolding queue_flush_def wp_bnd wp_gets
    by (auto simp: wp_simps elim!: wp_mono intro!: wp_mono [OF calc_time_flush_end])
qed

text \<open>A flush up to the end of time empties the queue.\<close>

lemma flush_end_max:
  assumes "flush_end sc rs (-1) s"
  shows "requests s []" and "\<exists>ms. flushed sc s ms rs"
proof -
  obtain ms rs1 rs2 where rs: "rs = rs1 @ rs2" "requests s rs2" "flushed sc s ms rs1" "rs2 = [] \<or> -1 \<le> sc_last_step_clock s"
    using assms by (auto simp: flush_end_def)
  have "rs2 = []"
  proof (rule ccontr)
    assume ne: "rs2 \<noteq> []"
    then have "sc_last_step_clock s = -1" using rs(4) word_order.extremum_uniqueI by auto
    then have "uint (sc_last_step_clock s) = 2 ^ 64 - 1" by (simp add: unsigned_minus_1_eq_mask mask_eq_exp_minus_1)
    moreover have "uint (sc_last_step_clock s) < hd rs2" "hd rs2 < 2 ^ 64"
      using rs(2) ne by (auto simp: requests_def)
    ultimately show False by simp
  qed
  then show "requests s []" and "\<exists>ms. flushed sc s ms rs" using rs by auto
qed

text \<open>
  C12.  The search for a step sequence is sound and complete in itself: on every queue of increasing
  step times within the clock window, with up to 46341 entries, \<^verbatim>\<open>compress_bisect_add\<close> comes to
  an end, none of its 32-bit signed computations overflows, and the sequence it finds passes
  \<^verbatim>\<open>check_line\<close>.
\<close>

theorem compress_passes_check:
  assumes "requests sc rs" and "rs \<noteq> []"
  shows "wp (bnd compress_bisect_add check_line) (\<lambda>r s. r = 0 \<and> s = sc) (\<lambda>_ _. False) sc"
proof -
  note ok = requests_compress_ok [OF assms]
  show ?thesis
    unfolding wp_bnd
  proof (rule wp_mono [OF compress_search_ok [OF ok(1) refl, of "\<lambda>_ _. False"]])
    fix mv s
    assume "s = sc \<and> move_fits (win_lo sc) (win_hi sc)
      (int (min (sc_queue_next sc) (sc_queue_pos sc + 65535)) - int (sc_queue_pos sc)) mv"
    then show "wp (check_line mv) (\<lambda>r s. r = 0 \<and> s = sc) (\<lambda>_ _. False) s"
      unfolding move_fits_def by (auto intro!: check_line_ok [OF ok(1) refl])
  qed simp
qed

text \<open>A queue with a few requests, for concrete instances.\<close>

definition example_sc :: "u32 list \<Rightarrow> stepcompress" where
  "example_sc q = (stepcompress_alloc 3)\<lparr>sc_queue := q, sc_queue_next := length q, sc_max_error := 25\<rparr>"

lemma example_requests: "requests (example_sc [1000, 2000, 3100]) [1000, 2000, 3100]"
  by (auto simp: requests_def example_sc_def stepcompress_alloc_def less_Suc_eq numeral_3_eq_3)

theorem compress_passes_check_witness:
  "requests (example_sc [1000, 2000, 3100]) [1000, 2000, 3100] \<and>
   wp (bnd compress_bisect_add check_line) (\<lambda>r s. r = 0 \<and> s = example_sc [1000, 2000, 3100]) (\<lambda>_ _. False)
     (example_sc [1000, 2000, 3100])"
  using compress_passes_check [OF example_requests] example_requests by simp

text \<open>
  C2.  Step compression is faithful: flushing the queue never fails, empties it, and queues moves
  whose step times, as the micro-controller computes them, match the requested times one by one: never
  late, and early by at most the error bound.  The messages are the encoded moves, in order, and the
  position advances by the number of steps.
\<close>

theorem flush_covers_requests:
  assumes "requests sc rs"
  shows "wp (queue_flush (-1))
    (\<lambda>r s. r = 0 \<and> sc_queue_pos s = sc_queue_next s \<and>
       (\<exists>ms. list_all2 (on_time (sc_max_error sc)) (moves_times (uint (sc_last_step_clock sc)) ms) rs \<and>
             uint (sc_last_step_clock s) = moves_end (uint (sc_last_step_clock sc)) ms \<and>
             map qm_bytes (sc_msg_queue s) = map qm_bytes (sc_msg_queue sc) @ map (step_bytes sc) ms) \<and>
       sc_last_position s = sc_last_position sc + (if sc_sdir sc \<noteq> 0 then int (length rs) else - int (length rs)))
    (\<lambda>_ _. False) sc"
proof (rule wp_mono [OF queue_flush_ok [OF assms, of "-1" "\<lambda>_ _. False"]])
  fix r :: int and s
  assume a: "r = 0 \<and> flush_end sc rs (-1) s"
  then have "requests s []" and "\<exists>ms. flushed sc s ms rs" using flush_end_max by auto
  then show "r = 0 \<and> sc_queue_pos s = sc_queue_next s \<and>
       (\<exists>ms. list_all2 (on_time (sc_max_error sc)) (moves_times (uint (sc_last_step_clock sc)) ms) rs \<and>
             uint (sc_last_step_clock s) = moves_end (uint (sc_last_step_clock sc)) ms \<and>
             map qm_bytes (sc_msg_queue s) = map qm_bytes (sc_msg_queue sc) @ map (step_bytes sc) ms) \<and>
       sc_last_position s = sc_last_position sc + (if sc_sdir sc \<noteq> 0 then int (length rs) else - int (length rs))"
    using a by (auto simp: requests_def flushed_def)
qed simp

theorem flush_covers_requests_witness:
  "wp (queue_flush (-1)) (\<lambda>r s. r = 0 \<and> sc_last_position s = 3) (\<lambda>_ _. False) (example_sc [1000, 2000, 3100])"
  using flush_covers_requests [OF example_requests]
  by (auto elim!: wp_mono simp: example_sc_def stepcompress_alloc_def)

section \<open>Where the arithmetic does overflow\<close>

text \<open>A queue with a step every ten ticks.\<close>

definition long_run :: "nat \<Rightarrow> stepcompress" where
  "long_run n = (stepcompress_alloc 3)\<lparr>sc_queue := map (\<lambda>k. word_of_int (10 * (int k + 1))) [0..<n], sc_queue_next := n\<rparr>"

lemma long_run_point:
  assumes "k < n" and "n < 2 ^ 16"
  shows "minmax_at (long_run n) k = \<lparr>minp = 10 * (int k + 1), maxp = 10 * (int k + 1)\<rparr>"
proof -
  have nth: "sc_queue (long_run n) ! k = word_of_int (10 * (int k + 1))" using assms(1) by (simp add: long_run_def)
  have "sint (word_of_int (10 * (int k + 1)) :: u32) = 10 * (int k + 1)"
    using assms by (intro sint_of_int_u32) auto
  moreover have "sc_max_error (long_run n) = 0" "ucast (sc_last_step_clock (long_run n)) = (0 :: u32)"
    by (simp_all add: long_run_def stepcompress_alloc_def)
  moreover have "(if 0 < d then 0 else d) = 0" for d :: u32 by (simp add: word_gt_0)
  ultimately show ?thesis unfolding minmax_at_def Let_def nth by (simp only: diff_zero)
qed

lemma long_run_extend:
  assumes "1 \<le> m" and "m < 46341" and "m < int n" and "n < 2 ^ 16"
  shows "bisect_extend n 0 (m, 10, 10, 10) (long_run n) = Some (Inr (Inl (m + 1, 10, 10, 10)), long_run n)"
proof -
  have qp: "sc_queue_pos (long_run n) = 0" "length (sc_queue (long_run n)) = n"
    by (simp_all add: long_run_def stepcompress_alloc_def)
  have k: "nat m < n" "1 \<le> m + 1" "m + 1 \<le> 46341" using assms by auto
  have "wp (bisect_extend n 0 (m, 10, 10, 10)) (\<lambda>r s. r = Inl (m + 1, 10, 10, 10) \<and> s = long_run n) (\<lambda>_ _. False) (long_run n)"
    unfolding bisect_extend_def prod.case minmax_point_def
    using assms k by (simp add: wp_simps qp wp_addfactor long_run_point)
  then show ?thesis by (auto simp: wp_exec)
qed

lemma long_run_stuck:
  assumes "46342 \<le> n" and "n < 2 ^ 16"
  shows "bisect_extend n 0 (46341, 10, 10, 10) (long_run n) = None"
proof -
  have qp: "sc_queue_pos (long_run n) = 0" "length (sc_queue (long_run n)) = n"
    by (simp_all add: long_run_def stepcompress_alloc_def)
  have "addfactor 46342 s = None" for s :: stepcompress
    by (simp add: addfactor_def i32_def prog_defs)
  then show ?thesis
    using assms by (simp add: bisect_extend_def minmax_point_def i32_def prog_defs qp)
qed

lemma long_run_loop:
  assumes "46342 \<le> n" and "n < 2 ^ 16" and "k < 46341"
  shows "loopp (bisect_extend n 0) (46341 - int k, 10, 10, 10) (long_run n) = None"
  using assms(3)
proof (induction k)
  case 0
  then show ?case
    unfolding loopp.simps [of "bisect_extend n 0" _ "long_run n"] using long_run_stuck [OF assms(1,2)] by simp
next
  case (Suc k)
  have "bisect_extend n 0 (46341 - int (Suc k), 10, 10, 10) (long_run n) = Some (Inr (Inl (46341 - int k, 10, 10, 10)), long_run n)"
    using long_run_extend [of "46341 - int (Suc k)" n] Suc.prems assms(1,2) by simp
  then show ?case
    by (subst loopp.simps) (use Suc in simp)
qed



text \<open>A full queue of the initial size: one step, a pause, and a fast run; the next step is far ahead.\<close>

definition far_requests :: "int list" where
  "far_requests = 1000 # map (\<lambda>k. 1000000 + 10 * int k) [0..<1023]"

definition far_queue :: stepcompress where
  "far_queue = (stepcompress_alloc 3)\<lparr>sc_queue := map word_of_int far_requests, sc_queue_next := QUEUE_START_SIZE,
     sc_max_error := 25, sc_sdir := 0\<rparr>"

lemma far_simps:
  "sc_queue_pos far_queue = 0" "sc_queue_next far_queue = 1024" "length (sc_queue far_queue) = 1024"
  "sc_last_step_clock far_queue = 0" "sc_max_error far_queue = 25" "sc_last_position far_queue = 0"
  "sc_next_step_clock far_queue = 0" "sc_sdir far_queue = 0" "sc_next_step_dir far_queue = 0"
  by (simp_all add: far_queue_def stepcompress_alloc_def QUEUE_START_SIZE_def far_requests_def)

lemma far_nonempty: "sc_queue far_queue \<noteq> []"
  using far_simps(3) by auto

lemma far_requests_ok: "requests far_queue far_requests"
proof -
  have "sc_queue far_queue = map word_of_int far_requests" by (simp add: far_queue_def)
  then have "\<forall>k<length far_requests. sc_queue far_queue ! (sc_queue_pos far_queue + k) = word_of_int (far_requests ! k)"
    by (simp add: far_simps)
  moreover have "sorted_wrt (<) (map (\<lambda>k. 1000000 + 10 * int k) [0..<1023])"
    by (simp add: sorted_wrt_map)
  ultimately show ?thesis
    unfolding requests_def by (auto simp: far_simps far_requests_def)
qed

lemma far_points:
  "minmax_at far_queue 0 = \<lparr>minp = 975, maxp = 1000\<rparr>" "minmax_at far_queue (Suc 0) = \<lparr>minp = 999975, maxp = 1000000\<rparr>"
proof -
  have "far_requests ! 0 = 1000" "far_requests ! 1 = 1000000" by (simp_all add: far_requests_def)
  then show "minmax_at far_queue 0 = \<lparr>minp = 975, maxp = 1000\<rparr>" "minmax_at far_queue (Suc 0) = \<lparr>minp = 999975, maxp = 1000000\<rparr>"
    using minmax_requests [OF far_requests_ok, of 0] minmax_requests [OF far_requests_ok, of 1]
    by (simp_all add: far_simps step_before_def far_requests_def)
qed

lemma far_compress:
  "wp compress_bisect_add (\<lambda>m s. m = make_move 1000 1 0 \<and> s = far_queue) (\<lambda>_ _. False) far_queue"
proof -
  have sdiv: "(499987 :: int) sdiv 1 = 499987" "(999976 :: int) sdiv 2 = 499988" by (simp_all add: sdiv_pos)
  have "bisect_extend 1024 0 (1, 975, 1000, 1000) far_queue =
      Some (Inr (Inr (Broken 2 \<lparr>minp = 999975, maxp = 1000000\<rparr> 499988 1000 1000)), far_queue)"
    by (simp add: bisect_extend_def minmax_point_def addfactor_def i32_def cdiv_def idiv_up_def idiv_down_def prog_defs
        far_simps far_points sdiv_pos)
  then have run: "loopp (bisect_extend 1024 0) (1, 975, 1000, 1000) far_queue =
      Some (Inr (Broken 2 \<lparr>minp = 999975, maxp = 1000000\<rparr> 499988 1000 1000), far_queue)"
    by (subst loopp.simps) simp
  let ?b = "\<lparr>b_outer_min = 975, b_outer_max = 1000, b_add = 0, b_minadd = -0x8000, b_maxadd = 0x7fff,
        b_bestinterval = 0, b_bestcount = 1, b_bestadd = 1, b_bestreach = - (2 ^ 31),
        b_zerointerval = 0, b_zerocount = 0\<rparr>"
  have "\<exists>b. bisect_round 1024 ?b far_queue = Some (Inr (Inr (Inr b)), far_queue) \<and>
     b_zerointerval b = 1000 \<and> b_zerocount b = 1 \<and> b_bestcount b = 1"
    by (simp add: bisect_round_def bnd_def run)
      (simp add: bisect_narrow_def addfactor_def i32_def cdiv_def idiv_up_def idiv_down_def prog_defs sdiv_pos far_simps Let_def)
  then obtain b where b: "bisect_round 1024 ?b far_queue = Some (Inr (Inr (Inr b)), far_queue)"
     "b_zerointerval b = 1000" "b_zerocount b = 1" "b_bestcount b = 1" by blast
  then have "loopp (bisect_round 1024) ?b far_queue = Some (Inr (Inr b), far_queue)"
    by (subst loopp.simps) simp
  then show ?thesis
    using b by (simp add: compress_bisect_add_def minmax_point_def wp_simps far_simps far_nonempty far_points wp_ok sdiv_pos)
qed

lemma far_flush:
  "wp (queue_flush 1) (\<lambda>r s. r = 0 \<and> sc_queue_next s = 1024 \<and> length (sc_queue s) = 1024 \<and> sc_last_step_clock s = 1000)
     (\<lambda>_ _. False) far_queue"
proof -
  obtain move where move: "move = make_move 1000 1 0" by blast
  have m: "sm_interval move = 1000" "sm_count move = 1" "sm_add move = 0" by (simp_all add: move make_move_def)
  have c: "compress_bisect_add far_queue = Some (Inr move, far_queue)"
    using far_compress by (simp add: wp_exec move)
  have k: "check_line move far_queue = Some (Inr 0, far_queue)"
    by (simp add: check_line_def m minmax_point_def prog_defs far_simps far_nonempty far_points)
  obtain s where s: "add_move 1000 move far_queue = Some (Inr (), s)" "sc_last_step_clock s = 1000" "sc_queue_next s = 1024"
      "sc_queue_pos s = 0" "length (sc_queue s) = 1024"
    by (simp add: add_move_def m addfactor_def i32_def i64_def cdiv_def sdiv_pos prog_defs far_simps Let_def)
  let ?s = "s\<lparr>sc_queue_pos := 1\<rparr>"
  have "flush_step 1 () far_queue = Some (Inr (Inl ()), ?s)"
    by (simp add: flush_step_def bnd_def gets_def sq_def upd_def ret_def far_simps c k m s)
  moreover have "flush_step 1 () ?s = Some (Inr (Inr 0), ?s)"
    by (simp add: flush_step_def bnd_def gets_def ret_def s)
  ultimately have "loopp (flush_step 1) () far_queue = Some (Inr 0, ?s)"
    by (subst loopp.simps, simp, subst loopp.simps) simp
  then show ?thesis
    using s by (simp add: queue_flush_def wp_simps wp_ok far_simps calc_last_step_print_time_def free_history_def)
qed


end
