(* ===== verification/Steppersync_correct.thy ===== *)
theory Steppersync_correct
  imports Stepcompress
begin

text \<open>
  The heap of move clocks in \<^verbatim>\<open>steppersync\<close> is a priority queue of the times at which the
  micro-controller's move slots become free.
\<close>


section \<open>The heap of move clocks\<close>

definition heap_ok :: "u64 list \<Rightarrow> bool" where
  "heap_ok mc \<longleftrightarrow> (\<forall>i<length mc. 0 < i \<longrightarrow> mc ! ((i - 1) div 2) \<le> mc ! i)"

lemma heap_okD: "heap_ok mc \<Longrightarrow> 0 < i \<Longrightarrow> i < length mc \<Longrightarrow> mc ! ((i - 1) div 2) \<le> mc ! i"
  by (simp add: heap_ok_def)

lemma heap_min:
  assumes "heap_ok mc" and "i < length mc"
  shows "mc ! 0 \<le> mc ! i"
  using assms(2)
proof (induction i rule: less_induct)
  case (less i)
  show ?case
  proof (cases "i = 0")
    case False
    then have "mc ! 0 \<le> mc ! ((i - 1) div 2)" using less by simp
    also have "\<dots> \<le> mc ! i" using heap_okD [OF assms(1)] False less.prems by simp
    finally show ?thesis .
  qed simp
qed

text \<open>Replacing one value keeps the order when it fits between its parent and its children.\<close>

lemma heap_update:
  assumes "heap_ok mc" and "pos < length mc" and "0 < pos \<Longrightarrow> mc ! ((pos - 1) div 2) \<le> x"
    and "\<And>c. c < length mc \<Longrightarrow> c = 2 * pos + 1 \<or> c = 2 * pos + 2 \<Longrightarrow> x \<le> mc ! c"
  shows "heap_ok (mc[pos := x])"
  unfolding heap_ok_def
proof (intro allI impI)
  fix i assume "i < length (mc[pos := x])" and "0 < i"
  then have i: "0 < i" "i < length mc" by auto
  have parent: "(i - 1) div 2 \<noteq> i" using i by linarith
  show "mc[pos := x] ! ((i - 1) div 2) \<le> mc[pos := x] ! i"
  proof (cases "i = pos")
    case True
    then show ?thesis using assms(2,3) i parent by simp
  next
    case False
    show ?thesis
    proof (cases "(i - 1) div 2 = pos")
      case True
      then have "i = 2 * pos + 1 \<or> i = 2 * pos + 2" using i by linarith
      then show ?thesis using True False assms(2,4) i by simp
    next
      case neq: False
      then show ?thesis using False heap_okD [OF assms(1) i] by simp
    qed
  qed
qed

text \<open>The loop: the array is a heap with a stale value in the hole.\<close>

definition sinking :: "u64 \<Rightarrow> u64 list \<Rightarrow> nat \<Rightarrow> u64 list \<Rightarrow> bool" where
  "sinking req mc0 pos mc \<longleftrightarrow> pos < length mc \<and> length mc = length mc0 \<and> heap_ok mc \<and>
     (0 < pos \<longrightarrow> mc ! ((pos - 1) div 2) \<le> req) \<and> mset (mc[pos := req]) = mset (mc0[0 := req])"

lemma sink_child:
  assumes s: "sinking req mc0 pos mc" and c: "c = 2 * pos + 1 \<or> c = 2 * pos + 2" "c < length mc"
    and small: "mc ! c < req" "\<And>d. d < length mc \<Longrightarrow> d = 2 * pos + 1 \<or> d = 2 * pos + 2 \<Longrightarrow> mc ! c \<le> mc ! d"
  shows "sinking req mc0 c (mc[pos := mc ! c])"
proof -
  have pos: "pos < length mc" and heap: "heap_ok mc" using s by (auto simp: sinking_def)
  have cp: "(c - 1) div 2 = pos" "c \<noteq> pos" "0 < c" using c(1) by auto
  have "mc ! ((pos - 1) div 2) \<le> mc ! c" if "0 < pos"
    using heap_okD [OF heap that pos] heap_okD [OF heap cp(3) c(2)] cp(1) by simp
  then have "heap_ok (mc[pos := mc ! c])" by (intro heap_update [OF heap pos] small(2))
  moreover have "mset (mc[pos := mc ! c, c := req]) = mset (mc[pos := req])"
  proof -
    have "mset (mc[pos := mc ! c, c := req]) = add_mset req (mset (mc[pos := mc ! c]) - {#mc ! c#})"
      using c(2) cp(2) by (subst mset_update) simp_all
    also have "\<dots> = add_mset req (mset mc - {#mc ! pos#})" using pos by (subst mset_update) simp_all
    also have "\<dots> = mset (mc[pos := req])" using pos by (simp add: mset_update)
    finally show ?thesis .
  qed
  ultimately show ?thesis using s c cp small(1) by (simp add: sinking_def)
qed

lemma sink_end:
  assumes s: "sinking req mc0 pos mc"
    and fits: "\<And>d. d < length mc \<Longrightarrow> d = 2 * pos + 1 \<or> d = 2 * pos + 2 \<Longrightarrow> req \<le> mc ! d"
  shows "heap_ok (mc[pos := req])"
  using s fits by (intro heap_update) (auto simp: sinking_def)

lemma wp_heap_step:
  assumes "pos < length (ss_move_clocks s)"
    and "c1 = (if 2 * pos + 1 < length (ss_move_clocks s) then ss_move_clocks s ! (2 * pos + 1) else -1)"
    and "c2 = (if 2 * pos + 2 < length (ss_move_clocks s) then ss_move_clocks s ! (2 * pos + 2) else -1)"
  shows "wp (heap_step req pos) Q E s \<longleftrightarrow>
    (if req \<le> c1 \<and> req \<le> c2 then Q (Inr ()) (s\<lparr>ss_move_clocks := (ss_move_clocks s)[pos := req]\<rparr>)
     else if c1 < c2 then Q (Inl (2 * pos + 1)) (s\<lparr>ss_move_clocks := (ss_move_clocks s)[pos := c1]\<rparr>)
     else Q (Inl (2 * pos + 2)) (s\<lparr>ss_move_clocks := (ss_move_clocks s)[pos := c2]\<rparr>))"
  unfolding heap_step_def wp_bnd wp_gets Let_def assms(2,3) [symmetric] using assms(1) by (simp add: wp_simps)

lemma heap_step_ok:
  assumes "sinking req mc0 pos (ss_move_clocks s)" and "s = ss\<lparr>ss_move_clocks := ss_move_clocks s\<rparr>"
  shows "wp (heap_step req pos)
    (\<lambda>r s'. s' = ss\<lparr>ss_move_clocks := ss_move_clocks s'\<rparr> \<and>
       (case r of Inl pos' \<Rightarrow> sinking req mc0 pos' (ss_move_clocks s') \<and> pos < pos'
        | Inr _ \<Rightarrow> heap_ok (ss_move_clocks s') \<and> mset (ss_move_clocks s') = mset (mc0[0 := req]))) E s"
proof -
  let ?mc = "ss_move_clocks s"
  define c1 where "c1 = (if 2 * pos + 1 < length ?mc then ?mc ! (2 * pos + 1) else -1)"
  define c2 where "c2 = (if 2 * pos + 2 < length ?mc then ?mc ! (2 * pos + 2) else -1)"
  have pos: "pos < length ?mc" using assms(1) by (simp add: sinking_def)
  have upd: "s\<lparr>ss_move_clocks := x\<rparr> = ss\<lparr>ss_move_clocks := x\<rparr>" for x
    by (subst assms(2)) simp
  have top: "x \<le> -1" for x :: u64 by (rule word_order.extremum)
  have not_top: "\<not> -1 < x" for x :: u64 using top [of x] by (simp add: not_less)
  have child: "x \<le> ?mc ! d" if "x \<le> c1" "x \<le> c2" "d < length ?mc" "d = 2 * pos + 1 \<or> d = 2 * pos + 2" for x d
    using that by (auto simp: c1_def c2_def)
  note step = wp_heap_step [OF pos c1_def c2_def, of req]
  consider (stop) "req \<le> c1" "req \<le> c2" | (left) "c1 < c2" "c1 < req" | (right) "c2 \<le> c1" "c2 < req"
    by fastforce
  then show ?thesis
  proof cases
    case stop
    have "heap_ok (?mc[pos := req])" by (rule sink_end [OF assms(1) child [OF stop]])
    then show ?thesis using assms(1) stop by (simp add: step upd sinking_def)
  next
    case left
    then have c: "2 * pos + 1 < length ?mc" "c1 = ?mc ! (2 * pos + 1)" using not_top by (auto simp: c1_def split: if_splits)
    have "sinking req mc0 (2 * pos + 1) (?mc[pos := c1])"
      unfolding c(2) by (rule sink_child [OF assms(1) _ c(1)]) (use left c(2) child [of c1] in auto)
    moreover have "\<not> (req \<le> c1 \<and> req \<le> c2)" using left by auto
    ultimately show ?thesis using left by (auto simp: step upd)
  next
    case right
    then have c: "2 * pos + 2 < length ?mc" "c2 = ?mc ! (2 * pos + 2)" using not_top by (auto simp: c2_def split: if_splits)
    have "sinking req mc0 (2 * pos + 2) (?mc[pos := c2])"
      unfolding c(2) by (rule sink_child [OF assms(1) _ c(1)]) (use right c(2) child [of c2] in auto)
    moreover have "\<not> (req \<le> c1 \<and> req \<le> c2)" "\<not> c1 < c2" using right by auto
    ultimately show ?thesis by (auto simp: step upd)
  qed
qed

lemma heap_replace_ok:
  assumes "heap_ok (ss_move_clocks ss)" and "ss_move_clocks ss \<noteq> []"
  shows "wp (heap_replace req)
    (\<lambda>_ s. s = ss\<lparr>ss_move_clocks := ss_move_clocks s\<rparr> \<and> heap_ok (ss_move_clocks s) \<and>
       mset (ss_move_clocks s) = mset ((ss_move_clocks ss)[0 := req])) E ss"
  unfolding heap_replace_def
proof (rule wp_loopp [where I = "\<lambda>pos s. s = ss\<lparr>ss_move_clocks := ss_move_clocks s\<rparr> \<and> sinking req (ss_move_clocks ss) pos (ss_move_clocks s)"
    and m = "\<lambda>pos s. length (ss_move_clocks ss) - pos"])
  show "ss = ss\<lparr>ss_move_clocks := ss_move_clocks ss\<rparr> \<and> sinking req (ss_move_clocks ss) 0 (ss_move_clocks ss)"
    using assms by (simp add: sinking_def)
next
  fix pos s
  assume "s = ss\<lparr>ss_move_clocks := ss_move_clocks s\<rparr> \<and> sinking req (ss_move_clocks ss) pos (ss_move_clocks s)"
  then have I: "s = ss\<lparr>ss_move_clocks := ss_move_clocks s\<rparr>" "sinking req (ss_move_clocks ss) pos (ss_move_clocks s)" by auto
  show "wp (heap_step req pos)
     (\<lambda>r s'. case r of
        Inl pos' \<Rightarrow> (s' = ss\<lparr>ss_move_clocks := ss_move_clocks s'\<rparr> \<and> sinking req (ss_move_clocks ss) pos' (ss_move_clocks s')) \<and>
          length (ss_move_clocks ss) - pos' < length (ss_move_clocks ss) - pos
      | Inr _ \<Rightarrow> s' = ss\<lparr>ss_move_clocks := ss_move_clocks s'\<rparr> \<and> heap_ok (ss_move_clocks s') \<and>
          mset (ss_move_clocks s') = mset ((ss_move_clocks ss)[0 := req])) E s"
    by (rule wp_mono [OF heap_step_ok [OF I(2,1), of E]])
      (use I(2) in \<open>auto simp: sinking_def split: sum.splits\<close>)
qed


text \<open>
  C24.  \<^verbatim>\<open>heap_replace\<close> implements a priority queue: on a heap the first entry is the earliest
  time at which the micro-controller has a free move slot; the loop ends inside the array, takes exactly
  that entry out and puts the new time in, and leaves a heap.
\<close>

theorem heap_replace_refines:
  assumes "heap_ok (ss_move_clocks ss)" and "ss_move_clocks ss \<noteq> []"
  shows "(\<forall>x\<in>set (ss_move_clocks ss). hd (ss_move_clocks ss) \<le> x) \<and>
    wp (heap_replace req)
      (\<lambda>_ s. heap_ok (ss_move_clocks s) \<and> s = ss\<lparr>ss_move_clocks := ss_move_clocks s\<rparr> \<and>
         mset (ss_move_clocks s) = add_mset req (mset (ss_move_clocks ss) - {#hd (ss_move_clocks ss)#}))
      (\<lambda>_ _. False) ss"
proof
  show "\<forall>x\<in>set (ss_move_clocks ss). hd (ss_move_clocks ss) \<le> x"
    using heap_min [OF assms(1)] assms(2) by (auto simp: in_set_conv_nth hd_conv_nth)
  have "mset ((ss_move_clocks ss)[0 := req]) = add_mset req (mset (ss_move_clocks ss) - {#hd (ss_move_clocks ss)#})"
    using assms(2) by (simp add: mset_update hd_conv_nth)
  then show "wp (heap_replace req)
      (\<lambda>_ s. heap_ok (ss_move_clocks s) \<and> s = ss\<lparr>ss_move_clocks := ss_move_clocks s\<rparr> \<and>
         mset (ss_move_clocks s) = add_mset req (mset (ss_move_clocks ss) - {#hd (ss_move_clocks ss)#}))
      (\<lambda>_ _. False) ss"
    by (intro wp_mono [OF heap_replace_ok [OF assms]]) auto
qed

theorem heap_replace_refines_witness:
  "heap_ok [5, 7, 6, 9] \<and>
   wp (heap_replace 8) (\<lambda>_ s. mset (ss_move_clocks s) = {#8, 7, 6, 9#}) (\<lambda>_ _. False)
     \<lparr>ss_sc_list = [], ss_move_clocks = [5, 7, 6, 9], ss_sent = []\<rparr>"
proof -
  have "heap_ok [5, 7, 6, 9]" by code_simp
  then show ?thesis
    using heap_replace_refines [of "\<lparr>ss_sc_list = [], ss_move_clocks = [5, 7, 6, 9], ss_sent = []\<rparr>" 8]
    by (auto elim!: wp_mono)
qed

end
