(* ===== verification/Trapq.thy ===== *)
theory Trapq
  imports Prelude Complex_Main "HOL-Library.Monad_Syntax" "HOL-Library.Sublist"
begin

text \<open>
  The queue of trapezoidal moves, \<^verbatim>\<open>klippy/chelper/trapq.c\<close>.  Doubles are modelled by real
  numbers.  A doubly linked list is a list in its order; the first and the last entry of
  \<^verbatim>\<open>moves\<close> are the two sentinels, and an operation on a list without them has no result.
  A pointer to a move is its position in the list.  Releasing memory has no counterpart.
\<close>

section \<open>Moves\<close>

record coord =
  cx :: real
  cy :: real
  cz :: real

record move =
  mv_print_time :: real
  mv_move_t :: real
  mv_start_v :: real
  mv_half_accel :: real
  mv_start_pos :: coord
  mv_axes_r :: coord

record trapq =
  tq_moves :: "move list"
  tq_history :: "move list"

record pull_move =
  pm_print_time :: real
  pm_move_t :: real
  pm_start_v :: real
  pm_accel :: real
  pm_start_x :: real
  pm_start_y :: real
  pm_start_z :: real
  pm_x_r :: real
  pm_y_r :: real
  pm_z_r :: real

definition trapq_move_alloc :: move where
  "trapq_move_alloc = \<lparr>mv_print_time = 0, mv_move_t = 0, mv_start_v = 0, mv_half_accel = 0,
     mv_start_pos = \<lparr>cx = 0, cy = 0, cz = 0\<rparr>, mv_axes_r = \<lparr>cx = 0, cy = 0, cz = 0\<rparr>\<rparr>"

definition move_get_distance :: "move \<Rightarrow> real \<Rightarrow> real" where
  "move_get_distance m move_time = (mv_start_v m + mv_half_accel m * move_time) * move_time"

definition move_get_coord :: "move \<Rightarrow> real \<Rightarrow> coord" where
  "move_get_coord m move_time =
     (let move_dist = move_get_distance m move_time
      in \<lparr>cx = cx (mv_start_pos m) + cx (mv_axes_r m) * move_dist,
          cy = cy (mv_start_pos m) + cy (mv_axes_r m) * move_dist,
          cz = cz (mv_start_pos m) + cz (mv_axes_r m) * move_dist\<rparr>)"

section \<open>Queue operations\<close>

definition NEVER_TIME :: real where "NEVER_TIME = 99999999999999999 / 10"

definition MAX_NULL_MOVE :: real where "MAX_NULL_MOVE = 1"

abbreviation TQ_HISTORY_EXPIRE :: real where "TQ_HISTORY_EXPIRE \<equiv> 30"

definition trapq_alloc :: trapq where
  "trapq_alloc =
     (let head_sentinel = trapq_move_alloc;
          tail_sentinel = trapq_move_alloc\<lparr>mv_print_time := NEVER_TIME, mv_move_t := NEVER_TIME\<rparr>
      in \<lparr>tq_moves = [head_sentinel, tail_sentinel], tq_history = []\<rparr>)"

definition trapq_check_sentinels :: "trapq \<Rightarrow> trapq option" where
  "trapq_check_sentinels tq =
     (case rev (tq_moves tq) of
        tail_sentinel # m # before \<Rightarrow>
          if mv_print_time tail_sentinel \<noteq> 0 then Some tq
          else if before = [] then
            Some (tq\<lparr>tq_moves := [m, tail_sentinel\<lparr>mv_print_time := NEVER_TIME\<rparr>]\<rparr>)
          else
            Some (tq\<lparr>tq_moves := rev before @ [m, tail_sentinel\<lparr>mv_print_time := mv_print_time m + mv_move_t m,
                       mv_start_pos := move_get_coord m (mv_move_t m)\<rparr>]\<rparr>)
      | _ \<Rightarrow> None)"

definition null_move :: "move \<Rightarrow> move \<Rightarrow> move" where
  "null_move prev m =
     (let start = (if mv_print_time prev = 0 \<and> mv_print_time m > MAX_NULL_MOVE then mv_print_time m - MAX_NULL_MOVE
                   else mv_print_time prev + mv_move_t prev)
      in trapq_move_alloc\<lparr>mv_start_pos := mv_start_pos m, mv_print_time := start, mv_move_t := mv_print_time m - start\<rparr>)"

definition trapq_add_move :: "trapq \<Rightarrow> move \<Rightarrow> trapq option" where
  "trapq_add_move tq m =
     (case rev (tq_moves tq) of
        tail_sentinel # prev # before \<Rightarrow>
          let gap = (if mv_print_time prev + mv_move_t prev < mv_print_time m then [null_move prev m] else [])
          in Some (tq\<lparr>tq_moves := rev before @ [prev] @ gap @ [m, tail_sentinel\<lparr>mv_print_time := 0\<rparr>]\<rparr>)
      | _ \<Rightarrow> None)"

text \<open>One phase of a move; the queue, the print time and the position behind it are the result.\<close>

definition append_phase ::
    "coord \<Rightarrow> real \<Rightarrow> real \<Rightarrow> real \<Rightarrow> trapq \<times> real \<times> coord \<Rightarrow> (trapq \<times> real \<times> coord) option" where
  "append_phase axes_r t start_v half_accel = (\<lambda>(tq, print_time, start_pos).
     if t \<noteq> 0 then
       let m = \<lparr>mv_print_time = print_time, mv_move_t = t, mv_start_v = start_v, mv_half_accel = half_accel,
                mv_start_pos = start_pos, mv_axes_r = axes_r\<rparr>
       in do { tq \<leftarrow> trapq_add_move tq m; Some (tq, print_time + t, move_get_coord m t) }
     else Some (tq, print_time, start_pos))"

definition trapq_append ::
    "trapq \<Rightarrow> real \<Rightarrow> real \<Rightarrow> real \<Rightarrow> real \<Rightarrow> coord \<Rightarrow> coord \<Rightarrow> real \<Rightarrow> real \<Rightarrow> real \<Rightarrow> trapq option" where
  "trapq_append tq print_time accel_t cruise_t decel_t start_pos axes_r start_v cruise_v accel =
     do { r \<leftarrow> append_phase axes_r accel_t start_v (1 / 2 * accel) (tq, print_time, start_pos);
          r \<leftarrow> append_phase axes_r cruise_t cruise_v 0 r;
          r \<leftarrow> append_phase axes_r decel_t cruise_v (- 1 / 2 * accel) r;
          Some (fst r) }"

text \<open>The moves behind the head sentinel, and the history, newest move first.\<close>

fun expire_moves :: "real \<Rightarrow> move list \<Rightarrow> move list \<Rightarrow> (move list \<times> move list) option" where
  "expire_moves print_time [] history = None"
| "expire_moves print_time [tail_sentinel] history = Some ([tail_sentinel\<lparr>mv_print_time := NEVER_TIME\<rparr>], history)"
| "expire_moves print_time (m # m' # ms) history =
     (if mv_print_time m + mv_move_t m > print_time then Some (m # m' # ms, history)
      else expire_moves print_time (m' # ms)
             (if mv_start_v m \<noteq> 0 \<or> mv_half_accel m \<noteq> 0 then m # history else history))"

text \<open>The history, oldest move first; its newest move stays.\<close>

fun expire_history :: "real \<Rightarrow> move list \<Rightarrow> move list" where
  "expire_history expire_time (m # m' # ms) =
     (if mv_print_time m + mv_move_t m > expire_time then m # m' # ms else expire_history expire_time (m' # ms))"
| "expire_history expire_time ms = ms"

definition trapq_finalize_moves :: "trapq \<Rightarrow> real \<Rightarrow> trapq option" where
  "trapq_finalize_moves tq print_time =
     (case tq_moves tq of
        head_sentinel # ms \<Rightarrow>
          do { (ms, history) \<leftarrow> expire_moves print_time ms (tq_history tq);
               Some (case history of
                 [] \<Rightarrow> tq\<lparr>tq_moves := head_sentinel # ms, tq_history := []\<rparr>
               | latest # _ \<Rightarrow>
                   let expire_time = mv_print_time latest + mv_move_t latest - TQ_HISTORY_EXPIRE
                   in tq\<lparr>tq_moves := head_sentinel # ms, tq_history := rev (expire_history expire_time (rev history))\<rparr>) }
      | [] \<Rightarrow> None)"

fun prune_history :: "real \<Rightarrow> move list \<Rightarrow> move list" where
  "prune_history print_time [] = []"
| "prune_history print_time (m # ms) =
     (if mv_print_time m < print_time then
        (if mv_print_time m + mv_move_t m > print_time then m\<lparr>mv_move_t := print_time - mv_print_time m\<rparr> else m) # ms
      else prune_history print_time ms)"

definition trapq_set_position :: "trapq \<Rightarrow> real \<Rightarrow> coord \<Rightarrow> trapq option" where
  "trapq_set_position tq print_time pos =
     do { tq \<leftarrow> trapq_finalize_moves tq NEVER_TIME;
          Some (tq\<lparr>tq_history := trapq_move_alloc\<lparr>mv_print_time := print_time, mv_start_pos := pos\<rparr>
                                  # prune_history print_time (tq_history tq)\<rparr>) }"

definition pull :: "move \<Rightarrow> pull_move" where
  "pull m = \<lparr>pm_print_time = mv_print_time m, pm_move_t = mv_move_t m, pm_start_v = mv_start_v m,
     pm_accel = 2 * mv_half_accel m, pm_start_x = cx (mv_start_pos m), pm_start_y = cy (mv_start_pos m),
     pm_start_z = cz (mv_start_pos m), pm_x_r = cx (mv_axes_r m), pm_y_r = cy (mv_axes_r m), pm_z_r = cz (mv_axes_r m)\<rparr>"

fun pull_loop :: "int \<Rightarrow> real \<Rightarrow> real \<Rightarrow> move list \<Rightarrow> int \<Rightarrow> pull_move list" where
  "pull_loop mx start_time end_time [] res = []"
| "pull_loop mx start_time end_time (m # ms) res =
     (if start_time \<ge> mv_print_time m + mv_move_t m \<or> res \<ge> mx then []
      else if end_time \<le> mv_print_time m then pull_loop mx start_time end_time ms res
      else pull m # pull_loop mx start_time end_time ms (res + 1))"

definition trapq_extract_old :: "trapq \<Rightarrow> int \<Rightarrow> real \<Rightarrow> real \<Rightarrow> pull_move list" where
  "trapq_extract_old tq mx start_time end_time = pull_loop mx start_time end_time (tq_history tq) 0"

section \<open>Well-formed queues\<close>

definition mv_end :: "move \<Rightarrow> real" where
  "mv_end m = mv_print_time m + mv_move_t m"

definition moving :: "move \<Rightarrow> bool" where
  "moving m \<longleftrightarrow> mv_start_v m \<noteq> 0 \<or> mv_half_accel m \<noteq> 0"

definition mv_before :: "move \<Rightarrow> move \<Rightarrow> bool" where
  "mv_before a b \<longleftrightarrow> mv_end a \<le> mv_print_time b"

definition mv_meets :: "move \<Rightarrow> move \<Rightarrow> bool" where
  "mv_meets a b \<longleftrightarrow> mv_end a = mv_print_time b"

definition mv_ok :: "move \<Rightarrow> bool" where
  "mv_ok m \<longleftrightarrow> 0 \<le> mv_print_time m \<and> 0 \<le> mv_move_t m \<and> mv_end m \<le> NEVER_TIME"

text \<open>The moves between the sentinels.\<close>

definition tq_body :: "trapq \<Rightarrow> move list" where
  "tq_body tq = butlast (tl (tq_moves tq))"

definition tail_ok :: "move list \<Rightarrow> move \<Rightarrow> bool" where
  "tail_ok ms tail \<longleftrightarrow> mv_move_t tail = NEVER_TIME \<and>
     mv_print_time tail \<in> {0, if ms = [] then NEVER_TIME else mv_end (last ms)}"

text \<open>
  The queued moves follow each other without a gap, and the moves that print, in the history and
  in the queue, do not overlap.
\<close>

definition timeline_ok :: "move list \<Rightarrow> move list \<Rightarrow> bool" where
  "timeline_ok history ms \<longleftrightarrow>
     successively mv_meets ms \<and> (ms \<noteq> [] \<longrightarrow> 0 < mv_print_time (last ms)) \<and>
     (\<forall>m \<in> set ms \<union> set history. mv_ok m) \<and> sorted_wrt mv_before (rev history @ filter moving ms)"

definition tq_ok :: "trapq \<Rightarrow> bool" where
  "tq_ok tq \<longleftrightarrow> (\<exists>ms tail. tq_moves tq = trapq_move_alloc # ms @ [tail] \<and> tail_ok ms tail \<and> timeline_ok (tq_history tq) ms)"

text \<open>Nothing is queued or recorded beyond time \<open>t\<close>.\<close>

definition tq_until :: "trapq \<Rightarrow> real \<Rightarrow> bool" where
  "tq_until tq t \<longleftrightarrow> (\<forall>m \<in> set (tq_body tq) \<union> set (tq_history tq). mv_end m \<le> t)"

lemma tq_okE:
  assumes "tq_ok tq"
  obtains tail where "tq_moves tq = trapq_move_alloc # tq_body tq @ [tail]" "tail_ok (tq_body tq) tail"
    "timeline_ok (tq_history tq) (tq_body tq)"
  using assms by (auto simp: tq_ok_def tq_body_def)

lemma tq_okI:
  assumes "tq_moves tq = trapq_move_alloc # ms @ [tail]" "tail_ok ms tail" "timeline_ok (tq_history tq) ms"
  shows "tq_ok tq" and "tq_body tq = ms"
  using assms by (auto simp: tq_ok_def tq_body_def)

lemma alloc_end [simp]: "mv_end trapq_move_alloc = 0" "mv_print_time trapq_move_alloc = 0" "mv_move_t trapq_move_alloc = 0" "\<not> moving trapq_move_alloc"
  by (simp_all add: mv_end_def trapq_move_alloc_def moving_def)

lemma null_move_simps [simp]:
  "mv_end (null_move prev m) = mv_print_time m" "\<not> moving (null_move prev m)"
  "mv_start_pos (null_move prev m) = mv_start_pos m"
  by (simp_all add: null_move_def Let_def mv_end_def moving_def trapq_move_alloc_def)

lemma trapq_alloc_ok: "tq_ok trapq_alloc"
  by (rule tq_okI(1) [where ms = "[]"]) (auto simp: trapq_alloc_def tail_ok_def timeline_ok_def Let_def)

lemma check_sentinels_ok:
  assumes "tq_ok tq"
  shows "\<exists>tq'. trapq_check_sentinels tq = Some tq' \<and> tq_ok tq' \<and> tq_body tq' = tq_body tq \<and> tq_history tq' = tq_history tq"
proof -
  obtain tail where t: "tq_moves tq = trapq_move_alloc # tq_body tq @ [tail]" "tail_ok (tq_body tq) tail"
      "timeline_ok (tq_history tq) (tq_body tq)" using assms by (rule tq_okE)
  show ?thesis
  proof (cases "mv_print_time tail = 0")
    case False
    have "trapq_check_sentinels tq = Some tq"
      using False t(1) by (cases "rev (tq_body tq)") (auto simp: trapq_check_sentinels_def)
    with assms show ?thesis by simp
  next
    case True
    show ?thesis
    proof (cases "tq_body tq" rule: rev_cases)
      case Nil
      let ?tq = "tq\<lparr>tq_moves := [trapq_move_alloc, tail\<lparr>mv_print_time := NEVER_TIME\<rparr>]\<rparr>"
      have "trapq_check_sentinels tq = Some ?tq" using True Nil t(1) by (simp add: trapq_check_sentinels_def)
      moreover have "tq_ok ?tq" "tq_body ?tq = []"
        using tq_okI [of ?tq "[]" "tail\<lparr>mv_print_time := NEVER_TIME\<rparr>"] t(2,3) Nil by (simp_all add: tail_ok_def)
      ultimately show ?thesis using Nil by simp
    next
      case (snoc ms m)
      let ?tail = "tail\<lparr>mv_print_time := mv_end m, mv_start_pos := move_get_coord m (mv_move_t m)\<rparr>"
      let ?tq = "tq\<lparr>tq_moves := trapq_move_alloc # (ms @ [m]) @ [?tail]\<rparr>"
      have "trapq_check_sentinels tq = Some ?tq"
        using True snoc t(1) by (simp add: trapq_check_sentinels_def mv_end_def)
      moreover have "tq_ok ?tq" "tq_body ?tq = ms @ [m]"
        using tq_okI [of ?tq "ms @ [m]" ?tail] t(2,3) snoc by (simp_all add: tail_ok_def)
      ultimately show ?thesis using snoc by simp
    qed
  qed
qed

lemma timeline_add:
  assumes "timeline_ok history ms" and "mv_ok m" and "0 < mv_print_time m"
    and "\<forall>x \<in> set ms \<union> set history. mv_end x \<le> mv_print_time m"
    and "gap = (if mv_end (last (trapq_move_alloc # ms)) < mv_print_time m then [null_move (last (trapq_move_alloc # ms)) m] else [])"
  shows "timeline_ok history (ms @ gap @ [m])"
proof -
  let ?p = "last (trapq_move_alloc # ms)"
  have ms: "successively mv_meets ms" "ms \<noteq> [] \<Longrightarrow> 0 < mv_print_time (last ms)"
    "\<And>x. x \<in> set ms \<union> set history \<Longrightarrow> mv_ok x" "sorted_wrt mv_before (rev history @ filter moving ms)"
    using assms(1) by (auto simp: timeline_ok_def)
  have p: "mv_ok ?p" using ms(3) by (auto simp: mv_ok_def NEVER_TIME_def)
  have start: "mv_print_time (null_move ?p m) =
      (if ms = [] \<and> mv_print_time m > MAX_NULL_MOVE then mv_print_time m - MAX_NULL_MOVE else mv_end ?p)"
    using ms(2) by (auto simp: null_move_def Let_def mv_end_def)
  have null: "mv_ok (null_move ?p m)" if "mv_end ?p < mv_print_time m"
    using that p assms(2) start by (auto simp: mv_ok_def null_move_def Let_def MAX_NULL_MOVE_def mv_end_def split: if_splits)
  have "mv_end ?p \<le> mv_print_time m" using assms(3,4) by auto
  then have "successively mv_meets (ms @ gap @ [m])"
    using ms(1) start by (auto simp: assms(5) successively_append_iff mv_meets_def)
  moreover have "sorted_wrt mv_before (rev history @ filter moving (ms @ gap @ [m]))"
    using ms(4) assms(4) by (auto simp: assms(5) sorted_wrt_append mv_before_def)
  ultimately show ?thesis
    using ms(3) null assms(2,3) by (auto simp: timeline_ok_def assms(5))
qed

lemma add_move_keeps_ok:
  assumes "tq_ok tq" and "mv_ok m" and "0 < mv_print_time m" and "tq_until tq (mv_print_time m)"
  shows "\<exists>tq' gap. trapq_add_move tq m = Some tq' \<and> tq_ok tq' \<and> tq_until tq' (mv_end m) \<and>
    tq_history tq' = tq_history tq \<and> tq_body tq' = tq_body tq @ gap @ [m] \<and> length gap \<le> 1 \<and>
    (\<forall>x \<in> set gap. \<not> moving x \<and> mv_start_pos x = mv_start_pos m) \<and>
    (tq_body tq \<noteq> [] \<and> mv_end (last (tq_body tq)) = mv_print_time m \<longrightarrow> gap = [])"
proof -
  obtain tail where t: "tq_moves tq = trapq_move_alloc # tq_body tq @ [tail]" "tail_ok (tq_body tq) tail"
      "timeline_ok (tq_history tq) (tq_body tq)" using assms(1) by (rule tq_okE)
  let ?p = "last (trapq_move_alloc # tq_body tq)"
  define gap where "gap = (if mv_end ?p < mv_print_time m then [null_move ?p m] else [])"
  let ?tq = "tq\<lparr>tq_moves := trapq_move_alloc # (tq_body tq @ gap @ [m]) @ [tail\<lparr>mv_print_time := 0\<rparr>]\<rparr>"
  have "trapq_add_move tq m = Some ?tq"
    using t(1) by (cases "tq_body tq" rule: rev_cases) (simp_all add: trapq_add_move_def gap_def mv_end_def)
  moreover have "timeline_ok (tq_history tq) (tq_body tq @ gap @ [m])"
    using assms(4) by (intro timeline_add [OF t(3) assms(2,3)]) (auto simp: tq_until_def gap_def)
  then have ok: "tq_ok ?tq" "tq_body ?tq = tq_body tq @ gap @ [m]"
    using tq_okI [of ?tq "tq_body tq @ gap @ [m]" "tail\<lparr>mv_print_time := 0\<rparr>"] t(2) by (simp_all add: tail_ok_def)
  moreover have "mv_print_time m \<le> mv_end m" using assms(2) by (simp add: mv_ok_def mv_end_def)
  then have "tq_until ?tq (mv_end m)"
    using assms(4) unfolding tq_until_def ok(2) by (auto simp: gap_def intro: order_trans [of _ "mv_print_time m"])
  ultimately show ?thesis by (intro exI [of _ ?tq] exI [of _ gap]) (auto simp: gap_def)
qed


lemma expire_moves_ok:
  assumes "timeline_ok history ms" and "mv_move_t tail = NEVER_TIME" and "ms \<noteq> [] \<Longrightarrow> tail_ok ms tail"
  shows "\<exists>ms' history' tail'. expire_moves t (ms @ [tail]) history = Some (ms' @ [tail'], history') \<and>
    tail_ok ms' tail' \<and> timeline_ok history' ms' \<and> suffix ms' ms \<and>
    set history' \<subseteq> set history \<union> set ms \<and> (ms' \<noteq> [] \<longrightarrow> t < mv_end (hd ms'))"
  using assms
proof (induction ms arbitrary: history)
  case Nil
  then show ?case
    by (intro exI [of _ "[]"] exI [of _ history] exI [of _ "tail\<lparr>mv_print_time := NEVER_TIME\<rparr>"])
       (simp add: tail_ok_def)
next
  case (Cons m ms)
  obtain x xs where x: "ms @ [tail] = x # xs" by (cases "ms @ [tail]") auto
  show ?case
  proof (cases "mv_end m > t")
    case True
    then have "expire_moves t ((m # ms) @ [tail]) history = Some ((m # ms) @ [tail], history)"
      using x by (simp add: mv_end_def)
    with True Cons.prems show ?thesis by (intro exI [of _ "m # ms"] exI [of _ history] exI [of _ tail]) auto
  next
    case False
    let ?h = "if moving m then m # history else history"
    have step: "expire_moves t ((m # ms) @ [tail]) history = expire_moves t (ms @ [tail]) ?h"
      using False x by (simp add: mv_end_def moving_def)
    have "timeline_ok ?h ms"
      using Cons.prems(1) by (auto simp: timeline_ok_def successively_Cons split: if_splits)
    moreover have "tail_ok ms tail" if "ms \<noteq> []"
      using Cons.prems(3) that by (simp add: tail_ok_def)
    ultimately obtain ms' history' tail' where "expire_moves t (ms @ [tail]) ?h = Some (ms' @ [tail'], history')"
      "tail_ok ms' tail'" "timeline_ok history' ms'" "suffix ms' ms" "set history' \<subseteq> set ?h \<union> set ms"
      "ms' \<noteq> [] \<longrightarrow> t < mv_end (hd ms')"
      using Cons.IH [of ?h] Cons.prems(2) by blast
    then show ?thesis unfolding step
      by (intro exI [of _ ms'] exI [of _ history'] exI [of _ tail']) (auto simp: suffix_ConsI split: if_splits)
  qed
qed

lemma expire_history_suffix: "suffix (expire_history t h) h"
  by (induction t h rule: expire_history.induct) (auto simp: suffix_ConsI)

lemma timeline_shrink:
  assumes "timeline_ok h ms" and "prefix h' h"
  shows "timeline_ok h' ms"
  using assms by (auto simp: timeline_ok_def prefix_def sorted_wrt_append)

lemma finalize_keeps_ok:
  assumes "tq_ok tq"
  shows "\<exists>tq'. trapq_finalize_moves tq t = Some tq' \<and> tq_ok tq' \<and> suffix (tq_body tq') (tq_body tq) \<and>
    set (tq_history tq') \<subseteq> set (tq_history tq) \<union> set (tq_body tq) \<and> (\<forall>m ms. tq_body tq' = m # ms \<longrightarrow> t < mv_end m)"
proof -
  obtain tail where q: "tq_moves tq = trapq_move_alloc # tq_body tq @ [tail]" "tail_ok (tq_body tq) tail"
      "timeline_ok (tq_history tq) (tq_body tq)" using assms by (rule tq_okE)
  obtain ms' h tail' where e: "expire_moves t (tq_body tq @ [tail]) (tq_history tq) = Some (ms' @ [tail'], h)"
      "tail_ok ms' tail'" "timeline_ok h ms'" "suffix ms' (tq_body tq)"
      "set h \<subseteq> set (tq_history tq) \<union> set (tq_body tq)" "ms' \<noteq> [] \<longrightarrow> t < mv_end (hd ms')"
    using expire_moves_ok [OF q(3), of tail t] q(2) by (auto simp: tail_ok_def)
  define h' where "h' = (case h of [] \<Rightarrow> [] | latest # _ \<Rightarrow>
      rev (expire_history (mv_print_time latest + mv_move_t latest - TQ_HISTORY_EXPIRE) (rev h)))"
  have sub: "prefix h' h"
    using expire_history_suffix [of _ "rev h"] by (auto simp: h'_def suffix_to_prefix split: list.splits)
  let ?tq = "tq\<lparr>tq_moves := trapq_move_alloc # ms' @ [tail'], tq_history := h'\<rparr>"
  have "trapq_finalize_moves tq t = Some ?tq"
    using e(1) q(1) by (auto simp: trapq_finalize_moves_def h'_def Let_def split: list.splits)
  moreover have ok: "tq_ok ?tq" "tq_body ?tq = ms'"
    using tq_okI [of ?tq ms' tail'] e(2) timeline_shrink [OF e(3) sub] by simp_all
  moreover have "set h' \<subseteq> set h" using sub by (rule set_mono_prefix)
  ultimately show ?thesis using e(4-6) by auto
qed

lemma prune_history_ok:
  assumes "sorted_wrt mv_before (rev h)" and "\<forall>m \<in> set h. mv_ok m" and "t \<le> NEVER_TIME"
  shows "(\<forall>m \<in> set (prune_history t h). mv_ok m \<and> mv_end m \<le> t) \<and> sorted_wrt mv_before (rev (prune_history t h))"
  using assms
proof (induction h)
  case (Cons m h)
  have old: "mv_end x \<le> mv_print_time m" if "x \<in> set h" for x
    using that Cons.prems(1) by (auto simp: sorted_wrt_append mv_before_def)
  show ?case
  proof (cases "mv_print_time m < t")
    case True
    have "mv_end x \<le> t" if "x \<in> set h" for x using old [OF that] True by simp
    with True old Cons.prems show ?thesis
      by (auto simp: sorted_wrt_append mv_before_def mv_ok_def mv_end_def)
  next
    case False
    with Cons show ?thesis by (simp add: sorted_wrt_append)
  qed
qed simp

lemma set_position_keeps_ok:
  assumes "tq_ok tq" and "0 \<le> t" and "t \<le> NEVER_TIME"
  shows "\<exists>tq'. trapq_set_position tq t pos = Some tq' \<and> tq_ok tq' \<and> tq_body tq' = [] \<and> tq_until tq' t"
proof -
  obtain tq1 where f: "trapq_finalize_moves tq NEVER_TIME = Some tq1" "tq_ok tq1" "suffix (tq_body tq1) (tq_body tq)"
      "\<forall>m ms. tq_body tq1 = m # ms \<longrightarrow> NEVER_TIME < mv_end m"
    using finalize_keeps_ok [OF assms(1)] by blast
  obtain tail where q: "tq_moves tq1 = trapq_move_alloc # tq_body tq1 @ [tail]" "tail_ok (tq_body tq1) tail"
      "timeline_ok (tq_history tq1) (tq_body tq1)" using f(2) by (rule tq_okE)
  have empty: "tq_body tq1 = []"
    using q(3) f(4) by (cases "tq_body tq1") (auto simp: timeline_ok_def mv_ok_def)
  let ?mark = "trapq_move_alloc\<lparr>mv_print_time := t, mv_start_pos := pos\<rparr>"
  let ?h = "?mark # prune_history t (tq_history tq1)"
  let ?tq = "tq1\<lparr>tq_history := ?h\<rparr>"
  have mark: "mv_print_time ?mark = t" "mv_move_t ?mark = 0" "mv_end ?mark = t" by (simp_all add: trapq_move_alloc_def mv_end_def)
  have p: "(\<forall>m \<in> set (prune_history t (tq_history tq1)). mv_ok m \<and> mv_end m \<le> t) \<and>
      sorted_wrt mv_before (rev (prune_history t (tq_history tq1)))"
    using q(3) empty assms(3) by (intro prune_history_ok) (auto simp: timeline_ok_def)
  then have "timeline_ok ?h []"
    using assms(2,3) mark by (auto simp: timeline_ok_def sorted_wrt_append mv_before_def mv_ok_def)
  then have "tq_ok ?tq" "tq_body ?tq = []"
    using tq_okI [of ?tq "[]" tail] q(1,2) empty by simp_all
  moreover have "tq_until ?tq t" using p mark \<open>tq_body ?tq = []\<close> by (auto simp: tq_until_def)
  ultimately show ?thesis using f(1) by (simp add: trapq_set_position_def)
qed


section \<open>Appending a move\<close>

text \<open>
  \<open>drives s ms s'\<close>: the moves lead from time, position and speed \<open>s\<close> to \<open>s'\<close>, each one starting
  where and when and as fast as the one before it ends.
\<close>

fun drives :: "real \<times> coord \<times> real \<Rightarrow> move list \<Rightarrow> real \<times> coord \<times> real \<Rightarrow> bool" where
  "drives s [] s' \<longleftrightarrow> s = s'"
| "drives (t, pos, v) (m # ms) s' \<longleftrightarrow> mv_print_time m = t \<and> mv_start_pos m = pos \<and> mv_start_v m = v \<and>
     drives (mv_end m, move_get_coord m (mv_move_t m), v + 2 * mv_half_accel m * mv_move_t m) ms s'"

definition coord_at :: "coord \<Rightarrow> coord \<Rightarrow> real \<Rightarrow> coord" where
  "coord_at pos axes d = \<lparr>cx = cx pos + cx axes * d, cy = cy pos + cy axes * d, cz = cz pos + cz axes * d\<rparr>"

lemma coord_at_simps [simp]: "coord_at pos axes 0 = pos" "coord_at (coord_at pos axes d) axes d' = coord_at pos axes (d + d')"
  by (simp_all add: coord_at_def algebra_simps)

lemma move_get_coord_at: "move_get_coord m t = coord_at (mv_start_pos m) (mv_axes_r m) (move_get_distance m t)"
  by (simp add: move_get_coord_def coord_at_def Let_def)

lemma drives_append: "drives s ms s' \<Longrightarrow> drives s' ms' s'' \<Longrightarrow> drives s (ms @ ms') s''"
  by (induction s ms s' rule: drives.induct) auto

text \<open>
  \<open>extends axes a tq s tq' s'\<close>: the queue \<open>tq'\<close> is \<open>tq\<close> with moves appended that lead from \<open>s\<close> to \<open>s'\<close>
  along \<open>axes\<close> with an acceleration of at most \<open>a\<close>; at most one stationary move fills the time
  before them.
\<close>

definition extends :: "coord \<Rightarrow> real \<Rightarrow> trapq \<Rightarrow> real \<times> coord \<times> real \<Rightarrow> trapq \<Rightarrow> real \<times> coord \<times> real \<Rightarrow> bool" where
  "extends axes a tq s tq' s' \<longleftrightarrow> tq_ok tq' \<and> tq_until tq' (fst s') \<and> tq_history tq' = tq_history tq \<and>
     (\<exists>gap part. tq_body tq' = tq_body tq @ gap @ part \<and> length gap \<le> 1 \<and> (\<forall>m \<in> set gap. \<not> moving m) \<and>
        (part = [] \<or> tq_body tq \<noteq> [] \<and> mv_end (last (tq_body tq)) = fst s \<longrightarrow> gap = []) \<and>
        (part \<noteq> [] \<longrightarrow> mv_end (last part) = fst s') \<and> drives s part s' \<and>
        (\<forall>m \<in> set part. mv_axes_r m = axes \<and> \<bar>2 * mv_half_accel m\<bar> \<le> a))"

lemma extends_trans:
  assumes "extends axes a tq1 s1 tq2 s2" and "extends axes a tq2 s2 tq3 s3"
  shows "extends axes a tq1 s1 tq3 s3"
proof -
  obtain g1 p1 where 1: "tq_body tq2 = tq_body tq1 @ g1 @ p1" "length g1 \<le> 1" "\<forall>m \<in> set g1. \<not> moving m"
      "p1 = [] \<or> tq_body tq1 \<noteq> [] \<and> mv_end (last (tq_body tq1)) = fst s1 \<longrightarrow> g1 = []"
      "p1 \<noteq> [] \<longrightarrow> mv_end (last p1) = fst s2" "drives s1 p1 s2"
      "\<forall>m \<in> set p1. mv_axes_r m = axes \<and> \<bar>2 * mv_half_accel m\<bar> \<le> a"
    using assms(1) unfolding extends_def by blast
  obtain g2 p2 where 2: "tq_body tq3 = tq_body tq2 @ g2 @ p2" "length g2 \<le> 1" "\<forall>m \<in> set g2. \<not> moving m"
      "p2 = [] \<or> tq_body tq2 \<noteq> [] \<and> mv_end (last (tq_body tq2)) = fst s2 \<longrightarrow> g2 = []"
      "p2 \<noteq> [] \<longrightarrow> mv_end (last p2) = fst s3" "drives s2 p2 s3"
      "\<forall>m \<in> set p2. mv_axes_r m = axes \<and> \<bar>2 * mv_half_accel m\<bar> \<le> a"
    using assms(2) unfolding extends_def by blast
  have drives: "drives s1 (p1 @ p2) s3" using 1(6) 2(6) by (rule drives_append)
  have rest: "tq_ok tq3" "tq_until tq3 (fst s3)" "tq_history tq3 = tq_history tq1"
    using assms by (simp_all add: extends_def)
  show ?thesis
  proof (cases "p1 = []")
    case True
    with 1(4,6) have "g1 = []" "s2 = s1" by simp_all
    with True 1(1) have "tq_body tq2 = tq_body tq1" "s2 = s1" by simp_all
    with 2 rest show ?thesis unfolding extends_def by metis
  next
    case False
    with 1(1,5) 2(4) have g2: "g2 = []" by simp
    have last: "p1 @ p2 \<noteq> [] \<longrightarrow> mv_end (last (p1 @ p2)) = fst s3"
      using False 1(5) 2(5,6) by (cases "p2 = []") auto
    show ?thesis unfolding extends_def using rest drives last 1(2,3,4,7) 2(7) False
      by (intro conjI exI [of _ g1] exI [of _ "p1 @ p2"]) (auto simp: g2 1(1) 2(1))
  qed
qed

lemma append_phase_ok:
  assumes "tq_ok tq" and "tq_until tq p" and "0 < p" and "0 \<le> t" and "p + t \<le> NEVER_TIME" and "\<bar>2 * ha\<bar> \<le> a"
  shows "\<exists>tq'. append_phase axes t v ha (tq, p, pos) = Some (tq', p + t, coord_at pos axes ((v + ha * t) * t)) \<and>
    extends axes a tq (p, pos, v) tq' (p + t, coord_at pos axes ((v + ha * t) * t), v + 2 * ha * t)"
proof (cases "t = 0")
  case True
  with assms show ?thesis by (auto simp: append_phase_def extends_def)
next
  case False
  let ?m = "\<lparr>mv_print_time = p, mv_move_t = t, mv_start_v = v, mv_half_accel = ha, mv_start_pos = pos, mv_axes_r = axes\<rparr>"
  have m: "mv_ok ?m" "mv_end ?m = p + t" using assms by (simp_all add: mv_ok_def mv_end_def)
  obtain tq' gap where add: "trapq_add_move tq ?m = Some tq'" "tq_ok tq'" "tq_until tq' (p + t)"
      "tq_history tq' = tq_history tq" "tq_body tq' = tq_body tq @ gap @ [?m]" "length gap \<le> 1"
      "\<forall>x \<in> set gap. \<not> moving x" "tq_body tq \<noteq> [] \<and> mv_end (last (tq_body tq)) = p \<longrightarrow> gap = []"
    using add_move_keeps_ok [OF assms(1) m(1)] assms(2,3) m(2) by auto
  have "extends axes a tq (p, pos, v) tq' (p + t, coord_at pos axes ((v + ha * t) * t), v + 2 * ha * t)"
    unfolding extends_def using add(2-) m(2) assms(6)
    by (intro conjI exI [of _ gap] exI [of _ "[?m]"]) (auto simp: move_get_coord_at move_get_distance_def)
  with add(1) False show ?thesis
    by (simp add: append_phase_def Let_def move_get_coord_at move_get_distance_def)
qed

lemma extends_ok: "extends axes a tq s tq' s' \<Longrightarrow> tq_ok tq' \<and> tq_until tq' (fst s')"
  by (simp add: extends_def)

lemma append_phases:
  fixes print_time accel_t cruise_t decel_t accel start_v cruise_v :: real
  defines "d1 \<equiv> (start_v + 1 / 2 * accel * accel_t) * accel_t" and "d2 \<equiv> cruise_v * cruise_t"
    and "d3 \<equiv> (cruise_v + - 1 / 2 * accel * decel_t) * decel_t"
    and "t1 \<equiv> print_time + accel_t" and "t2 \<equiv> print_time + accel_t + cruise_t"
  assumes "tq_ok tq" and "tq_until tq print_time" and "0 < print_time" and "0 \<le> accel_t" and "0 \<le> cruise_t" and "0 \<le> decel_t"
    and "print_time + accel_t + cruise_t + decel_t \<le> NEVER_TIME"
  shows "\<exists>tq1 tq2 tq3.
    trapq_append tq print_time accel_t cruise_t decel_t start_pos axes_r start_v cruise_v accel = Some tq3 \<and>
    extends axes_r (abs accel) tq (print_time, start_pos, start_v) tq1
      (t1, coord_at start_pos axes_r d1, start_v + accel * accel_t) \<and>
    extends axes_r (abs accel) tq1 (t1, coord_at start_pos axes_r d1, cruise_v) tq2
      (t2, coord_at start_pos axes_r (d1 + d2), cruise_v) \<and>
    extends axes_r (abs accel) tq2 (t2, coord_at start_pos axes_r (d1 + d2), cruise_v) tq3
      (t2 + decel_t, coord_at start_pos axes_r (d1 + d2 + d3), cruise_v - accel * decel_t)"
proof -
  obtain tq1 where 1: "append_phase axes_r accel_t start_v (1 / 2 * accel) (tq, print_time, start_pos) =
        Some (tq1, t1, coord_at start_pos axes_r d1)"
      "extends axes_r (abs accel) tq (print_time, start_pos, start_v) tq1
        (t1, coord_at start_pos axes_r d1, start_v + accel * accel_t)"
    using append_phase_ok [of tq print_time accel_t "1 / 2 * accel" "\<bar>accel\<bar>" axes_r start_v start_pos] assms by auto
  obtain tq2 where 2: "append_phase axes_r cruise_t cruise_v 0 (tq1, t1, coord_at start_pos axes_r d1) =
        Some (tq2, t2, coord_at start_pos axes_r (d1 + d2))"
      "extends axes_r (abs accel) tq1 (t1, coord_at start_pos axes_r d1, cruise_v) tq2
        (t2, coord_at start_pos axes_r (d1 + d2), cruise_v)"
    using append_phase_ok [of tq1 t1 cruise_t 0 "\<bar>accel\<bar>" axes_r cruise_v "coord_at start_pos axes_r d1"]
      extends_ok [OF 1(2)] assms by auto
  obtain tq3 where 3: "append_phase axes_r decel_t cruise_v (- 1 / 2 * accel) (tq2, t2, coord_at start_pos axes_r (d1 + d2)) =
        Some (tq3, t2 + decel_t, coord_at start_pos axes_r (d1 + d2 + d3))"
      "extends axes_r (abs accel) tq2 (t2, coord_at start_pos axes_r (d1 + d2), cruise_v) tq3
        (t2 + decel_t, coord_at start_pos axes_r (d1 + d2 + d3), cruise_v - accel * decel_t)"
    using append_phase_ok [of tq2 t2 decel_t "- 1 / 2 * accel" "\<bar>accel\<bar>" axes_r cruise_v "coord_at start_pos axes_r (d1 + d2)"]
      extends_ok [OF 2(2)] assms by auto
  show ?thesis
    using 1 2 3 by (intro exI [of _ tq1] exI [of _ tq2] exI [of _ tq3]) (simp add: trapq_append_def)
qed

lemma append_keeps_ok:
  assumes "tq_ok tq" and "tq_until tq print_time" and "0 < print_time" and "0 \<le> accel_t" and "0 \<le> cruise_t" and "0 \<le> decel_t"
    and "print_time + accel_t + cruise_t + decel_t \<le> NEVER_TIME"
  shows "\<exists>tq'. trapq_append tq print_time accel_t cruise_t decel_t start_pos axes_r start_v cruise_v accel = Some tq' \<and> tq_ok tq'"
  using append_phases [OF assms] extends_ok by blast

section \<open>Properties\<close>

text \<open>The queues that the operations build, from the allocation of a queue on.\<close>

inductive tq_reach :: "trapq \<Rightarrow> bool" where
  reach_alloc: "tq_reach trapq_alloc"
| reach_check: "tq_reach tq \<Longrightarrow> trapq_check_sentinels tq = Some tq' \<Longrightarrow> tq_reach tq'"
| reach_finalize: "tq_reach tq \<Longrightarrow> trapq_finalize_moves tq t = Some tq' \<Longrightarrow> tq_reach tq'"
| reach_position: "tq_reach tq \<Longrightarrow> 0 \<le> t \<Longrightarrow> t \<le> NEVER_TIME \<Longrightarrow> trapq_set_position tq t pos = Some tq' \<Longrightarrow> tq_reach tq'"
| reach_append: "tq_reach tq \<Longrightarrow> tq_until tq t \<Longrightarrow> 0 < t \<Longrightarrow> 0 \<le> ta \<Longrightarrow> 0 \<le> tc \<Longrightarrow> 0 \<le> td \<Longrightarrow> t + ta + tc + td \<le> NEVER_TIME \<Longrightarrow>
    trapq_append tq t ta tc td pos axes v cv a = Some tq' \<Longrightarrow> tq_reach tq'"



text \<open>
  C25.  An appended move is a continuous motion: its acceleration, cruising and deceleration phases
  lead from the given time, position and speed to the end of the move, each phase starting at the
  time, the position and the speed at which the one before it ends; they stay on the given axes and
  within the given acceleration.  The moves before it are kept, and at most one stationary move
  fills the time up to the start.
\<close>

theorem trapq_append_continuous:
  assumes "tq_ok tq" and "tq_until tq print_time" and "0 < print_time" and "0 \<le> accel_t" and "0 \<le> cruise_t" and "0 \<le> decel_t"
    and "print_time + accel_t + cruise_t + decel_t \<le> NEVER_TIME" and "cruise_v = start_v + accel * accel_t"
  shows "\<exists>tq' gap phases. trapq_append tq print_time accel_t cruise_t decel_t start_pos axes_r start_v cruise_v accel = Some tq' \<and>
    tq_body tq' = tq_body tq @ gap @ phases \<and> length gap \<le> 1 \<and> (\<forall>m \<in> set gap. \<not> moving m) \<and>
    drives (print_time, start_pos, start_v) phases
      (print_time + accel_t + cruise_t + decel_t,
       coord_at start_pos axes_r ((start_v + cruise_v) / 2 * accel_t + cruise_v * cruise_t + (cruise_v - accel * decel_t / 2) * decel_t),
       cruise_v - accel * decel_t) \<and>
    (\<forall>m \<in> set phases. mv_axes_r m = axes_r \<and> \<bar>2 * mv_half_accel m\<bar> \<le> \<bar>accel\<bar>)"
proof -
  let ?d = "(start_v + 1 / 2 * accel * accel_t) * accel_t + cruise_v * cruise_t + (cruise_v + - 1 / 2 * accel * decel_t) * decel_t"
  let ?d1 = "(start_v + 1 / 2 * accel * accel_t) * accel_t" and ?t1 = "print_time + accel_t" and ?t2 = "print_time + accel_t + cruise_t"
  obtain tq1 tq2 tq' where append: "trapq_append tq print_time accel_t cruise_t decel_t start_pos axes_r start_v cruise_v accel = Some tq'"
    and 1: "extends axes_r (abs accel) tq (print_time, start_pos, start_v) tq1 (?t1, coord_at start_pos axes_r ?d1, cruise_v)"
    and 2: "extends axes_r (abs accel) tq1 (?t1, coord_at start_pos axes_r ?d1, cruise_v) tq2
      (?t2, coord_at start_pos axes_r (?d1 + cruise_v * cruise_t), cruise_v)"
    and 3: "extends axes_r (abs accel) tq2 (?t2, coord_at start_pos axes_r (?d1 + cruise_v * cruise_t), cruise_v) tq'
      (?t2 + decel_t, coord_at start_pos axes_r ?d, cruise_v - accel * decel_t)"
    using append_phases [OF assms(1-7), where start_pos = start_pos and axes_r = axes_r and start_v = start_v
        and cruise_v = cruise_v and accel = accel] unfolding assms(8) [symmetric] by blast
  have d: "?d = (start_v + cruise_v) / 2 * accel_t + cruise_v * cruise_t + (cruise_v - accel * decel_t / 2) * decel_t"
    unfolding assms(8) by (simp add: field_simps)
  obtain gap phases where "tq_body tq' = tq_body tq @ gap @ phases" "length gap \<le> 1" "\<forall>m \<in> set gap. \<not> moving m"
      "drives (print_time, start_pos, start_v) phases (?t2 + decel_t, coord_at start_pos axes_r ?d, cruise_v - accel * decel_t)"
      "\<forall>m \<in> set phases. mv_axes_r m = axes_r \<and> \<bar>2 * mv_half_accel m\<bar> \<le> \<bar>accel\<bar>"
    using extends_trans [OF extends_trans [OF 1 2] 3] unfolding extends_def by blast
  with append show ?thesis unfolding d by blast
qed

theorem trapq_append_continuous_witness:
  "\<exists>tq' gap phases. trapq_append trapq_alloc 2 1 1 1 \<lparr>cx = 0, cy = 0, cz = 0\<rparr> \<lparr>cx = 1, cy = 0, cz = 0\<rparr> 0 10 10 = Some tq' \<and>
     tq_body tq' = gap @ phases \<and> drives (2, \<lparr>cx = 0, cy = 0, cz = 0\<rparr>, 0) phases (5, \<lparr>cx = 20, cy = 0, cz = 0\<rparr>, 0)"
proof -
  have "tq_until trapq_alloc 2" "tq_body trapq_alloc = []"
    by (simp_all add: tq_until_def tq_body_def trapq_alloc_def Let_def)
  then show ?thesis
    using trapq_append_continuous [OF trapq_alloc_ok, of 2 1 1 1 10 0 10 "\<lparr>cx = 0, cy = 0, cz = 0\<rparr>" "\<lparr>cx = 1, cy = 0, cz = 0\<rparr>"]
    by (auto simp: NEVER_TIME_def coord_at_def)
qed

end
