(* ===== verification/Kinematics.thy ===== *)
theory Kinematics
  imports Trapq
begin

text \<open>
  The kinematics of the host, \<^verbatim>\<open>klippy/chelper/kin_*.c\<close>: from a move and a time in it to
  the position of one stepper.  This theory holds the stepper's part of
  \<^verbatim>\<open>itersolve.h\<close> and the cartesian, CoreXY, CoreXZ, delta, deltesian, polar, winch and rotary
  delta kinematics.

  A callback is a function of the commanded position, the only field of the stepper any of them
  reads, of the move and of the time; the parameters in the structure around the stepper are bound
  in it.  A pointer to a move in its list is the move with the moves before it, nearest first, and
  the moves behind it.  The result is \<open>None\<close> where the C code computes a value that is not a
  number: the square root of a negative number or a division by zero.
\<close>

section \<open>Steppers\<close>

type_synonym mref = "move list \<times> move \<times> move list"

type_synonym sk_calc_callback = "real \<Rightarrow> mref \<Rightarrow> real \<Rightarrow> real option"

abbreviation AF_X :: u32 where "AF_X \<equiv> 1"
abbreviation AF_Y :: u32 where "AF_Y \<equiv> 2"
abbreviation AF_Z :: u32 where "AF_Z \<equiv> 4"

record stepper_kinematics =
  sk_step_dist :: real
  sk_commanded_pos :: real
  sk_last_flush_time :: real
  sk_last_move_time :: real
  sk_active_flags :: u32
  sk_gen_steps_pre_active :: real
  sk_gen_steps_post_active :: real
  sk_calc_position_cb :: "sk_calc_callback option"
  sk_post_cb :: "(real \<Rightarrow> real) option"

text \<open>A stepper as \<^verbatim>\<open>memset\<close> leaves it.\<close>

definition sk_zero :: stepper_kinematics where
  "sk_zero = \<lparr>sk_step_dist = 0, sk_commanded_pos = 0, sk_last_flush_time = 0, sk_last_move_time = 0,
     sk_active_flags = 0, sk_gen_steps_pre_active = 0, sk_gen_steps_post_active = 0,
     sk_calc_position_cb = None, sk_post_cb = None\<rparr>"

definition ref_coord :: "mref \<Rightarrow> real \<Rightarrow> coord" where
  "ref_coord r move_time = move_get_coord (fst (snd r)) move_time"

definition c_sqrt :: "real \<Rightarrow> real option" where
  "c_sqrt x = (if x < 0 then None else Some (sqrt x))"

definition atan2 :: "real \<Rightarrow> real \<Rightarrow> real" where
  "atan2 y x = Arg (Complex x y)"

section \<open>Cartesian\<close>

definition cart_stepper_x_calc_position :: sk_calc_callback where
  "cart_stepper_x_calc_position pos m move_time = Some (cx (ref_coord m move_time))"

definition cart_stepper_y_calc_position :: sk_calc_callback where
  "cart_stepper_y_calc_position pos m move_time = Some (cy (ref_coord m move_time))"

definition cart_stepper_z_calc_position :: sk_calc_callback where
  "cart_stepper_z_calc_position pos m move_time = Some (cz (ref_coord m move_time))"

definition cartesian_stepper_alloc :: "char \<Rightarrow> stepper_kinematics" where
  "cartesian_stepper_alloc axis =
     (if axis = CHR ''x'' then
        sk_zero\<lparr>sk_calc_position_cb := Some cart_stepper_x_calc_position, sk_active_flags := AF_X\<rparr>
      else if axis = CHR ''y'' then
        sk_zero\<lparr>sk_calc_position_cb := Some cart_stepper_y_calc_position, sk_active_flags := AF_Y\<rparr>
      else if axis = CHR ''z'' then
        sk_zero\<lparr>sk_calc_position_cb := Some cart_stepper_z_calc_position, sk_active_flags := AF_Z\<rparr>
      else sk_zero)"

definition cart_reverse_stepper_x_calc_position :: sk_calc_callback where
  "cart_reverse_stepper_x_calc_position pos m move_time = Some (- cx (ref_coord m move_time))"

definition cart_reverse_stepper_y_calc_position :: sk_calc_callback where
  "cart_reverse_stepper_y_calc_position pos m move_time = Some (- cy (ref_coord m move_time))"

definition cart_reverse_stepper_z_calc_position :: sk_calc_callback where
  "cart_reverse_stepper_z_calc_position pos m move_time = Some (- cz (ref_coord m move_time))"

definition cartesian_reverse_stepper_alloc :: "char \<Rightarrow> stepper_kinematics" where
  "cartesian_reverse_stepper_alloc axis =
     (if axis = CHR ''x'' then
        sk_zero\<lparr>sk_calc_position_cb := Some cart_reverse_stepper_x_calc_position, sk_active_flags := AF_X\<rparr>
      else if axis = CHR ''y'' then
        sk_zero\<lparr>sk_calc_position_cb := Some cart_reverse_stepper_y_calc_position, sk_active_flags := AF_Y\<rparr>
      else if axis = CHR ''z'' then
        sk_zero\<lparr>sk_calc_position_cb := Some cart_reverse_stepper_z_calc_position, sk_active_flags := AF_Z\<rparr>
      else sk_zero)"

section \<open>CoreXY and CoreXZ\<close>

definition corexy_stepper_plus_calc_position :: sk_calc_callback where
  "corexy_stepper_plus_calc_position pos m move_time =
     (let c = ref_coord m move_time in Some (cx c + cy c))"

definition corexy_stepper_minus_calc_position :: sk_calc_callback where
  "corexy_stepper_minus_calc_position pos m move_time =
     (let c = ref_coord m move_time in Some (cx c - cy c))"

definition corexy_stepper_alloc :: "char \<Rightarrow> stepper_kinematics" where
  "corexy_stepper_alloc ty =
     sk_zero\<lparr>sk_calc_position_cb :=
         (if ty = CHR ''+'' then Some corexy_stepper_plus_calc_position
          else if ty = CHR ''-'' then Some corexy_stepper_minus_calc_position else None),
       sk_active_flags := AF_X OR AF_Y\<rparr>"

definition corexz_stepper_plus_calc_position :: sk_calc_callback where
  "corexz_stepper_plus_calc_position pos m move_time =
     (let c = ref_coord m move_time in Some (cx c + cz c))"

definition corexz_stepper_minus_calc_position :: sk_calc_callback where
  "corexz_stepper_minus_calc_position pos m move_time =
     (let c = ref_coord m move_time in Some (cx c - cz c))"

definition corexz_stepper_alloc :: "char \<Rightarrow> stepper_kinematics" where
  "corexz_stepper_alloc ty =
     sk_zero\<lparr>sk_calc_position_cb :=
         (if ty = CHR ''+'' then Some corexz_stepper_plus_calc_position
          else if ty = CHR ''-'' then Some corexz_stepper_minus_calc_position else None),
       sk_active_flags := AF_X OR AF_Z\<rparr>"

section \<open>Arms and cables\<close>

record delta_stepper =
  ds_arm2 :: real
  ds_tower_x :: real
  ds_tower_y :: real

definition delta_stepper_calc_position :: "delta_stepper \<Rightarrow> sk_calc_callback" where
  "delta_stepper_calc_position ds pos m move_time =
     (let c = ref_coord m move_time; dx = ds_tower_x ds - cx c; dy = ds_tower_y ds - cy c
      in map_option (\<lambda>h. h + cz c) (c_sqrt (ds_arm2 ds - dx * dx - dy * dy)))"

definition delta_stepper_alloc :: "real \<Rightarrow> real \<Rightarrow> real \<Rightarrow> stepper_kinematics" where
  "delta_stepper_alloc arm2 tower_x tower_y =
     sk_zero\<lparr>sk_calc_position_cb :=
         Some (delta_stepper_calc_position \<lparr>ds_arm2 = arm2, ds_tower_x = tower_x, ds_tower_y = tower_y\<rparr>),
       sk_active_flags := AF_X OR AF_Y OR AF_Z\<rparr>"

record deltesian_stepper =
  dt_arm2 :: real
  dt_arm_x :: real

definition deltesian_stepper_calc_position :: "deltesian_stepper \<Rightarrow> sk_calc_callback" where
  "deltesian_stepper_calc_position ds pos m move_time =
     (let c = ref_coord m move_time; dx = cx c - dt_arm_x ds
      in map_option (\<lambda>h. h + cz c) (c_sqrt (dt_arm2 ds - dx * dx)))"

definition deltesian_stepper_alloc :: "real \<Rightarrow> real \<Rightarrow> stepper_kinematics" where
  "deltesian_stepper_alloc arm2 arm_x =
     sk_zero\<lparr>sk_calc_position_cb := Some (deltesian_stepper_calc_position \<lparr>dt_arm2 = arm2, dt_arm_x = arm_x\<rparr>),
       sk_active_flags := AF_X OR AF_Z\<rparr>"

definition winch_stepper_calc_position :: "coord \<Rightarrow> sk_calc_callback" where
  "winch_stepper_calc_position anchor pos m move_time =
     (let c = ref_coord m move_time; dx = cx anchor - cx c; dy = cy anchor - cy c; dz = cz anchor - cz c
      in c_sqrt (dx * dx + dy * dy + dz * dz))"

definition winch_stepper_alloc :: "real \<Rightarrow> real \<Rightarrow> real \<Rightarrow> stepper_kinematics" where
  "winch_stepper_alloc anchor_x anchor_y anchor_z =
     sk_zero\<lparr>sk_calc_position_cb := Some (winch_stepper_calc_position \<lparr>cx = anchor_x, cy = anchor_y, cz = anchor_z\<rparr>),
       sk_active_flags := AF_X OR AF_Y OR AF_Z\<rparr>"

section \<open>Polar\<close>

definition polar_stepper_radius_calc_position :: sk_calc_callback where
  "polar_stepper_radius_calc_position pos m move_time =
     (let c = ref_coord m move_time in c_sqrt (cx c * cx c + cy c * cy c))"

definition polar_stepper_angle_calc_position :: sk_calc_callback where
  "polar_stepper_angle_calc_position pos m move_time =
     (let c = ref_coord m move_time; angle = atan2 (cy c) (cx c)
      in Some (if angle - pos > pi then angle - 2 * pi
               else if angle - pos < - pi then angle + 2 * pi
               else angle))"

definition polar_stepper_angle_post_fixup :: "real \<Rightarrow> real" where
  "polar_stepper_angle_post_fixup pos =
     (if pos < - pi then pos + 2 * pi else if pos > pi then pos - 2 * pi else pos)"

definition polar_stepper_alloc :: "char \<Rightarrow> stepper_kinematics" where
  "polar_stepper_alloc ty =
     (let sk = (if ty = CHR ''r'' then sk_zero\<lparr>sk_calc_position_cb := Some polar_stepper_radius_calc_position\<rparr>
                else if ty = CHR ''a'' then
                  sk_zero\<lparr>sk_calc_position_cb := Some polar_stepper_angle_calc_position,
                    sk_post_cb := Some polar_stepper_angle_post_fixup\<rparr>
                else sk_zero)
      in sk\<lparr>sk_active_flags := AF_X OR AF_Y\<rparr>)"

section \<open>Rotary delta\<close>

text \<open>The elbow of the two arms, scaled by \<^verbatim>\<open>scale\<close>.\<close>

definition rotary_elbow :: "real \<Rightarrow> real \<Rightarrow> real \<Rightarrow> real \<Rightarrow> (real \<times> real) option" where
  "rotary_elbow dx dy upper_arm2 lower_arm2 =
     (if dy = 0 then None
      else
        let inv_dy = 1 / dy;
            c1 = 1 / 2 * inv_dy * (dx * dx + dy * dy + upper_arm2 - lower_arm2);
            c2 = dx * inv_dy;
            scale = c2 * c2 + 1
        in map_option (\<lambda>root. let scaled_elbow_x = c1 * c2 + root in (scaled_elbow_x, c1 * scale - c2 * scaled_elbow_x))
             (c_sqrt (scale * upper_arm2 - c1 * c1)))"

definition rotary_two_arm_calc :: "real \<Rightarrow> real \<Rightarrow> real \<Rightarrow> real \<Rightarrow> real option" where
  "rotary_two_arm_calc dx dy upper_arm2 lower_arm2 =
     map_option (\<lambda>(scaled_elbow_x, scaled_elbow_y). atan2 scaled_elbow_y scaled_elbow_x)
       (rotary_elbow dx dy upper_arm2 lower_arm2)"

record rotary_stepper =
  rs_cos :: real
  rs_sin :: real
  rs_shoulder_radius :: real
  rs_shoulder_height :: real
  rs_upper_arm2 :: real
  rs_lower_arm2 :: real

definition rotary_stepper_calc_position :: "rotary_stepper \<Rightarrow> sk_calc_callback" where
  "rotary_stepper_calc_position rs pos m move_time =
     (let c = ref_coord m move_time;
          sjz = cy c * rs_cos rs - cx c * rs_sin rs;
          sjx = cx c * rs_cos rs + cy c * rs_sin rs - rs_shoulder_radius rs;
          sjy = cz c - rs_shoulder_height rs
      in rotary_two_arm_calc sjx sjy (rs_upper_arm2 rs) (rs_lower_arm2 rs - sjz * sjz))"

definition rotary_delta_stepper_alloc :: "real \<Rightarrow> real \<Rightarrow> real \<Rightarrow> real \<Rightarrow> real \<Rightarrow> stepper_kinematics" where
  "rotary_delta_stepper_alloc shoulder_radius shoulder_height angle upper_arm lower_arm =
     sk_zero\<lparr>sk_calc_position_cb := Some (rotary_stepper_calc_position
         \<lparr>rs_cos = cos angle, rs_sin = sin angle, rs_shoulder_radius = shoulder_radius,
          rs_shoulder_height = shoulder_height, rs_upper_arm2 = upper_arm * upper_arm,
          rs_lower_arm2 = lower_arm * lower_arm\<rparr>),
       sk_active_flags := AF_X OR AF_Y OR AF_Z\<rparr>"

section \<open>Activity\<close>

definition check_active :: "stepper_kinematics \<Rightarrow> move \<Rightarrow> bool" where
  "check_active sk m =
     (let af = sk_active_flags sk
      in af AND AF_X \<noteq> 0 \<and> cx (mv_axes_r m) \<noteq> 0 \<or> af AND AF_Y \<noteq> 0 \<and> cy (mv_axes_r m) \<noteq> 0 \<or>
         af AND AF_Z \<noteq> 0 \<and> cz (mv_axes_r m) \<noteq> 0)"

section \<open>Steppers at rest\<close>

text \<open>
  What the step generation relies on: a move that moves none of the axes a stepper is registered for
  does not move the stepper.
\<close>

locale rest_law =
  fixes sk :: stepper_kinematics
  assumes quiet: "\<not> check_active sk m \<Longrightarrow> sk_calc_position_cb sk = Some cb \<Longrightarrow>
    cb pos (before, m, after) t = cb pos (before, m, after) t'"

lemma coord_simps:
  "cx (ref_coord (before, m, after) t) = cx (mv_start_pos m) + cx (mv_axes_r m) * move_get_distance m t"
  "cy (ref_coord (before, m, after) t) = cy (mv_start_pos m) + cy (mv_axes_r m) * move_get_distance m t"
  "cz (ref_coord (before, m, after) t) = cz (mv_start_pos m) + cz (mv_axes_r m) * move_get_distance m t"
  by (simp_all add: ref_coord_def move_get_coord_def Let_def)

lemma flag_and:
  "(AF_X OR AF_Y OR AF_Z) AND AF_X \<noteq> 0" "(AF_X OR AF_Y OR AF_Z) AND AF_Y \<noteq> 0" "(AF_X OR AF_Y OR AF_Z) AND AF_Z \<noteq> 0"
  "(AF_X OR AF_Y) AND AF_X \<noteq> 0" "(AF_X OR AF_Y) AND AF_Y \<noteq> 0" "(AF_X OR AF_Z) AND AF_X \<noteq> 0" "(AF_X OR AF_Z) AND AF_Z \<noteq> 0"
  by code_simp+

lemmas calc_defs = cart_stepper_x_calc_position_def cart_stepper_y_calc_position_def cart_stepper_z_calc_position_def
  cart_reverse_stepper_x_calc_position_def cart_reverse_stepper_y_calc_position_def cart_reverse_stepper_z_calc_position_def
  corexy_stepper_plus_calc_position_def corexy_stepper_minus_calc_position_def
  corexz_stepper_plus_calc_position_def corexz_stepper_minus_calc_position_def
  delta_stepper_calc_position_def deltesian_stepper_calc_position_def winch_stepper_calc_position_def
  polar_stepper_radius_calc_position_def polar_stepper_angle_calc_position_def rotary_stepper_calc_position_def

interpretation cartesian: rest_law "cartesian_stepper_alloc axis" for axis
  by unfold_locales
     (auto simp: cartesian_stepper_alloc_def sk_zero_def check_active_def calc_defs coord_simps split: if_splits)

interpretation cartesian_reverse: rest_law "cartesian_reverse_stepper_alloc axis" for axis
  by unfold_locales
     (auto simp: cartesian_reverse_stepper_alloc_def sk_zero_def check_active_def calc_defs coord_simps split: if_splits)

interpretation corexy: rest_law "corexy_stepper_alloc ty" for ty
  by unfold_locales
     (auto simp: corexy_stepper_alloc_def sk_zero_def check_active_def calc_defs coord_simps flag_and split: if_splits)

interpretation corexz: rest_law "corexz_stepper_alloc ty" for ty
  by unfold_locales
     (auto simp: corexz_stepper_alloc_def sk_zero_def check_active_def calc_defs coord_simps flag_and split: if_splits)

interpretation delta: rest_law "delta_stepper_alloc arm2 tower_x tower_y" for arm2 tower_x tower_y
  by unfold_locales
     (auto simp: delta_stepper_alloc_def sk_zero_def check_active_def calc_defs coord_simps flag_and split: if_splits)

interpretation deltesian: rest_law "deltesian_stepper_alloc arm2 arm_x" for arm2 arm_x
  by unfold_locales
     (auto simp: deltesian_stepper_alloc_def sk_zero_def check_active_def calc_defs coord_simps flag_and split: if_splits)

interpretation winch: rest_law "winch_stepper_alloc x y z" for x y z
  by unfold_locales
     (auto simp: winch_stepper_alloc_def sk_zero_def check_active_def calc_defs coord_simps flag_and split: if_splits)

interpretation polar: rest_law "polar_stepper_alloc ty" for ty
  by unfold_locales
     (auto simp: polar_stepper_alloc_def sk_zero_def check_active_def calc_defs coord_simps flag_and Let_def split: if_splits)

interpretation rotary_delta: rest_law "rotary_delta_stepper_alloc r h angle u l" for r h angle u l
  by unfold_locales
     (auto simp: rotary_delta_stepper_alloc_def sk_zero_def check_active_def calc_defs coord_simps flag_and split: if_splits)

text \<open>The steppers the allocation functions make.\<close>

inductive machine_stepper :: "stepper_kinematics \<Rightarrow> bool" where
  "machine_stepper (cartesian_stepper_alloc axis)"
| "machine_stepper (cartesian_reverse_stepper_alloc axis)"
| "machine_stepper (corexy_stepper_alloc ty)"
| "machine_stepper (corexz_stepper_alloc ty)"
| "machine_stepper (delta_stepper_alloc arm2 tower_x tower_y)"
| "machine_stepper (deltesian_stepper_alloc arm2 arm_x)"
| "machine_stepper (winch_stepper_alloc x y z)"
| "machine_stepper (polar_stepper_alloc ty)"
| "machine_stepper (rotary_delta_stepper_alloc r h angle u l)"

lemma machine_stepper_rest: "machine_stepper sk \<Longrightarrow> rest_law sk"
  by (induction rule: machine_stepper.induct)
     (rule cartesian.rest_law_axioms cartesian_reverse.rest_law_axioms corexy.rest_law_axioms corexz.rest_law_axioms
       delta.rest_law_axioms deltesian.rest_law_axioms winch.rest_law_axioms polar.rest_law_axioms
       rotary_delta.rest_law_axioms)+

section \<open>The geometry\<close>

lemma rotary_elbow_solves:
  assumes "rotary_elbow dx dy u l = Some (sx, sy)" and "scale = (dx / dy) * (dx / dy) + 1"
  shows "(sx / scale)\<^sup>2 + (sy / scale)\<^sup>2 = u" and "(dx - sx / scale)\<^sup>2 + (dy - sy / scale)\<^sup>2 = l"
proof -
  define c1 where "c1 = 1 / 2 * (1 / dy) * (dx * dx + dy * dy + u - l)"
  define c2 where "c2 = dx * (1 / dy)"
  have scale: "scale = c2 * c2 + 1" using assms(2) by (simp add: c2_def)
  have dy: "dy \<noteq> 0" and sx: "0 \<le> scale * u - c1 * c1" "sx = c1 * c2 + sqrt (scale * u - c1 * c1)" and sy: "sy = c1 * scale - c2 * sx"
    using assms(1) by (auto simp: rotary_elbow_def Let_def c_sqrt_def c1_def c2_def scale split: if_splits)
  have pos: "scale > 0" using scale by (simp add: add_nonneg_pos)
  define ex where "ex = sx / scale"
  define ey where "ey = sy / scale"
  have ey: "ey = c1 - c2 * ex" using sy pos by (simp add: ey_def ex_def diff_divide_distrib)
  have "(scale * ex - c1 * c2)\<^sup>2 = scale * u - c1 * c1" using sx pos by (simp add: ex_def)
  then have "scale * (ex\<^sup>2 + ey\<^sup>2 - u) = 0"
    unfolding ey scale by (simp add: power2_eq_square algebra_simps)
  then have circle: "ex\<^sup>2 + ey\<^sup>2 = u" using pos by simp
  have "dy * ey = dy * c1 - dx * ex" using ey dy by (simp add: c2_def field_simps)
  moreover have "2 * (dy * c1) = dx * dx + dy * dy + u - l" using dy by (simp add: c1_def)
  ultimately have "(dx - ex)\<^sup>2 + (dy - ey)\<^sup>2 = l" using circle by (simp add: power2_eq_square algebra_simps)
  with circle show "(sx / scale)\<^sup>2 + (sy / scale)\<^sup>2 = u" "(dx - sx / scale)\<^sup>2 + (dy - sy / scale)\<^sup>2 = l"
    by (simp_all add: ex_def ey_def)
qed


section \<open>Properties\<close>

text \<open>
  C29.  The kinematics solve the geometry of their machines.  From both CoreXY steppers the position
  of the head can be read back; a delta carriage stands one arm length away from the effector and
  above it; a winch has let out exactly the cable to its anchor; and the elbow found for a rotary
  delta lies on the circle of the upper arm and on the circle of the lower arm.
\<close>

theorem kinematics_solve_geometry:
  fixes m t pos before after
  defines "c \<equiv> move_get_coord m t" and "r \<equiv> (before, m, after)"
  shows "(\<exists>a b. corexy_stepper_plus_calc_position pos r t = Some a \<and> corexy_stepper_minus_calc_position pos r t = Some b \<and>
       cx c = (a + b) / 2 \<and> cy c = (a - b) / 2) \<and>
    (\<forall>ds h. delta_stepper_calc_position ds pos r t = Some h \<longrightarrow>
       cz c \<le> h \<and> (h - cz c)\<^sup>2 + (ds_tower_x ds - cx c)\<^sup>2 + (ds_tower_y ds - cy c)\<^sup>2 = ds_arm2 ds) \<and>
    (\<forall>anchor l. winch_stepper_calc_position anchor pos r t = Some l \<longrightarrow>
       0 \<le> l \<and> l\<^sup>2 = (cx anchor - cx c)\<^sup>2 + (cy anchor - cy c)\<^sup>2 + (cz anchor - cz c)\<^sup>2) \<and>
    (\<forall>dx dy u l sx sy. rotary_elbow dx dy u l = Some (sx, sy) \<longrightarrow>
       (let scale = (dx / dy) * (dx / dy) + 1; ex = sx / scale; ey = sy / scale
        in ex\<^sup>2 + ey\<^sup>2 = u \<and> (dx - ex)\<^sup>2 + (dy - ey)\<^sup>2 = l))"
proof (intro conjI allI impI)
  have ref: "ref_coord r t = c" by (simp add: c_def r_def ref_coord_def)
  show "\<exists>a b. corexy_stepper_plus_calc_position pos r t = Some a \<and> corexy_stepper_minus_calc_position pos r t = Some b \<and>
       cx c = (a + b) / 2 \<and> cy c = (a - b) / 2"
    by (simp add: calc_defs ref Let_def)
  fix ds h
  assume d: "delta_stepper_calc_position ds pos r t = Some h"
  show "cz c \<le> h" "(h - cz c)\<^sup>2 + (ds_tower_x ds - cx c)\<^sup>2 + (ds_tower_y ds - cy c)\<^sup>2 = ds_arm2 ds"
    using d by (auto simp: calc_defs ref Let_def c_sqrt_def power2_eq_square [of "ds_tower_x ds - cx c"]
        power2_eq_square [of "ds_tower_y ds - cy c"] split: if_splits)
next
  have ref: "ref_coord r t = c" by (simp add: c_def r_def ref_coord_def)
  fix anchor l
  assume w: "winch_stepper_calc_position anchor pos r t = Some l"
  let ?d = "(cx anchor - cx c)\<^sup>2 + (cy anchor - cy c)\<^sup>2 + (cz anchor - cz c)\<^sup>2"
  have "l = sqrt ?d" "0 \<le> ?d"
    using w by (auto simp: calc_defs ref Let_def c_sqrt_def power2_eq_square split: if_splits)
  then show "0 \<le> l" "l\<^sup>2 = ?d" by simp_all
next
  fix dx dy u l sx sy
  assume "rotary_elbow dx dy u l = Some (sx, sy)"
  then show "let scale = (dx / dy) * (dx / dy) + 1; ex = sx / scale; ey = sy / scale
        in ex\<^sup>2 + ey\<^sup>2 = u \<and> (dx - ex)\<^sup>2 + (dy - ey)\<^sup>2 = l"
    using rotary_elbow_solves [OF _ refl] by (simp add: Let_def)
qed

lemma sqrt_4_5_3: "sqrt 16 = 4" "sqrt 25 = 5" "sqrt 9 = 3"
  by (simp_all add: real_sqrt_unique)

theorem kinematics_solve_geometry_witness:
  "let r = ([], trapq_move_alloc, []); ds = \<lparr>ds_arm2 = 25, ds_tower_x = 3, ds_tower_y = 0\<rparr>;
       anchor = \<lparr>cx = 3, cy = 4, cz = 0\<rparr>
   in delta_stepper_calc_position ds 0 r 0 = Some 4 \<and> 4\<^sup>2 + 3\<^sup>2 + 0\<^sup>2 = (25 :: real) \<and>
      winch_stepper_calc_position anchor 0 r 0 = Some 5 \<and> 5\<^sup>2 = 3\<^sup>2 + 4\<^sup>2 + (0 :: real)\<^sup>2 \<and>
      rotary_elbow 3 4 9 16 = Some (75 / 16, 0) \<and> (75 / 16 / (25 / 16))\<^sup>2 + 0\<^sup>2 = (9 :: real)"
proof -
  let ?r = "([], trapq_move_alloc, [])" and ?ds = "\<lparr>ds_arm2 = 25, ds_tower_x = 3, ds_tower_y = 0\<rparr>"
    and ?anchor = "\<lparr>cx = 3, cy = 4, cz = 0\<rparr>"
  have c: "move_get_coord trapq_move_alloc 0 = \<lparr>cx = 0, cy = 0, cz = 0\<rparr>"
    by (simp add: move_get_coord_def move_get_distance_def trapq_move_alloc_def Let_def)
  have d: "delta_stepper_calc_position ?ds 0 ?r 0 = Some 4"
    by (simp add: calc_defs ref_coord_def c c_sqrt_def sqrt_4_5_3)
  have w: "winch_stepper_calc_position ?anchor 0 ?r 0 = Some 5"
    by (simp add: calc_defs ref_coord_def c c_sqrt_def sqrt_4_5_3)
  have e: "rotary_elbow 3 4 9 16 = Some (75 / 16, 0)"
    by (simp add: rotary_elbow_def c_sqrt_def sqrt_4_5_3)
  note g = kinematics_solve_geometry [of 0 "[]" trapq_move_alloc "[]" 0, unfolded c]
  from g d have "4\<^sup>2 + 3\<^sup>2 + 0\<^sup>2 = (25 :: real)" by fastforce
  moreover from g w have "5\<^sup>2 = 3\<^sup>2 + 4\<^sup>2 + (0 :: real)\<^sup>2" by fastforce
  moreover from g e have "(75 / 16 / (25 / 16))\<^sup>2 + 0\<^sup>2 = (9 :: real)" by (fastforce simp: Let_def)
  ultimately show ?thesis using d w e by (simp add: Let_def)
qed

end
