(* ===== verification/Extruder.thy ===== *)
theory Extruder
  imports Kinematics
begin

text \<open>
  The extruder stepper with pressure advance, \<^verbatim>\<open>klippy/chelper/kin_extruder.c\<close>: the position
  is a weighted average of the pressure-adjusted position over a window of time, which may reach
  over several moves.  A walk that leaves the list of moves has no result.
\<close>

section \<open>Definitions\<close>

definition extruder_integrate :: "real \<Rightarrow> real \<Rightarrow> real \<Rightarrow> real \<Rightarrow> real \<Rightarrow> real" where
  "extruder_integrate base start_v half_accel start end_t =
     (let half_v = 1 / 2 * start_v; sixth_a = 1 / 3 * half_accel;
          si = start * (base + start * (half_v + start * sixth_a));
          ei = end_t * (base + end_t * (half_v + end_t * sixth_a))
      in ei - si)"

definition extruder_integrate_time :: "real \<Rightarrow> real \<Rightarrow> real \<Rightarrow> real \<Rightarrow> real \<Rightarrow> real" where
  "extruder_integrate_time base start_v half_accel start end_t =
     (let half_b = 1 / 2 * base; third_v = 1 / 3 * start_v; eighth_a = 1 / 4 * half_accel;
          si = start * start * (half_b + start * (third_v + start * eighth_a));
          ei = end_t * end_t * (half_b + end_t * (third_v + end_t * eighth_a))
      in ei - si)"

definition pa_move_integrate :: "move \<Rightarrow> real \<Rightarrow> real \<Rightarrow> real \<Rightarrow> real \<Rightarrow> real \<Rightarrow> real" where
  "pa_move_integrate m pressure_advance base start end_t time_offset =
     (let start = (if start < 0 then 0 else start);
          end_t = (if end_t > mv_move_t m then mv_move_t m else end_t);
          can_pressure_advance = cy (mv_axes_r m) \<noteq> 0;
          pressure_advance = (if can_pressure_advance then pressure_advance else 0);
          base = base + pressure_advance * mv_start_v m;
          start_v = mv_start_v m + pressure_advance * 2 * mv_half_accel m;
          ha = mv_half_accel m;
          iext = extruder_integrate base start_v ha start end_t;
          wgt_ext = extruder_integrate_time base start_v ha start end_t
      in wgt_ext - time_offset * iext)"

fun pa_integrate_prev :: "real \<Rightarrow> real \<Rightarrow> move list \<Rightarrow> real \<Rightarrow> real \<Rightarrow> real option" where
  "pa_integrate_prev pressure_advance start_base before start res =
     (if start < 0 then
        (case before of
           [] \<Rightarrow> None
         | prev # before' \<Rightarrow>
             let start = start + mv_move_t prev; base = cx (mv_start_pos prev) - start_base
             in pa_integrate_prev pressure_advance start_base before' start
                  (res + pa_move_integrate prev pressure_advance base start (mv_move_t prev) start))
      else Some res)"

fun pa_integrate_next :: "real \<Rightarrow> real \<Rightarrow> move \<Rightarrow> move list \<Rightarrow> real \<Rightarrow> real \<Rightarrow> real option" where
  "pa_integrate_next pressure_advance start_base m after end_t res =
     (if end_t > mv_move_t m then
        (case after of
           [] \<Rightarrow> None
         | m' # after' \<Rightarrow>
             let end_t = end_t - mv_move_t m; base = cx (mv_start_pos m') - start_base
             in pa_integrate_next pressure_advance start_base m' after' end_t
                  (res - pa_move_integrate m' pressure_advance base 0 end_t end_t))
      else Some res)"

definition pa_range_integrate :: "mref \<Rightarrow> real \<Rightarrow> real \<Rightarrow> real \<Rightarrow> real option" where
  "pa_range_integrate = (\<lambda>(before, m, after) move_time pressure_advance hst.
     let start = move_time - hst; end_t = move_time + hst; start_base = cx (mv_start_pos m);
         res = pa_move_integrate m pressure_advance 0 start move_time start;
         res = res - pa_move_integrate m pressure_advance 0 move_time end_t end_t
     in do { res \<leftarrow> pa_integrate_prev pressure_advance start_base before start res;
             pa_integrate_next pressure_advance start_base m after end_t res })"

record extruder_stepper =
  es_sk :: stepper_kinematics
  es_pressure_advance :: real
  es_half_smooth_time :: real
  es_inv_half_smooth_time2 :: real

definition extruder_calc_position :: "extruder_stepper \<Rightarrow> sk_calc_callback" where
  "extruder_calc_position es pos r move_time =
     (let hst = es_half_smooth_time es; m = fst (snd r)
      in if hst = 0 then Some (cx (mv_start_pos m) + move_get_distance m move_time)
         else do { area \<leftarrow> pa_range_integrate r move_time (es_pressure_advance es) hst;
                   Some (cx (mv_start_pos m) + area * es_inv_half_smooth_time2 es) })"

definition extruder_set_pressure_advance :: "extruder_stepper \<Rightarrow> real \<Rightarrow> real \<Rightarrow> extruder_stepper" where
  "extruder_set_pressure_advance es pressure_advance smooth_time =
     (let hst = smooth_time * (1 / 2);
          es = es\<lparr>es_half_smooth_time := hst,
                  es_sk := (es_sk es)\<lparr>sk_gen_steps_pre_active := hst, sk_gen_steps_post_active := hst\<rparr>\<rparr>
      in if hst = 0 then es
         else es\<lparr>es_inv_half_smooth_time2 := 1 / (hst * hst), es_pressure_advance := pressure_advance\<rparr>)"

definition extruder_stepper_alloc :: extruder_stepper where
  "extruder_stepper_alloc =
     \<lparr>es_sk = sk_zero\<lparr>sk_active_flags := AF_X\<rparr>, es_pressure_advance = 0, es_half_smooth_time = 0,
      es_inv_half_smooth_time2 = 0\<rparr>"

declare pa_integrate_prev.simps [simp del]
declare pa_integrate_next.simps [simp del]

section \<open>Integrals\<close>

lemma extruder_integrate_deriv:
  "((\<lambda>e. extruder_integrate base v ha s e) has_real_derivative base + e * (v + e * ha)) (at e)"
  unfolding extruder_integrate_def Let_def
  by (auto intro!: derivative_eq_intros simp: field_simps)

lemma extruder_integrate_time_deriv:
  "((\<lambda>e. extruder_integrate_time base v ha s e) has_real_derivative e * (base + e * (v + e * ha))) (at e)"
  unfolding extruder_integrate_time_def Let_def
  by (auto intro!: derivative_eq_intros simp: field_simps power2_eq_square)

text \<open>Over a window inside one move the two halves of the triangular weight add up to this area.\<close>

lemma triangle_area:
  fixes b v a t h :: real
  shows "(extruder_integrate_time b v a (t - h) t - (t - h) * extruder_integrate b v a (t - h) t)
    - (extruder_integrate_time b v a t (t + h) - (t + h) * extruder_integrate b v a t (t + h))
    = h * h * (b + t * (v + t * a) + a * (h * h) / 6)"
  unfolding extruder_integrate_def extruder_integrate_time_def Let_def by (simp add: field_simps)

text \<open>
  C28.  Pressure advance does what its formula says: while the smoothing window lies within one move,
  the extruder stands at the nominal position of the move plus the pressure advance times the current
  speed, where the move extrudes while the head travels, plus the constant shift that averaging an
  accelerated motion over the window gives.
\<close>

theorem pressure_advance_formula:
  assumes "es = extruder_set_pressure_advance es0 pa smooth_time" and "0 < smooth_time"
    and "smooth_time / 2 \<le> t" and "t + smooth_time / 2 \<le> mv_move_t m"
  shows "extruder_calc_position es pos (before, m, after) t =
    Some (cx (mv_start_pos m) + move_get_distance m t
      + (if cy (mv_axes_r m) \<noteq> 0 then pa * (mv_start_v m + 2 * mv_half_accel m * t) else 0)
      + mv_half_accel m * (smooth_time / 2)\<^sup>2 / 6)"
proof -
  define h where "h = smooth_time / 2"
  define p where "p = (if cy (mv_axes_r m) \<noteq> 0 then pa else 0)"
  let ?b = "p * mv_start_v m" and ?v = "mv_start_v m + p * 2 * mv_half_accel m" and ?a = "mv_half_accel m"
  have h: "h > 0" "h \<le> t" "t + h \<le> mv_move_t m" using assms(2-4) by (simp_all add: h_def)
  have es: "es_half_smooth_time es = h" "es_pressure_advance es = pa" "es_inv_half_smooth_time2 es = 1 / (h * h)"
    using assms(1,2) by (simp_all add: extruder_set_pressure_advance_def Let_def h_def)
  have left: "pa_move_integrate m pa 0 (t - h) t (t - h) =
      extruder_integrate_time ?b ?v ?a (t - h) t - (t - h) * extruder_integrate ?b ?v ?a (t - h) t"
    using h by (simp add: pa_move_integrate_def Let_def p_def)
  have right: "pa_move_integrate m pa 0 t (t + h) (t + h) =
      extruder_integrate_time ?b ?v ?a t (t + h) - (t + h) * extruder_integrate ?b ?v ?a t (t + h)"
    using h by (simp add: pa_move_integrate_def Let_def p_def)
  have "pa_range_integrate (before, m, after) t pa h = Some (h * h * (?b + t * (?v + t * ?a) + ?a * (h * h) / 6))"
    using h triangle_area [of ?b ?v ?a t h] left right
    by (simp add: pa_range_integrate_def Let_def pa_integrate_prev.simps pa_integrate_next.simps)
  moreover have "?b + t * (?v + t * ?a) + ?a * (h * h) / 6 = move_get_distance m t + p * (mv_start_v m + 2 * ?a * t) + ?a * h\<^sup>2 / 6"
    by (simp add: move_get_distance_def power2_eq_square algebra_simps)
  ultimately show ?thesis
    using h by (simp add: extruder_calc_position_def es Let_def p_def h_def [symmetric])
qed

theorem pressure_advance_formula_witness:
  "extruder_calc_position (extruder_set_pressure_advance extruder_stepper_alloc (1 / 20) (1 / 25)) 0
     ([], \<lparr>mv_print_time = 1, mv_move_t = 2, mv_start_v = 10, mv_half_accel = 0,
           mv_start_pos = \<lparr>cx = 5, cy = 0, cz = 0\<rparr>, mv_axes_r = \<lparr>cx = 1, cy = 1, cz = 0\<rparr>\<rparr>, []) 1 = Some (31 / 2)"
  by (subst pressure_advance_formula [OF refl]) (simp_all add: move_get_distance_def)

end
