(* ===== verification/Shaper.thy ===== *)
theory Shaper
  imports Kinematics
begin

text \<open>
  The input shaper, \<^verbatim>\<open>klippy/chelper/kin_shaper.c\<close>: the position of an axis is replaced by
  a weighted sum of its positions at a few moments around the given time, before the kinematics of
  the original stepper is applied.

  The used part of the array of pulses is a list of pairs of time and amplitude.  An array argument
  is a list; an access outside it, a division by zero and the use
  of a missing original stepper have no result.  The dummy move the shaped
  position is written to is part of the state and returned with the result.
\<close>

section \<open>Pulses\<close>

type_synonym shaper_pulses = "(real \<times> real) list"

abbreviation MAX_PULSES :: nat where "MAX_PULSES \<equiv> 5"

definition shift_pulses :: "shaper_pulses \<Rightarrow> shaper_pulses" where
  "shift_pulses sp =
     (let ts = sum_list (map (\<lambda>(t, a). a * t) sp) in map (\<lambda>(t, a). (t - ts, a)) sp)"

definition init_shaper :: "int \<Rightarrow> real list \<Rightarrow> real list \<Rightarrow> (int \<times> shaper_pulses) option" where
  "init_shaper n a t =
     (if n < 0 \<or> n > int MAX_PULSES then Some (- 1, [])
      else if length a < nat n \<or> length t < nat n then None
      else
        let a = take (nat n) a; t = take (nat n) t; sum_a = sum_list a
        in if sum_a = 0 \<and> n \<noteq> 0 then None
           else let inv_a = 1 / sum_a in Some (0, shift_pulses (rev (zip (map uminus t) (map (\<lambda>x. x * inv_a) a)))))"

section \<open>Convolution\<close>

definition coord_axis :: "coord \<Rightarrow> char \<Rightarrow> real" where
  "coord_axis c axis = (if axis = CHR ''x'' then cx c else if axis = CHR ''y'' then cy c else cz c)"

definition get_axis_position :: "move \<Rightarrow> char \<Rightarrow> real \<Rightarrow> real" where
  "get_axis_position m axis move_time =
     (let axis_r = coord_axis (mv_axes_r m) axis; start_pos = coord_axis (mv_start_pos m) axis;
          move_dist = move_get_distance m move_time
      in start_pos + axis_r * move_dist)"

text \<open>The two loops of \<^verbatim>\<open>get_axis_position_across_moves\<close>.\<close>

fun seek_back :: "move list \<Rightarrow> move \<Rightarrow> move list \<Rightarrow> real \<Rightarrow> (mref \<times> real) option" where
  "seek_back [] m after time = (if time < 0 then None else Some (([], m, after), time))"
| "seek_back (p # before) m after time =
     (if time < 0 then seek_back before p (m # after) (time + mv_move_t p) else Some ((p # before, m, after), time))"

fun seek_forward :: "move \<Rightarrow> move list \<Rightarrow> real \<Rightarrow> (move \<times> real) option" where
  "seek_forward m [] time = (if time > mv_move_t m then None else Some (m, time))"
| "seek_forward m (m' # after) time =
     (if time > mv_move_t m then seek_forward m' after (time - mv_move_t m) else Some (m, time))"

definition get_axis_position_across_moves :: "mref \<Rightarrow> char \<Rightarrow> real \<Rightarrow> real option" where
  "get_axis_position_across_moves = (\<lambda>(before, m, after) axis time.
     do { ((_, m, after), time) \<leftarrow> seek_back before m after time;
          (m, time) \<leftarrow> seek_forward m after time;
          Some (get_axis_position m axis time) })"

fun calc_position :: "mref \<Rightarrow> char \<Rightarrow> real \<Rightarrow> shaper_pulses \<Rightarrow> real option" where
  "calc_position r axis move_time [] = Some 0"
| "calc_position r axis move_time ((t, a) # sp) =
     do { x \<leftarrow> get_axis_position_across_moves r axis (move_time + t);
          res \<leftarrow> calc_position r axis move_time sp;
          Some (a * x + res) }"

section \<open>The shaped stepper\<close>

abbreviation DUMMY_T :: real where "DUMMY_T \<equiv> 500"

datatype shaper_callback = Shaper_x | Shaper_y | Shaper_xy

record input_shaper =
  is_sk :: stepper_kinematics
  is_cb :: "shaper_callback option"
  is_orig_sk :: "stepper_kinematics option"
  is_m :: move
  is_sx :: shaper_pulses
  is_sy :: shaper_pulses

definition orig_calc :: "input_shaper \<Rightarrow> mref \<Rightarrow> real \<Rightarrow> real option" where
  "orig_calc is r move_time =
     do { sk \<leftarrow> is_orig_sk is; cb \<leftarrow> sk_calc_position_cb sk; cb (sk_commanded_pos sk) r move_time }"

definition orig_calc_dummy :: "input_shaper \<Rightarrow> (real \<times> input_shaper) option" where
  "orig_calc_dummy is = do { x \<leftarrow> orig_calc is ([], is_m is, []) DUMMY_T; Some (x, is) }"

definition shaper_x_calc_position :: "input_shaper \<Rightarrow> mref \<Rightarrow> real \<Rightarrow> (real \<times> input_shaper) option" where
  "shaper_x_calc_position is r move_time =
     (if is_sx is = [] then do { x \<leftarrow> orig_calc is r move_time; Some (x, is) }
      else do { x \<leftarrow> calc_position r CHR ''x'' move_time (is_sx is);
                orig_calc_dummy (is\<lparr>is_m := (is_m is)\<lparr>mv_start_pos := (mv_start_pos (is_m is))\<lparr>cx := x\<rparr>\<rparr>\<rparr>) })"

definition shaper_y_calc_position :: "input_shaper \<Rightarrow> mref \<Rightarrow> real \<Rightarrow> (real \<times> input_shaper) option" where
  "shaper_y_calc_position is r move_time =
     (if is_sy is = [] then do { x \<leftarrow> orig_calc is r move_time; Some (x, is) }
      else do { y \<leftarrow> calc_position r CHR ''y'' move_time (is_sy is);
                orig_calc_dummy (is\<lparr>is_m := (is_m is)\<lparr>mv_start_pos := (mv_start_pos (is_m is))\<lparr>cy := y\<rparr>\<rparr>\<rparr>) })"

definition shaper_xy_calc_position :: "input_shaper \<Rightarrow> mref \<Rightarrow> real \<Rightarrow> (real \<times> input_shaper) option" where
  "shaper_xy_calc_position is r move_time =
     (if is_sx is = [] \<and> is_sy is = [] then do { x \<leftarrow> orig_calc is r move_time; Some (x, is) }
      else
        let c = move_get_coord (fst (snd r)) move_time
        in do { x \<leftarrow> (if is_sx is \<noteq> [] then calc_position r CHR ''x'' move_time (is_sx is) else Some (cx c));
                y \<leftarrow> (if is_sy is \<noteq> [] then calc_position r CHR ''y'' move_time (is_sy is) else Some (cy c));
                orig_calc_dummy (is\<lparr>is_m := (is_m is)\<lparr>mv_start_pos := c\<lparr>cx := x, cy := y\<rparr>\<rparr>\<rparr>) })"

definition input_shaper_set_sk :: "input_shaper \<Rightarrow> stepper_kinematics \<Rightarrow> int \<times> input_shaper" where
  "input_shaper_set_sk is orig_sk =
     (let af = sk_active_flags orig_sk;
          cb = (if af = AF_X then Some Shaper_x else if af = AF_Y then Some Shaper_y
                else if af AND (AF_X OR AF_Y) \<noteq> 0 then Some Shaper_xy else None)
      in if cb = None then (- 1, is)
         else (0, is\<lparr>is_cb := cb, is_sk := (is_sk is)\<lparr>sk_active_flags := af\<rparr>, is_orig_sk := Some orig_sk\<rparr>))"

definition shaper_note_generation_time :: "input_shaper \<Rightarrow> input_shaper" where
  "shaper_note_generation_time is =
     (let af = sk_active_flags (is_sk is); pre = 0; post = 0;
          (pre, post) = (if af AND AF_X \<noteq> 0 \<and> is_sx is \<noteq> [] then (fst (last (is_sx is)), - fst (hd (is_sx is))) else (pre, post));
          (pre, post) = (if af AND AF_Y \<noteq> 0 \<and> is_sy is \<noteq> [] then
              (if fst (last (is_sy is)) > pre then fst (last (is_sy is)) else pre,
               if - fst (hd (is_sy is)) > post then - fst (hd (is_sy is)) else post)
            else (pre, post))
      in is\<lparr>is_sk := (is_sk is)\<lparr>sk_gen_steps_pre_active := pre, sk_gen_steps_post_active := post\<rparr>\<rparr>)"

definition input_shaper_set_shaper_params ::
    "input_shaper \<Rightarrow> char \<Rightarrow> int \<Rightarrow> real list \<Rightarrow> real list \<Rightarrow> (int \<times> input_shaper) option" where
  "input_shaper_set_shaper_params is axis n a t =
     (if axis \<noteq> CHR ''x'' \<and> axis \<noteq> CHR ''y'' then Some (- 1, is)
      else
        let flag = (if axis = CHR ''x'' then AF_X else AF_Y)
        in do { orig \<leftarrow> is_orig_sk is;
                (status, sp) \<leftarrow> (if sk_active_flags orig AND flag \<noteq> 0 then init_shaper n a t else Some (0, []));
                Some (status, shaper_note_generation_time
                  (if axis = CHR ''x'' then is\<lparr>is_sx := sp\<rparr> else is\<lparr>is_sy := sp\<rparr>)) })"

definition input_shaper_get_step_generation_window :: "int \<Rightarrow> real list \<Rightarrow> real list \<Rightarrow> real option" where
  "input_shaper_get_step_generation_window n a t =
     do { (_, sp) \<leftarrow> init_shaper n a t;
          Some (if sp = [] then 0
                else let window = - fst (hd sp) in if fst (last sp) > window then fst (last sp) else window) }"

definition input_shaper_alloc :: input_shaper where
  "input_shaper_alloc =
     \<lparr>is_sk = sk_zero, is_cb = None, is_orig_sk = None, is_m = trapq_move_alloc\<lparr>mv_move_t := 2 * DUMMY_T\<rparr>,
      is_sx = [], is_sy = []\<rparr>"

section \<open>Motion at constant speed\<close>

lemma init_shaper_unit:
  assumes "init_shaper n a t = Some (0, sp)" and "n \<noteq> 0"
  shows "sum_list (map snd sp) = 1" and "sum_list (map (\<lambda>(t, a). a * t) sp) = 0"
proof -
  let ?a = "take (nat n) a" and ?t = "take (nat n) t"
  let ?p = "rev (zip (map uminus ?t) (map (\<lambda>x. x * (1 / sum_list ?a)) ?a))"
  define ts where "ts = sum_list (map (\<lambda>(t, a). a * t) ?p)"
  have n: "0 \<le> n" "nat n \<le> length a" "nat n \<le> length t" "sum_list ?a \<noteq> 0" and sp: "sp = map (\<lambda>(t, a). (t - ts, a)) ?p"
    using assms by (auto simp: init_shaper_def shift_pulses_def Let_def ts_def split: if_splits)
  have snds: "map snd ?p = rev (map (\<lambda>x. x * (1 / sum_list ?a)) ?a)"
    using n by (simp add: rev_map [symmetric] min_def)
  then have one: "sum_list (map snd ?p) = 1"
    using n(4) by (simp add: sum_list_mult_const sum_list_rev divide_inverse)
  have "map snd sp = map snd ?p" by (simp add: sp case_prod_unfold)
  then show "sum_list (map snd sp) = 1" using one by simp
  have shift: "sum_list (map (\<lambda>(t, a). a * t) (map (\<lambda>(t, a). (t - ts, a)) q)) =
      sum_list (map (\<lambda>(t, a). a * t) q) - ts * sum_list (map snd q)" for q
    by (induction q) (auto simp: algebra_simps)
  show "sum_list (map (\<lambda>(t, a). a * t) sp) = 0"
    unfolding sp shift using one by (simp add: ts_def)
qed

text \<open>All moves of the list go along the axis at speed \<open>v\<close>, each from where the one before it ends.\<close>

definition cruises :: "char \<Rightarrow> real \<Rightarrow> mref \<Rightarrow> bool" where
  "cruises axis v = (\<lambda>(before, m, after).
     (\<forall>x \<in> set (rev before @ m # after). mv_half_accel x = 0 \<and> coord_axis (mv_axes_r x) axis * mv_start_v x = v) \<and>
     successively (\<lambda>x y. coord_axis (mv_start_pos y) axis = coord_axis (mv_start_pos x) axis + v * mv_move_t x)
       (rev before @ m # after))"

lemma cruise_position:
  "cruises axis v (before, m, after) \<Longrightarrow> get_axis_position m axis t = coord_axis (mv_start_pos m) axis + v * t"
  by (auto simp: cruises_def get_axis_position_def Let_def move_get_distance_def)

lemma cruise_back:
  assumes "cruises axis v (before, m, after)" and "seek_back before m after t = Some ((before', m', after'), t')"
  shows "cruises axis v (before', m', after') \<and>
    coord_axis (mv_start_pos m') axis + v * t' = coord_axis (mv_start_pos m) axis + v * t"
  using assms
proof (induction before m after t rule: seek_back.induct)
  case (2 p before m after t)
  show ?case
  proof (cases "t < 0")
    case True
    have "cruises axis v (before, p, m # after)" using "2.prems"(1) by (simp add: cruises_def)
    moreover have "coord_axis (mv_start_pos m) axis = coord_axis (mv_start_pos p) axis + v * mv_move_t p"
      using "2.prems"(1) by (auto simp: cruises_def successively_append_iff)
    ultimately show ?thesis using 2 True by (simp add: algebra_simps)
  qed (use 2 in simp)
qed (auto split: if_splits)

lemma cruise_forward:
  assumes "cruises axis v (before, m, after)" and "seek_forward m after t = Some (m', t')"
  shows "get_axis_position m' axis t' = coord_axis (mv_start_pos m) axis + v * t"
  using assms
proof (induction m after t arbitrary: before rule: seek_forward.induct)
  case (1 m t)
  then show ?case using cruise_position by (auto split: if_splits)
next
  case (2 m m1 after t)
  show ?case
  proof (cases "t > mv_move_t m")
    case True
    have "cruises axis v (m # before, m1, after)" using "2.prems"(1) by (simp add: cruises_def)
    moreover have "coord_axis (mv_start_pos m1) axis = coord_axis (mv_start_pos m) axis + v * mv_move_t m"
      using "2.prems"(1) by (auto simp: cruises_def successively_append_iff)
    ultimately show ?thesis using "2.IH" [of "m # before"] "2.prems"(2) True by (simp add: algebra_simps)
  next
    case False
    with "2.prems" cruise_position show ?thesis by (auto split: if_splits)
  qed
qed

lemma cruise_across:
  assumes "cruises axis v (before, m, after)" and "get_axis_position_across_moves (before, m, after) axis t \<noteq> None"
  shows "get_axis_position_across_moves (before, m, after) axis t = Some (coord_axis (mv_start_pos m) axis + v * t)"
proof -
  obtain before' m' after' t' where b: "seek_back before m after t = Some ((before', m', after'), t')"
    using assms(2) by (auto simp: get_axis_position_across_moves_def split: bind_splits)
  then obtain m2 t2 where f: "seek_forward m' after' t' = Some (m2, t2)"
    using assms(2) by (auto simp: get_axis_position_across_moves_def split: bind_splits)
  from cruise_back [OF assms(1) b] cruise_forward [OF _ f]
  show ?thesis by (auto simp: get_axis_position_across_moves_def b f)
qed

lemma calc_position_affine:
  assumes "\<forall>(t, a) \<in> set sp. get_axis_position_across_moves r axis (T + t) = Some (p + v * (T + t))"
  shows "calc_position r axis T sp = Some ((p + v * T) * sum_list (map snd sp) + v * sum_list (map (\<lambda>(t, a). a * t) sp))"
  using assms by (induction r axis T sp rule: calc_position.induct) (auto simp: algebra_simps)

text \<open>
  C27.  The input shaper leaves motion at constant speed alone: for every set of pulses that
  \<^verbatim>\<open>init_shaper\<close> accepts, when the moves around the given time follow each other at the same
  speed along the axis and the pulses do not reach beyond the list of moves, the shaped position is
  the position without shaping.
\<close>

theorem shaper_keeps_constant_speed:
  assumes "init_shaper n a t = Some (0, sp)" and "n \<noteq> 0" and "cruises axis v (before, m, after)"
    and "\<forall>(t, a) \<in> set sp. get_axis_position_across_moves (before, m, after) axis (move_time + t) \<noteq> None"
  shows "calc_position (before, m, after) axis move_time sp = Some (get_axis_position m axis move_time)"
proof -
  have "\<forall>(t, a) \<in> set sp. get_axis_position_across_moves (before, m, after) axis (move_time + t) =
      Some (coord_axis (mv_start_pos m) axis + v * (move_time + t))"
    using cruise_across [OF assms(3)] assms(4) by blast
  from calc_position_affine [OF this] init_shaper_unit [OF assms(1,2)]
  show ?thesis by (simp add: cruise_position [OF assms(3)])
qed

theorem shaper_keeps_constant_speed_witness:
  "let m = \<lparr>mv_print_time = 0, mv_move_t = 1, mv_start_v = 100, mv_half_accel = 0,
            mv_start_pos = \<lparr>cx = 0, cy = 0, cz = 0\<rparr>, mv_axes_r = \<lparr>cx = 1, cy = 0, cz = 0\<rparr>\<rparr>
   in init_shaper 2 [1, 1] [0, 1 / 50] = Some (0, [(- 1 / 100, 1 / 2), (1 / 100, 1 / 2)]) \<and>
      calc_position ([], m, []) CHR ''x'' (1 / 2) [(- 1 / 100, 1 / 2), (1 / 100, 1 / 2)] = Some 50"
proof -
  let ?m = "\<lparr>mv_print_time = 0, mv_move_t = 1, mv_start_v = 100, mv_half_accel = 0,
            mv_start_pos = \<lparr>cx = 0, cy = 0, cz = 0\<rparr>, mv_axes_r = \<lparr>cx = 1, cy = 0, cz = 0\<rparr>\<rparr>"
  have i: "init_shaper 2 [1, 1] [0, 1 / 50] = Some (0, [(- 1 / 100, 1 / 2), (1 / 100, 1 / 2)])"
    by (simp add: init_shaper_def shift_pulses_def Let_def numeral_2_eq_2)
  have "cruises CHR ''x'' 100 ([], ?m, [])" by (simp add: cruises_def coord_axis_def)
  from shaper_keeps_constant_speed [OF i _ this, of "1 / 2"] show ?thesis using i
    by (simp add: Let_def get_axis_position_across_moves_def get_axis_position_def coord_axis_def move_get_distance_def)
qed

end
