(* ===== verification/Itersolve.thy ===== *)
theory Itersolve
  imports Kinematics Stepcompress
begin

text \<open>
  The iterative solver, \<^verbatim>\<open>klippy/chelper/itersolve.c\<close>: it searches, move by move, the times at
  which a stepper reaches its next step position and hands them to the step compression.

  The state holds the stepper, its step compression and the move queue it is attached to.  The
  variables of the search loop are a record, and one round of the loop is split into the choice of
  the next time, the update of the bounds and the reset after a step.  A secant through two equal
  distances is a division by zero; its result fails the comparison with the bounds, as infinities
  and NaN do.  A callback without a result gets stuck.
\<close>

record itersolve =
  it_sk :: stepper_kinematics
  it_sc :: stepcompress
  it_tq :: "trapq option"

definition with_sc :: "(stepcompress, 'a) prog \<Rightarrow> (itersolve, 'a) prog" where
  "with_sc m s = (case m (it_sc s) of None \<Rightarrow> None | Some (r, sc) \<Rightarrow> Some (r, s\<lparr>it_sc := sc\<rparr>))"

definition upd_sk :: "(stepper_kinematics \<Rightarrow> stepper_kinematics) \<Rightarrow> (itersolve, unit) prog" where
  "upd_sk f = upd (\<lambda>s. s\<lparr>it_sk := f (it_sk s)\<rparr>)"

section \<open>The search loop\<close>

abbreviation SEEK_TIME_RESET :: real where "SEEK_TIME_RESET \<equiv> 1 / 10000"

abbreviation NANO :: real where "NANO \<equiv> 1 / 1000000000"

record search =
  g_old_time :: real
  g_old_pos :: real
  g_time :: real
  g_pos :: real
  g_sdir :: int
  g_is_dir_change :: bool
  g_have_bracket :: bool
  g_check_oscillate :: bool
  g_target :: real
  g_last_time :: real
  g_low_time :: real
  g_high_time :: real

definition search_start :: "real \<Rightarrow> real \<Rightarrow> real \<Rightarrow> int \<Rightarrow> real \<Rightarrow> search" where
  "search_start start end_t commanded_pos sdir half_step =
     \<lparr>g_old_time = start, g_old_pos = commanded_pos, g_time = start, g_pos = commanded_pos, g_sdir = sdir,
      g_is_dir_change = False, g_have_bracket = False, g_check_oscillate = False,
      g_target = commanded_pos + (if sdir \<noteq> 0 then half_step else - half_step),
      g_last_time = start, g_low_time = start,
      g_high_time = (if start + SEEK_TIME_RESET > end_t then end_t else start + SEEK_TIME_RESET)\<rparr>"

text \<open>The next time to try; \<open>None\<close> when there are no more steps in the time range.\<close>

definition next_guess :: "real \<Rightarrow> search \<Rightarrow> (real \<times> search) option" where
  "next_guess end_t g =
     (let guess_dist = g_pos g - g_target g;
          og_dist = g_old_pos g - g_target g;
          next_time = (g_old_time g * guess_dist - g_time g * og_dist) / (guess_dist - og_dist)
      in if guess_dist \<noteq> og_dist \<and> next_time > g_low_time g \<and> next_time < g_high_time g then Some (next_time, g)
         else if g_have_bracket g then
           Some ((g_low_time g + g_high_time g) * (1 / 2), g\<lparr>g_check_oscillate := False\<rparr>)
         else if g_time g \<ge> end_t then None
         else
           let high_time = 2 * g_high_time g - g_last_time g
           in Some (g_high_time g, g\<lparr>g_high_time := (if high_time > end_t then end_t else high_time)\<rparr>))"

definition note_guess :: "real \<Rightarrow> real \<Rightarrow> search \<Rightarrow> search" where
  "note_guess next_time position g =
     g\<lparr>g_old_time := g_time g, g_old_pos := g_pos g, g_time := next_time, g_pos := position\<rparr>"

definition rel_dist :: "search \<Rightarrow> real" where
  "rel_dist g = (if g_sdir g \<noteq> 0 then g_pos g - g_target g else - (g_pos g - g_target g))"

definition update_bounds :: "real \<Rightarrow> search \<Rightarrow> search" where
  "update_bounds half_step g =
     (if rel_dist g > 0 then
        let g = (if g_have_bracket g \<and> g_old_time g \<le> g_low_time g then
                   (if g_check_oscillate g then g\<lparr>g_old_time := g_time g, g_old_pos := g_pos g\<rparr> else g)\<lparr>g_check_oscillate := True\<rparr>
                 else g)
        in g\<lparr>g_high_time := g_time g, g_have_bracket := True\<rparr>
      else if rel_dist g < - (half_step + half_step + 10 * NANO) then
        let sdir = (if g_sdir g \<noteq> 0 then 0 else 1)
        in g\<lparr>g_sdir := sdir,
             g_target := (if sdir \<noteq> 0 then g_target g + half_step + half_step else g_target g - half_step - half_step),
             g_low_time := g_last_time g, g_high_time := g_time g,
             g_is_dir_change := True, g_have_bracket := True, g_check_oscillate := False\<rparr>
      else g\<lparr>g_low_time := g_time g\<rparr>)"

definition guess_again :: "search \<Rightarrow> bool" where
  "guess_again g \<longleftrightarrow> \<not> g_have_bracket g \<or> g_high_time g - g_low_time g > NANO"

definition step_found :: "real \<Rightarrow> real \<Rightarrow> search \<Rightarrow> search" where
  "step_found end_t half_step g =
     (let delta = 3 / 2 * (g_time g - g_last_time g);
          delta = (if delta < NANO then NANO else delta);
          delta = (if g_is_dir_change g \<and> delta > SEEK_TIME_RESET then SEEK_TIME_RESET else delta);
          high_time = g_time g + delta
      in g\<lparr>g_target := (if g_sdir g \<noteq> 0 then g_target g + half_step + half_step else g_target g - half_step - half_step),
           g_last_time := g_time g, g_low_time := g_time g,
           g_high_time := (if high_time > end_t then end_t else high_time),
           g_is_dir_change := False, g_have_bracket := False, g_check_oscillate := False\<rparr>)"

text \<open>Whether the position found is close enough, with the bounds updated when it is not.\<close>

definition judge :: "real \<Rightarrow> search \<Rightarrow> search \<times> bool" where
  "judge half_step g =
     (if \<bar>g_pos g - g_target g\<bar> > NANO then
        let g' = update_bounds half_step g in (g', guess_again g')
      else (g, False))"

text \<open>
  One round of the loop.  It ends with a return code, or without one when no more steps are present.
\<close>

definition search_round ::
    "sk_calc_callback \<Rightarrow> mref \<Rightarrow> real \<Rightarrow> real \<Rightarrow> search \<Rightarrow> (itersolve, search + (int option \<times> search)) prog" where
  "search_round calc r end_t half_step g =
     (case next_guess end_t g of
        None \<Rightarrow> ret (Inr (None, g))
      | Some (next_time, g) \<Rightarrow>
          bnd (gets (\<lambda>s. sk_commanded_pos (it_sk s))) (\<lambda>pos.
          bnd (deref (calc pos r next_time)) (\<lambda>position.
          let g1 = note_guess next_time position g; (g2, again) = judge half_step g1
          in if again then
               bnd (if \<not> g_is_dir_change g2 \<and> rel_dist g1 \<ge> - half_step then with_sc stepcompress_commit else ret 0) (\<lambda>_.
               ret (Inl g2))
             else
               bnd (with_sc (stepcompress_append (g_sdir g2) (mv_print_time (fst (snd r))) (g_time g2))) (\<lambda>code.
               if code \<noteq> 0 then ret (Inr (Some code, g2)) else ret (Inl (step_found end_t half_step g2))))))"

definition itersolve_gen_steps_range :: "mref \<Rightarrow> real \<Rightarrow> real \<Rightarrow> (itersolve, int) prog" where
  "itersolve_gen_steps_range r abs_start abs_end =
     bnd (gets it_sk) (\<lambda>sk.
     bnd (deref (sk_calc_position_cb sk)) (\<lambda>calc.
     let m = fst (snd r);
         half_step = 1 / 2 * sk_step_dist sk;
         start = abs_start - mv_print_time m; end_t = abs_end - mv_print_time m;
         start = (if start < 0 then 0 else start);
         end_t = (if end_t > mv_move_t m then mv_move_t m else end_t)
     in bnd (with_sc stepcompress_get_step_dir) (\<lambda>sdir.
        bnd (loopp (search_round calc r end_t half_step)
               (search_start start end_t (sk_commanded_pos sk) sdir half_step)) (\<lambda>(code, g).
        case code of
          Some c \<Rightarrow> ret c
        | None \<Rightarrow>
            sq (upd_sk (\<lambda>sk. sk\<lparr>sk_commanded_pos := g_target g - (if g_sdir g \<noteq> 0 then half_step else - half_step)\<rparr>))
            (sq (upd_sk (\<lambda>sk. case sk_post_cb sk of None \<Rightarrow> sk | Some f \<Rightarrow> sk\<lparr>sk_commanded_pos := f (sk_commanded_pos sk)\<rparr>))
            (ret 0))))))"

section \<open>Walking through the moves\<close>

fun skip_flushed :: "real \<Rightarrow> move list \<Rightarrow> move list \<Rightarrow> mref option" where
  "skip_flushed last_flush_time before [] = None"
| "skip_flushed last_flush_time before (m # after) =
     (if last_flush_time \<ge> mv_print_time m + mv_move_t m then skip_flushed last_flush_time (m # before) after
      else Some (before, m, after))"

text \<open>The skipped moves from which steps leading up to activity are generated, in their order.\<close>

fun lead_up :: "real \<Rightarrow> int \<Rightarrow> move list \<Rightarrow> move list \<Rightarrow> mref list \<Rightarrow> mref list option" where
  "lead_up abs_start skip_count [] after refs = None"
| "lead_up abs_start skip_count (pm # before) after refs =
     (if skip_count - 1 \<noteq> 0 \<and> mv_print_time pm > abs_start then
        lead_up abs_start (skip_count - 1) before (pm # after) ((before, pm, after) # refs)
      else Some ((before, pm, after) # refs))"

primrec gen_steps_each :: "mref list \<Rightarrow> real \<Rightarrow> real \<Rightarrow> (itersolve, int) prog" where
  "gen_steps_each [] abs_start abs_end = ret 0"
| "gen_steps_each (r # rs) abs_start abs_end =
     bnd (itersolve_gen_steps_range r abs_start abs_end) (\<lambda>c.
     if c \<noteq> 0 then ret c else gen_steps_each rs abs_start abs_end)"

definition gen_active :: "mref \<Rightarrow> real \<Rightarrow> real \<Rightarrow> int \<Rightarrow> real \<Rightarrow> (itersolve, int) prog" where
  "gen_active r last_flush_time flush_time skip_count force_steps_time =
     bnd (gets it_sk) (\<lambda>sk.
     bnd (if skip_count \<noteq> 0 \<and> sk_gen_steps_pre_active sk \<noteq> 0 then
            let (before, m, after) = r;
                abs_start = mv_print_time m - sk_gen_steps_pre_active sk;
                abs_start = (if abs_start < last_flush_time then last_flush_time else abs_start);
                abs_start = (if abs_start < force_steps_time then force_steps_time else abs_start)
            in bnd (deref (lead_up abs_start skip_count before (m # after) [])) (\<lambda>refs.
               gen_steps_each refs abs_start flush_time)
          else ret 0) (\<lambda>c.
     if c \<noteq> 0 then ret c else itersolve_gen_steps_range r last_flush_time flush_time))"

fun generate_moves :: "real \<Rightarrow> real \<Rightarrow> move list \<Rightarrow> move list \<Rightarrow> int \<Rightarrow> real \<Rightarrow> (itersolve, int) prog" where
  "generate_moves last_flush_time flush_time before [] skip_count force_steps_time = stuck"
| "generate_moves last_flush_time flush_time before (m # after) skip_count force_steps_time =
     bnd (gets it_sk) (\<lambda>sk.
     let move_start = mv_print_time m; move_end = move_start + mv_move_t m
     in if check_active sk m then
          bnd (gen_active (before, m, after) last_flush_time flush_time skip_count force_steps_time) (\<lambda>c.
          if c \<noteq> 0 then ret c
          else if move_end \<ge> flush_time then sq (upd_sk (\<lambda>sk. sk\<lparr>sk_last_move_time := flush_time\<rparr>)) (ret 0)
          else
            sq (upd_sk (\<lambda>sk. sk\<lparr>sk_last_move_time := move_end\<rparr>))
            (generate_moves last_flush_time flush_time (m # before) after 0 (move_end + sk_gen_steps_post_active sk)))
        else
          bnd (if move_start < force_steps_time then
                 let abs_end = (if force_steps_time > flush_time then flush_time else force_steps_time)
                 in itersolve_gen_steps_range (before, m, after) last_flush_time abs_end
               else ret 0) (\<lambda>c.
          if c \<noteq> 0 then ret c
          else if flush_time + sk_gen_steps_pre_active sk \<le> move_end then ret 0
          else generate_moves last_flush_time flush_time (m # before) after
                 (if move_start < force_steps_time then 1 else skip_count + 1) force_steps_time))"

definition itersolve_generate_steps :: "real \<Rightarrow> (itersolve, int) prog" where
  "itersolve_generate_steps flush_time =
     bnd (gets it_sk) (\<lambda>sk.
     sq (upd_sk (\<lambda>sk. sk\<lparr>sk_last_flush_time := flush_time\<rparr>))
     (bnd (gets it_tq) (\<lambda>tq.
      case tq of
        None \<Rightarrow> ret 0
      | Some tq \<Rightarrow>
          bnd (deref (trapq_check_sentinels tq)) (\<lambda>tq.
          sq (upd (\<lambda>s. s\<lparr>it_tq := Some tq\<rparr>))
          (bnd (deref (skip_flushed (sk_last_flush_time sk) [] (tq_moves tq))) (\<lambda>(before, m, after).
           generate_moves (sk_last_flush_time sk) flush_time before (m # after) 0
             (sk_last_move_time sk + sk_gen_steps_post_active sk)))))))"

fun find_active :: "stepper_kinematics \<Rightarrow> real \<Rightarrow> move list \<Rightarrow> real option" where
  "find_active sk flush_time [] = None"
| "find_active sk flush_time (m # after) =
     (if check_active sk m then Some (mv_print_time m)
      else if flush_time \<le> mv_print_time m + mv_move_t m then Some 0
      else find_active sk flush_time after)"

definition itersolve_check_active :: "real \<Rightarrow> (itersolve, real) prog" where
  "itersolve_check_active flush_time =
     bnd (gets it_sk) (\<lambda>sk.
     bnd (gets it_tq) (\<lambda>tq.
     case tq of
       None \<Rightarrow> ret 0
     | Some tq \<Rightarrow>
         bnd (deref (trapq_check_sentinels tq)) (\<lambda>tq.
         sq (upd (\<lambda>s. s\<lparr>it_tq := Some tq\<rparr>))
         (bnd (deref (skip_flushed (sk_last_flush_time sk) [] (tq_moves tq))) (\<lambda>(before, m, after).
          deref (find_active sk flush_time (m # after)))))))"

definition itersolve_is_active_axis :: "stepper_kinematics \<Rightarrow> char \<Rightarrow> bool" where
  "itersolve_is_active_axis sk axis =
     (let c = of_char axis :: nat
      in if c < of_char CHR ''x'' \<or> c > of_char CHR ''z'' then False
         else sk_active_flags sk AND push_bit (c - of_char CHR ''x'') AF_X \<noteq> 0)"

definition itersolve_set_trapq :: "trapq option \<Rightarrow> (itersolve, unit) prog" where
  "itersolve_set_trapq tq = upd (\<lambda>s. s\<lparr>it_tq := tq\<rparr>)"

definition itersolve_set_stepcompress :: "stepcompress \<Rightarrow> real \<Rightarrow> (itersolve, unit) prog" where
  "itersolve_set_stepcompress sc step_dist =
     sq (upd (\<lambda>s. s\<lparr>it_sc := sc\<rparr>)) (upd_sk (\<lambda>sk. sk\<lparr>sk_step_dist := step_dist\<rparr>))"

definition itersolve_calc_position_from_coord :: "coord \<Rightarrow> (itersolve, real) prog" where
  "itersolve_calc_position_from_coord c =
     bnd (gets it_sk) (\<lambda>sk.
     bnd (deref (sk_calc_position_cb sk)) (\<lambda>calc.
     deref (calc (sk_commanded_pos sk) ([], trapq_move_alloc\<lparr>mv_start_pos := c, mv_move_t := 1000\<rparr>, []) 500)))"

definition itersolve_set_position :: "coord \<Rightarrow> (itersolve, unit) prog" where
  "itersolve_set_position c =
     bnd (itersolve_calc_position_from_coord c) (\<lambda>p. upd_sk (\<lambda>sk. sk\<lparr>sk_commanded_pos := p\<rparr>))"

definition itersolve_get_commanded_pos :: "(itersolve, real) prog" where
  "itersolve_get_commanded_pos = gets (\<lambda>s. sk_commanded_pos (it_sk s))"

section \<open>The invariant of the search\<close>

text \<open>
  How far the stepper is past its target at time \<open>t\<close>, in the direction of the search; \<open>f\<close> is the
  position over the time of the move.
\<close>

definition past :: "(real \<Rightarrow> real) \<Rightarrow> search \<Rightarrow> real \<Rightarrow> real" where
  "past f g t = (if g_sdir g \<noteq> 0 then f t - g_target g else g_target g - f t)"

definition bounds_ok :: "real \<Rightarrow> real \<Rightarrow> search \<Rightarrow> bool" where
  "bounds_ok start end_t g \<longleftrightarrow> start \<le> g_last_time g \<and> g_last_time g \<le> g_low_time g \<and> g_low_time g \<le> g_high_time g \<and>
     g_high_time g \<le> end_t"

definition bracket_ok :: "(real \<Rightarrow> real) \<Rightarrow> search \<Rightarrow> bool" where
  "bracket_ok f g \<longleftrightarrow> (g_have_bracket g \<longrightarrow> 0 < past f g (g_high_time g)) \<and>
     (g_low_time g = g_last_time g \<or> past f g (g_low_time g) \<le> 0)"

definition on_grid :: "real \<Rightarrow> real \<Rightarrow> search \<Rightarrow> bool" where
  "on_grid pos half_step g \<longleftrightarrow> (\<exists>k :: int. g_target g = pos + (2 * real_of_int k + (if g_sdir g \<noteq> 0 then 1 else - 1)) * half_step)"

definition search_ok :: "(real \<Rightarrow> real) \<Rightarrow> real \<Rightarrow> real \<Rightarrow> real \<Rightarrow> real \<Rightarrow> search \<Rightarrow> bool" where
  "search_ok f start end_t pos half_step g \<longleftrightarrow> bounds_ok start end_t g \<and> bracket_ok f g \<and> on_grid pos half_step g"

lemmas search_defs = search_ok_def bounds_ok_def bracket_ok_def past_def

lemma search_start_ok:
  assumes "start \<le> end_t"
  shows "search_ok f start end_t pos half_step (search_start start end_t pos sdir half_step)"
proof -
  have "on_grid pos half_step (search_start start end_t pos sdir half_step)"
    unfolding on_grid_def by (rule exI [of _ 0]) (simp add: search_start_def)
  with assms show ?thesis by (simp add: search_defs search_start_def)
qed

lemma next_guess_ok:
  assumes "search_ok f start end_t pos half_step g" and "next_guess end_t g = Some (t, g')"
  shows "search_ok f start end_t pos half_step g' \<and> g_low_time g' \<le> t \<and> t \<le> g_high_time g' \<and>
    g_last_time g' = g_last_time g \<and> g_target g' = g_target g \<and> g_sdir g' = g_sdir g"
  using assms by (auto simp: search_defs on_grid_def next_guess_def Let_def split: if_splits)

lemma on_grid_turn:
  assumes "on_grid pos half_step g"
  shows "on_grid pos half_step (g\<lparr>g_sdir := (if g_sdir g \<noteq> 0 then 0 else 1),
    g_target := (if g_sdir g \<noteq> 0 then g_target g - half_step - half_step else g_target g + half_step + half_step)\<rparr>)"
  using assms by (auto simp: on_grid_def algebra_simps)

lemma on_grid_step:
  assumes "on_grid pos half_step g"
  shows "on_grid pos half_step (g\<lparr>g_target := (if g_sdir g \<noteq> 0 then g_target g + half_step + half_step else g_target g - half_step - half_step)\<rparr>)"
proof -
  obtain k where k: "g_target g = pos + (2 * real_of_int k + (if g_sdir g \<noteq> 0 then 1 else - 1)) * half_step"
    using assms by (auto simp: on_grid_def)
  show ?thesis unfolding on_grid_def
    by (rule exI [of _ "if g_sdir g \<noteq> 0 then k + 1 else k - 1"]) (simp add: k algebra_simps)
qed

lemma on_grid_cong: "g_target g = g_target g' \<Longrightarrow> g_sdir g = g_sdir g' \<Longrightarrow> on_grid pos half_step g = on_grid pos half_step g'"
  by (simp add: on_grid_def)

lemma update_bounds_ok:
  assumes "search_ok f start end_t pos half_step g" and "g_pos g = f (g_time g)" and "0 \<le> half_step"
    and "g_low_time g \<le> g_time g" and "g_time g \<le> g_high_time g"
  shows "search_ok f start end_t pos half_step (update_bounds half_step g) \<and>
    g_time (update_bounds half_step g) \<in> {g_low_time (update_bounds half_step g), g_high_time (update_bounds half_step g)} \<and>
    g_time (update_bounds half_step g) = g_time g \<and> g_last_time (update_bounds half_step g) = g_last_time g"
proof -
  have rel: "rel_dist g = past f g (g_time g)" using assms(2) by (simp add: rel_dist_def past_def)
  consider (beyond) "rel_dist g > 0" | (turn) "\<not> rel_dist g > 0" "rel_dist g < - (half_step + half_step + 10 * NANO)"
    | (short) "\<not> rel_dist g > 0" "\<not> rel_dist g < - (half_step + half_step + 10 * NANO)" by blast
  then show ?thesis
  proof cases
    case beyond
    have grid: "on_grid pos half_step (update_bounds half_step g)"
      using assms(1) beyond by (simp add: search_ok_def update_bounds_def on_grid_def Let_def)
    show ?thesis using assms(1,4,5) beyond grid rel by (auto simp: search_defs update_bounds_def Let_def)
  next
    case turn
    have grid: "on_grid pos half_step (update_bounds half_step g)"
      using on_grid_turn [of pos half_step g] assms(1) turn
      by (cases "g_sdir g = 0") (simp_all add: search_ok_def update_bounds_def on_grid_def Let_def)
    have "0 < past f (update_bounds half_step g) (g_time g)"
      using turn rel by (auto simp: past_def update_bounds_def Let_def split: if_splits)
    then show ?thesis using assms(1,4,5) turn grid by (auto simp: search_ok_def bounds_ok_def bracket_ok_def update_bounds_def Let_def)
  next
    case short
    have grid: "on_grid pos half_step (update_bounds half_step g)"
      using assms(1) short by (simp add: search_ok_def update_bounds_def on_grid_def)
    show ?thesis using assms(1,4,5) short grid rel by (auto simp: search_defs update_bounds_def)
  qed
qed

lemma judge_ok:
  assumes "search_ok f start end_t pos half_step g" and "next_guess end_t g = Some (t, g')" and "0 \<le> half_step"
    and "judge half_step (note_guess t (f t) g') = (g2, again)"
  shows "search_ok f start end_t pos half_step g2 \<and> g_time g2 = t \<and> g_last_time g2 = g_last_time g \<and>
    g_last_time g \<le> t \<and> t \<le> end_t \<and>
    (\<not> again \<longrightarrow> \<bar>f t - g_target g2\<bar> \<le> NANO \<or>
       g_have_bracket g2 \<and> g_high_time g2 - g_low_time g2 \<le> NANO \<and> t \<in> {g_low_time g2, g_high_time g2})"
proof -
  let ?g = "note_guess t (f t) g'"
  have n: "search_ok f start end_t pos half_step g'" "g_low_time g' \<le> t" "t \<le> g_high_time g'" "g_last_time g' = g_last_time g"
    using next_guess_ok [OF assms(1,2)] by auto
  have ok: "search_ok f start end_t pos half_step ?g" using n(1) by (auto simp: search_defs on_grid_def note_guess_def)
  have g: "g_pos ?g = f (g_time ?g)" "g_low_time ?g \<le> g_time ?g" "g_time ?g \<le> g_high_time ?g" "g_time ?g = t"
    "g_last_time ?g = g_last_time g" "g_target ?g = g_target g'"
    using n by (simp_all add: note_guess_def)
  have range: "g_last_time g \<le> t" "t \<le> end_t" using n by (auto simp: search_ok_def bounds_ok_def)
  show ?thesis
  proof (cases "\<bar>g_pos ?g - g_target ?g\<bar> > NANO")
    case True
    then have "g2 = update_bounds half_step ?g" "again = guess_again g2" using assms(4) by (auto simp: judge_def Let_def)
    with update_bounds_ok [OF ok g(1) assms(3) g(2,3)] g range show ?thesis by (auto simp: guess_again_def)
  next
    case False
    then have "g2 = ?g" using assms(4) by (simp add: judge_def)
    with ok g range False show ?thesis by auto
  qed
qed

lemma step_found_ok:
  assumes "search_ok f start end_t pos half_step g" and "g_last_time g \<le> g_time g" and "g_time g \<le> end_t"
  shows "search_ok f start end_t pos half_step (step_found end_t half_step g)"
proof -
  have "on_grid pos half_step (step_found end_t half_step g)"
    using on_grid_step [of pos half_step g] assms(1)
    by (cases "g_sdir g = 0") (simp_all add: search_ok_def step_found_def on_grid_def Let_def)
  with assms show ?thesis by (auto simp: search_defs step_found_def Let_def)
qed


section \<open>Properties\<close>

text \<open>The states of the loop of \<^verbatim>\<open>itersolve_gen_steps_range\<close> after any number of rounds.\<close>

inductive search_reach :: "sk_calc_callback \<Rightarrow> mref \<Rightarrow> real \<Rightarrow> real \<Rightarrow> search \<Rightarrow> itersolve \<Rightarrow> search \<Rightarrow> itersolve \<Rightarrow> bool"
  for calc r end_t half_step g0 s0 where
  reach_start: "search_reach calc r end_t half_step g0 s0 g0 s0"
| reach_round: "search_reach calc r end_t half_step g0 s0 g s \<Longrightarrow>
    search_round calc r end_t half_step g s = Some (Inr (Inl g'), s') \<Longrightarrow> search_reach calc r end_t half_step g0 s0 g' s'"

lemma with_sc_sk: "with_sc m s = Some (r, s') \<Longrightarrow> it_sk s' = it_sk s"
  by (auto simp: with_sc_def split: option.splits)

lemma search_round_next:
  assumes "search_round calc r end_t half_step g s = Some (Inr (Inl g'), s')"
    and "\<And>t. calc (sk_commanded_pos (it_sk s)) r t = Some (f t)"
  obtains t g1 g2 again where "next_guess end_t g = Some (t, g1)" "judge half_step (note_guess t (f t) g1) = (g2, again)"
    "g' = (if again then g2 else step_found end_t half_step g2)" "it_sk s' = it_sk s"
proof -
  obtain t g1 where n: "next_guess end_t g = Some (t, g1)"
    using assms(1) by (cases "next_guess end_t g") (auto simp: search_round_def prog_defs)
  obtain g2 again where j: "judge half_step (note_guess t (f t) g1) = (g2, again)" by fastforce
  have "g' = (if again then g2 else step_found end_t half_step g2) \<and> it_sk s' = it_sk s"
    using assms n j by (auto simp: search_round_def prog_defs Let_def split: option.splits sum.splits if_splits dest: with_sc_sk)
  with n j that show ?thesis by blast
qed

lemma search_reach_ok:
  assumes "search_reach calc r end_t half_step g0 s0 g s" and "\<And>t. calc pos r t = Some (f t)"
    and "pos = sk_commanded_pos (it_sk s0)" and "0 \<le> half_step" and "search_ok f start end_t pos half_step g0"
  shows "search_ok f start end_t pos half_step g \<and> it_sk s = it_sk s0"
  using assms(1)
proof induction
  case (reach_round g s g' s')
  obtain t g1 g2 again where "next_guess end_t g = Some (t, g1)" "judge half_step (note_guess t (f t) g1) = (g2, again)"
    "g' = (if again then g2 else step_found end_t half_step g2)" "it_sk s' = it_sk s"
    using search_round_next [OF reach_round.hyps(2), of f] assms(2,3) reach_round.IH by metis
  with judge_ok [of f start end_t pos half_step g t g1 g2 again] assms(4) step_found_ok reach_round.IH
  show ?case by (auto split: if_splits)
qed (use assms in simp)

lemma crossing:
  assumes "continuous_on UNIV f" and "low \<le> high" and "past f g low \<le> 0" and "0 < past f g high"
  shows "\<exists>x. low \<le> x \<and> x \<le> high \<and> f x = g_target g"
proof -
  have "continuous_on {low..high} f" using continuous_on_subset [OF assms(1)] by blast
  then show ?thesis
    using assms(2-4) IVT' [of f low "g_target g" high] IVT2' [of f high "g_target g" low]
    by (cases "g_sdir g \<noteq> 0") (auto simp: past_def)
qed




section \<open>Moves a stepper takes no part in\<close>

text \<open>The state of a search for steps of a stepper that stands still at \<open>pos\<close>.\<close>

definition rest_search :: "real \<Rightarrow> real \<Rightarrow> real \<Rightarrow> search \<Rightarrow> bool" where
  "rest_search pos half_step end_t g \<longleftrightarrow> g_last_time g \<le> g_time g \<and> g_pos g = pos \<and> g_old_pos g = pos \<and> \<not> g_have_bracket g \<and> \<not> g_is_dir_change g \<and>
     g_target g = pos + (if g_sdir g \<noteq> 0 then half_step else - half_step) \<and>
     (g_high_time g = end_t \<or> g_last_time g + SEEK_TIME_RESET \<le> g_high_time g)"

definition rest_rounds :: "real \<Rightarrow> search \<Rightarrow> nat" where
  "rest_rounds end_t g = (if g_time g \<ge> end_t then 0 else if g_high_time g \<ge> end_t then 1
     else 2 + nat \<lceil>(end_t - g_high_time g) / SEEK_TIME_RESET\<rceil>)"

lemma rest_start: "rest_search pos half_step end_t (search_start start end_t pos sdir half_step)"
  by (simp add: rest_search_def search_start_def)

lemma rest_round:
  assumes "rest_search pos half_step end_t g" and "NANO < half_step" and "g_time g < end_t"
  shows "\<exists>t g1 g2. next_guess end_t g = Some (t, g1) \<and> judge half_step (note_guess t pos g1) = (g2, True) \<and>
    rest_search pos half_step end_t g2 \<and> rest_rounds end_t g2 < rest_rounds end_t g"
proof -
  let ?high = "2 * g_high_time g - g_last_time g"
  let ?g1 = "g\<lparr>g_high_time := (if ?high > end_t then end_t else ?high)\<rparr>"
  let ?g2 = "(note_guess (g_high_time g) pos ?g1)\<lparr>g_low_time := g_high_time g\<rparr>"
  have n: "next_guess end_t g = Some (g_high_time g, ?g1)"
    using assms by (simp add: next_guess_def rest_search_def Let_def)
  have j: "judge half_step (note_guess (g_high_time g) pos ?g1) = (?g2, True)"
    using assms(1,2) by (auto simp: judge_def update_bounds_def rel_dist_def guess_again_def note_guess_def rest_search_def Let_def)
  have r: "rest_search pos half_step end_t ?g2"
    using assms(1,3) by (auto simp: rest_search_def note_guess_def)
  have "rest_rounds end_t ?g2 < rest_rounds end_t g"
  proof (cases "g_high_time g \<ge> end_t")
    case True
    then show ?thesis using assms(3) by (simp add: rest_rounds_def note_guess_def)
  next
    case False
    then have far: "g_last_time g + SEEK_TIME_RESET \<le> g_high_time g" using assms(1) by (simp add: rest_search_def)
    show ?thesis
    proof (cases "?high \<ge> end_t")
      case True
      then show ?thesis using False assms(3) by (auto simp: rest_rounds_def note_guess_def)
    next
      case high: False
      have "(end_t - ?high) / SEEK_TIME_RESET + 1 \<le> (end_t - g_high_time g) / SEEK_TIME_RESET" using far by (simp add: field_simps)
      from ceiling_mono [OF this]
      have "\<lceil>(end_t - ?high) / SEEK_TIME_RESET\<rceil> < \<lceil>(end_t - g_high_time g) / SEEK_TIME_RESET\<rceil>"
        unfolding ceiling_add_one by simp
      moreover have "0 < \<lceil>(end_t - g_high_time g) / SEEK_TIME_RESET\<rceil>" using False by simp
      ultimately show ?thesis using False high assms(3) by (simp add: rest_rounds_def note_guess_def)
    qed
  qed
  with n j r show ?thesis by blast
qed

lemma rest_end: "rest_search pos half_step end_t g \<Longrightarrow> \<not> g_time g < end_t \<Longrightarrow> next_guess end_t g = None"
  by (simp add: next_guess_def rest_search_def Let_def)

lemma commit_nothing:
  assumes "sc_next_step_clock (it_sc s) = 0"
  shows "wp (with_sc stepcompress_commit) Q E s = Q 0 s"
  using assms by (simp add: with_sc_def stepcompress_commit_def prog_defs wp_def)

lemma get_step_dir_wp: "wp (with_sc stepcompress_get_step_dir) Q E s = Q (sc_next_step_dir (it_sc s)) s"
  by (simp add: with_sc_def stepcompress_get_step_dir_def prog_defs wp_def)

context rest_law
begin

lemma search_rest:
  assumes "\<not> check_active sk m" and "sk_calc_position_cb sk = Some cb" and "cb pos (before, m, after) t0 = Some pos"
    and "it_sk s = sk" and "pos = sk_commanded_pos sk" and "NANO < half_step" and "sc_next_step_clock (it_sc s) = 0"
    and "rest_search pos half_step end_t g0"
  shows "wp (loopp (search_round cb (before, m, after) end_t half_step) g0)
    (\<lambda>r s'. fst r = None \<and> s' = s \<and> rest_search pos half_step end_t (snd r)) E s"
proof (rule wp_loopp [where I = "\<lambda>g s'. s' = s \<and> rest_search pos half_step end_t g" and m = "\<lambda>g _. rest_rounds end_t g"])
  have calc: "cb pos (before, m, after) t = Some pos" for t using quiet [OF assms(1,2), of pos before after t t0] assms(3) by simp
  fix g s'
  assume I: "s' = s \<and> rest_search pos half_step end_t g"
  show "wp (search_round cb (before, m, after) end_t half_step g)
      (\<lambda>r s''. case r of Inl g' \<Rightarrow> (s'' = s \<and> rest_search pos half_step end_t g') \<and> rest_rounds end_t g' < rest_rounds end_t g
        | Inr b \<Rightarrow> fst b = None \<and> s'' = s \<and> rest_search pos half_step end_t (snd b)) E s'"
  proof (cases "g_time g < end_t")
    case True
    then obtain t g1 g2 where "next_guess end_t g = Some (t, g1)" "judge half_step (note_guess t pos g1) = (g2, True)"
      "rest_search pos half_step end_t g2" "rest_rounds end_t g2 < rest_rounds end_t g"
      using rest_round I assms(6) by blast
    with I calc assms(4,5,7) show ?thesis by (simp add: search_round_def wp_simps commit_nothing)
  next
    case False
    with I rest_end [of pos half_step end_t g] show ?thesis by (simp add: search_round_def wp_simps)
  qed
qed (use assms(8) in simp)

lemma gen_steps_rest:
  assumes "\<not> check_active sk m" and "sk_calc_position_cb sk = Some cb" and "cb pos (before, m, after) t0 = Some pos"
    and "it_sk s = sk" and "pos = sk_commanded_pos sk" and "2 * NANO < sk_step_dist sk" and "sc_next_step_clock (it_sc s) = 0"
  shows "wp (itersolve_gen_steps_range (before, m, after) abs_start abs_end)
    (\<lambda>c s'. c = 0 \<and> s' = s\<lparr>it_sk := sk\<lparr>sk_commanded_pos := (case sk_post_cb sk of None \<Rightarrow> pos | Some f \<Rightarrow> f pos)\<rparr>\<rparr>) E s"
proof -
  have half: "NANO < sk_step_dist sk / 2" using assms(6) by simp
  show ?thesis
    unfolding itersolve_gen_steps_range_def
    apply (simp add: wp_simps get_step_dir_wp assms(2,4) assms(5) [symmetric] split del: if_split)
    apply (rule wp_mono [OF search_rest [OF assms(1-5) half assms(7) rest_start]])
     apply (auto simp: wp_simps upd_sk_def rest_search_def assms(4) assms(5) [symmetric] split: option.splits prod.splits)
    done
qed

end

lemma rest_law_cong:
  assumes "rest_law sk0" and "sk_active_flags sk = sk_active_flags sk0" and "sk_calc_position_cb sk = sk_calc_position_cb sk0"
  shows "rest_law sk"
proof
  fix m cb pos before after t t'
  assume "\<not> check_active sk m" and "sk_calc_position_cb sk = Some cb"
  then show "cb pos (before, m, after) t = cb pos (before, m, after) t'"
    using rest_law.quiet [OF assms(1)] assms(2,3) by (simp add: check_active_def)
qed

text \<open>
  A move that moves none of the axes of a stepper makes no steps for it: for the stepper of every
  kinematics that stands at its commanded position with no step pending, the step generation for such
  a move, over any time range, ends with success, leaves the step compression untouched and the
  commanded position unchanged, up to the normalisation of a polar angle.
\<close>

lemma inactive_move_no_steps:
  assumes "machine_stepper sk0" and "sk_active_flags (it_sk s) = sk_active_flags sk0"
    and "sk_calc_position_cb (it_sk s) = sk_calc_position_cb sk0" and "sk_calc_position_cb sk0 = Some cb"
    and "\<not> check_active (it_sk s) m"
    and "cb (sk_commanded_pos (it_sk s)) (before, m, after) 0 = Some (sk_commanded_pos (it_sk s))"
    and "2 * NANO < sk_step_dist (it_sk s)" and "sc_next_step_clock (it_sc s) = 0"
  shows "wp (itersolve_gen_steps_range (before, m, after) abs_start abs_end)
    (\<lambda>c s'. c = 0 \<and> it_sc s' = it_sc s \<and>
       sk_commanded_pos (it_sk s') =
         (case sk_post_cb (it_sk s) of None \<Rightarrow> sk_commanded_pos (it_sk s) | Some f \<Rightarrow> f (sk_commanded_pos (it_sk s))))
    (\<lambda>_ _. False) s"
proof -
  have cb: "sk_calc_position_cb (it_sk s) = Some cb" using assms(3,4) by simp
  from rest_law.gen_steps_rest [OF rest_law_cong [OF machine_stepper_rest [OF assms(1)] assms(2,3)] assms(5) cb assms(6) refl refl assms(7,8)]
  show ?thesis by (rule wp_mono) simp_all
qed

end
