(* ===== verification/Serialqueue.thy ===== *)
theory Serialqueue
  imports Msgblock
begin

text \<open>
  The host's serial transport, \<^verbatim>\<open>klippy/chelper/serialqueue.c\<close>: commands wait in queues until
  their time comes, are packed into blocks, sent with a window of unacknowledged blocks, and sent
  again when an acknowledgement is missing.

  Every function holds the lock while it touches the state, so each is one step.  A command queue is
  a number, its contents are looked up in \<open>sq_cqs\<close>.  The two timers of the poll reactor
  and the blocks handed to \<^verbatim>\<open>write\<close> are part of the state; what \<^verbatim>\<open>read\<close> and the clock
  return are arguments.  The valid part of \<^verbatim>\<open>input_buf\<close> is a list.  Byte counts of type
  \<^verbatim>\<open>int\<close> are integers without a bound, sequence numbers are 64-bit words, floating point numbers
  are real numbers.  Waking the receiving thread and freeing memory have no counterpart, nor does
  the content of error reports.
\<close>

section \<open>State\<close>

record command_queue =
  cq_stalled :: "queue_message list"
  cq_ready :: "queue_message list"

record fastreader =
  fr_func :: nat
  fr_prefix :: "u8 list"

record serialqueue =
  sq_serial_fd_type :: char
  sq_client_id :: u32
  sq_input_buf :: "u8 list"
  sq_need_sync :: u8
  sq_receive_window :: int
  sq_bittime_adjust :: real
  sq_idle_time :: real
  sq_ce :: clock_estimate
  sq_last_receive_sent_time :: real
  sq_send_seq :: u64
  sq_receive_seq :: u64
  sq_ignore_nak_seq :: u64
  sq_last_ack_seq :: u64
  sq_retransmit_seq :: u64
  sq_rtt_sample_seq :: u64
  sq_sent_queue :: "queue_message list"
  sq_srtt :: real
  sq_rttvar :: real
  sq_rto :: real
  sq_pending_queues :: "nat list"
  sq_cqs :: "nat \<Rightarrow> command_queue"
  sq_ready_bytes :: int
  sq_stalled_bytes :: int
  sq_need_ack_bytes :: int
  sq_last_ack_bytes :: int
  sq_need_kick_clock :: u64
  sq_notify_queue :: "queue_message list"
  sq_receive_queue :: "queue_message list"
  sq_fast_readers :: "fastreader list"
  sq_old_sent :: "queue_message list"
  sq_old_receive :: "queue_message list"
  sq_bytes_write :: u32
  sq_bytes_read :: u32
  sq_bytes_retransmit :: u32
  sq_bytes_invalid :: u32
  sq_retransmit_timer :: real
  sq_command_timer :: real
  sq_written :: "u8 list list"

abbreviation SQT_UART :: char where "SQT_UART \<equiv> CHR ''u''"
abbreviation SQT_CAN :: char where "SQT_CAN \<equiv> CHR ''c''"
abbreviation SQT_DEBUGFILE :: char where "SQT_DEBUGFILE \<equiv> CHR ''f''"
abbreviation PR_NOW :: real where "PR_NOW \<equiv> 0"
abbreviation PR_NEVER :: real where "PR_NEVER \<equiv> 9999999999999999"
abbreviation MIN_RTO :: real where "MIN_RTO \<equiv> 25 / 1000"
abbreviation MAX_RTO :: real where "MAX_RTO \<equiv> 5"
abbreviation MAX_PENDING_BLOCKS :: nat where "MAX_PENDING_BLOCKS \<equiv> 12"
abbreviation MIN_REQTIME_DELTA :: real where "MIN_REQTIME_DELTA \<equiv> 250 / 1000"
abbreviation MIN_BACKGROUND_DELTA :: real where "MIN_BACKGROUND_DELTA \<equiv> 5 / 1000"
abbreviation SQ_MAX_CLOCK :: u64 where "SQ_MAX_CLOCK \<equiv> 0x7fffffffffffffff"
abbreviation BACKGROUND_PRIORITY_CLOCK :: u64 where "BACKGROUND_PRIORITY_CLOCK \<equiv> 0x7fffffff00000000"

section \<open>Helpers\<close>

definition debug_queue_add :: "queue_message list \<Rightarrow> queue_message \<Rightarrow> queue_message list" where
  "debug_queue_add messages qm = tl (messages @ [qm])"

text \<open>The bits of a number of bytes on the wire, for a CAN bus with its packet overhead.\<close>

definition calculate_bittime :: "serialqueue \<Rightarrow> u32 \<Rightarrow> real" where
  "calculate_bittime s bytes =
     (if sq_serial_fd_type s = SQT_CAN then
        let pkts = (bytes + 7) div 8; bits = bytes * 8 + pkts * (1 + 11 + 3 + 4 + (16 + 2 + 7 + 3)) - 4
        in sq_bittime_adjust s * real (unat bits)
      else sq_bittime_adjust s * real (unat bytes))"

section \<open>Acknowledgements\<close>

text \<open>The loop that removes acknowledged blocks from the sent queue.\<close>

fun remove_sent :: "u64 \<Rightarrow> u64 \<Rightarrow> queue_message list \<Rightarrow> serialqueue \<Rightarrow> serialqueue" where
  "remove_sent rseq sent_seq [] s = s\<lparr>sq_sent_queue := [], sq_send_seq := rseq, sq_last_receive_sent_time := 0\<rparr>"
| "remove_sent rseq sent_seq (sent # rest) s =
     (let s = s\<lparr>sq_need_ack_bytes := sq_need_ack_bytes s - int (qm_len sent), sq_sent_queue := rest,
                  sq_old_sent := debug_queue_add (sq_old_sent s) sent\<rparr>
      in if rseq = sent_seq + 1 then
           s\<lparr>sq_last_receive_sent_time := qm_receive_time sent, sq_last_ack_bytes := int (qm_len sent)\<rparr>
         else remove_sent rseq (sent_seq + 1) rest s)"

definition update_rtt :: "real \<Rightarrow> serialqueue \<Rightarrow> serialqueue" where
  "update_rtt eventtime s =
     (let delta = eventtime - sq_last_receive_sent_time s;
          (rttvar, srtt) =
            (if sq_srtt s = 0 then (delta / 2, delta * 10)
             else ((3 * sq_rttvar s + \<bar>sq_srtt s - delta\<bar>) / 4, (7 * sq_srtt s + delta) / 8));
          rttvar4 = (if rttvar * 4 < 1 / 1000 then 1 / 1000 else rttvar * 4);
          rto = srtt + rttvar4
      in s\<lparr>sq_rttvar := rttvar, sq_srtt := srtt,
            sq_rto := (if rto < MIN_RTO then MIN_RTO else if rto > MAX_RTO then MAX_RTO else rto),
            sq_rtt_sample_seq := 0\<rparr>)"

definition update_receive_seq :: "real \<Rightarrow> u64 \<Rightarrow> serialqueue \<Rightarrow> serialqueue" where
  "update_receive_seq eventtime rseq s =
     (let s = remove_sent rseq (sq_receive_seq s) (sq_sent_queue s) s;
          s = s\<lparr>sq_receive_seq := rseq, sq_command_timer := PR_NOW\<rparr>;
          s = (if sq_rtt_sample_seq s \<noteq> 0 \<and> rseq > sq_rtt_sample_seq s \<and> sq_last_receive_sent_time s \<noteq> 0
                then update_rtt eventtime s else s)
      in case sq_sent_queue s of
           [] \<Rightarrow> s\<lparr>sq_retransmit_timer := PR_NEVER\<rparr>
         | sent # _ \<Rightarrow> s\<lparr>sq_retransmit_timer := eventtime + sq_rto s + calculate_bittime s (of_nat (qm_len sent))\<rparr>)"

section \<open>Incoming messages\<close>

text \<open>The 64-bit sequence number of an incoming block, from its low four bits.\<close>

definition message_rseq :: "serialqueue \<Rightarrow> u8 list \<Rightarrow> u64" where
  "message_rseq s block =
     (let rseq = (sq_receive_seq s AND NOT (ucast MESSAGE_SEQ_MASK)) OR ucast (block ! MESSAGE_POS_SEQ AND MESSAGE_SEQ_MASK)
      in if rseq < sq_receive_seq s then rseq + ucast MESSAGE_SEQ_MASK + 1 else rseq)"

fun take_notify :: "u64 \<Rightarrow> real \<Rightarrow> real \<Rightarrow> queue_message list \<Rightarrow> queue_message list \<times> queue_message list" where
  "take_notify wake_seq sent_time eventtime [] = ([], [])"
| "take_notify wake_seq sent_time eventtime (qm # qms) =
     (if qm_req_clock qm > wake_seq then ([], qm # qms)
      else
        let (acked, left) = take_notify wake_seq sent_time eventtime qms
        in (qm\<lparr>qm_len := 0, qm_sent_time := sent_time, qm_receive_time := eventtime\<rparr> # acked, left))"

definition process_message :: "real \<Rightarrow> u64 \<Rightarrow> u8 list \<Rightarrow> serialqueue \<Rightarrow> serialqueue" where
  "process_message now rseq block s =
     (if length block = MESSAGE_MIN then
        (if sq_last_ack_seq s < rseq then s\<lparr>sq_last_ack_seq := rseq\<rparr>
         else if rseq > sq_ignore_nak_seq s \<and> sq_sent_queue s \<noteq> [] then s\<lparr>sq_retransmit_timer := PR_NOW\<rparr>
         else s)
      else
        let qm = (message_fill block)\<lparr>
              qm_sent_time := (if rseq > sq_retransmit_seq s then sq_last_receive_sent_time s else 0),
              qm_receive_time := now - calculate_bittime s (of_nat (length block))\<rparr>
        in s\<lparr>sq_receive_queue := sq_receive_queue s @ [qm]\<rparr>)"

text \<open>
  \<^verbatim>\<open>handle_message\<close>: \<open>block\<close> is the message at the start of the input buffer, \<open>now\<close> what
  \<^verbatim>\<open>get_monotonic\<close> returns.  The result names the fast reader that is called, after the lock has
  been released, with the block.
\<close>

definition handle_message :: "real \<Rightarrow> real \<Rightarrow> u8 list \<Rightarrow> serialqueue \<Rightarrow> fastreader option \<times> serialqueue" where
  "handle_message eventtime now block s =
     (let rseq = message_rseq s block
      in if rseq \<noteq> sq_receive_seq s \<and> rseq > sq_send_seq s \<and> sq_receive_seq s \<noteq> 1 then
           (None, s\<lparr>sq_bytes_invalid := sq_bytes_invalid s + of_nat (length block)\<rparr>)
         else
           let s = (if rseq \<noteq> sq_receive_seq s then update_receive_seq eventtime rseq s else s);
               s = s\<lparr>sq_bytes_read := sq_bytes_read s + of_nat (length block)\<rparr>;
               wake_seq = rseq - 1 - (if length block > MESSAGE_MIN then 1 else 0);
               (acked, left) = take_notify wake_seq (sq_last_receive_sent_time s) eventtime (sq_notify_queue s);
               s = s\<lparr>sq_notify_queue := left, sq_receive_queue := sq_receive_queue s @ acked\<rparr>;
               s = process_message now rseq block s;
               matches = (\<lambda>fr. length block \<ge> length (fr_prefix fr) + MESSAGE_MIN \<and>
                            take (length (fr_prefix fr)) (drop MESSAGE_HEADER_SIZE block) = fr_prefix fr)
           in (find matches (sq_fast_readers s), s))"

text \<open>
  The loop of \<^verbatim>\<open>input_event\<close> over the buffered bytes.  \<open>fast\<close> stands for the functions
  of the fast readers.
\<close>

definition input_round ::
    "(nat \<Rightarrow> u8 list \<Rightarrow> (serialqueue, unit) prog) \<Rightarrow> real \<Rightarrow> real \<Rightarrow> unit \<Rightarrow> (serialqueue, unit + unit) prog" where
  "input_round fast eventtime now _ =
     bnd (gets (\<lambda>s. msgblock_check (sq_need_sync s) (sq_input_buf s) (length (sq_input_buf s)))) (\<lambda>(len, need_sync).
     sq (upd (\<lambda>s. s\<lparr>sq_need_sync := need_sync\<rparr>))
     (if len = 0 then ret (Inr ())
      else
        sq (if len > 0 then
              bnd (gets (\<lambda>s. take (nat len) (sq_input_buf s))) (\<lambda>block.
              bnd (gets (\<lambda>s. fst (handle_message eventtime now block s))) (\<lambda>fr.
              sq (upd (\<lambda>s. snd (handle_message eventtime now block s)))
              (case fr of None \<Rightarrow> ret () | Some fr \<Rightarrow> fast (fr_func fr) block)))
            else upd (\<lambda>s. s\<lparr>sq_bytes_invalid := sq_bytes_invalid s + of_int (- len)\<rparr>))
        (sq (upd (\<lambda>s. s\<lparr>sq_input_buf := drop (nat \<bar>len\<bar>) (sq_input_buf s)\<rparr>))
        (ret (Inl ())))))"

text \<open>\<open>data\<close> is what was read, for a CAN bus the identifier and the data of a frame.\<close>

definition input_event ::
    "(nat \<Rightarrow> u8 list \<Rightarrow> (serialqueue, unit) prog) \<Rightarrow> real \<Rightarrow> real \<Rightarrow> u32 \<Rightarrow> u8 list \<Rightarrow> (serialqueue, unit) prog" where
  "input_event fast eventtime now can_id data =
     bnd (gets (\<lambda>s. sq_serial_fd_type s = SQT_CAN \<and> can_id \<noteq> sq_client_id s + 1)) (\<lambda>other.
     if other then ret ()
     else
       bnd (gets (\<lambda>s. length (sq_input_buf s) + length data > 4096)) (\<lambda>over.
       if over then stuck
       else
         sq (upd (\<lambda>s. s\<lparr>sq_input_buf := sq_input_buf s @ data\<rparr>))
         (loopp (input_round fast eventtime now) ())))"

definition kick_event :: "serialqueue \<Rightarrow> serialqueue" where
  "kick_event s = s\<lparr>sq_command_timer := PR_NOW\<rparr>"

section \<open>Outgoing blocks\<close>

text \<open>The bytes for one call of \<^verbatim>\<open>write\<close>: all of them, or a CAN frame of at most eight.\<close>

fun can_frames :: "nat \<Rightarrow> u8 list \<Rightarrow> u8 list list" where
  "can_frames n [] = []"
| "can_frames 0 bs = []"
| "can_frames (Suc n) bs = take 8 bs # can_frames n (drop 8 bs)"

definition do_write :: "u8 list \<Rightarrow> serialqueue \<Rightarrow> serialqueue" where
  "do_write buf s =
     s\<lparr>sq_written := sq_written s @ (if sq_serial_fd_type s \<noteq> SQT_CAN then [buf] else can_frames (length buf) buf)\<rparr>"

definition retransmit_event :: "real \<Rightarrow> (serialqueue, real) prog" where
  "retransmit_event eventtime =
     bnd (gets (\<lambda>s. MESSAGE_SYNC # concat (map qm_bytes (sq_sent_queue s)))) (\<lambda>buf.
     if length buf > MESSAGE_MAX * MAX_PENDING_BLOCKS + 1 then stuck
     else
       bnd (gets (\<lambda>s. case sq_sent_queue s of [] \<Rightarrow> 0 | qm # _ \<Rightarrow> qm_len qm + 1)) (\<lambda>first_buflen.
       sq (upd (\<lambda>s. (do_write buf s)\<lparr>sq_bytes_retransmit := sq_bytes_retransmit s + of_nat (length buf)\<rparr>))
       (sq (upd (\<lambda>s.
              if sq_retransmit_timer s = PR_NOW then
                s\<lparr>sq_ignore_nak_seq := (if sq_receive_seq s < sq_retransmit_seq s then sq_retransmit_seq s else sq_receive_seq s)\<rparr>
              else
                s\<lparr>sq_rto := (if sq_rto s * 2 > MAX_RTO then MAX_RTO else sq_rto s * 2), sq_ignore_nak_seq := sq_send_seq s\<rparr>))
       (sq (upd (\<lambda>s. s\<lparr>sq_retransmit_seq := sq_send_seq s, sq_rtt_sample_seq := 0,
                  sq_idle_time := eventtime + calculate_bittime s (of_nat (length buf))\<rparr>))
       (gets (\<lambda>s. eventtime + sq_rto s + calculate_bittime s (of_nat first_buflen)))))))"

text \<open>The queue whose first ready message has the lowest \<^verbatim>\<open>req_clock\<close>, the earliest of equals.\<close>

fun find_message :: "(nat \<Rightarrow> command_queue) \<Rightarrow> nat list \<Rightarrow> u64 \<Rightarrow> (nat \<times> queue_message) option \<Rightarrow> (nat \<times> queue_message) option" where
  "find_message cqs [] min_clock found = found"
| "find_message cqs (q # qs) min_clock found =
     (case cq_ready (cqs q) of
        [] \<Rightarrow> find_message cqs qs min_clock found
      | m # _ \<Rightarrow>
          if qm_req_clock m < min_clock then find_message cqs qs (qm_req_clock m) (Some (q, m))
          else find_message cqs qs min_clock found)"

definition unqueue_message :: "nat \<Rightarrow> queue_message \<Rightarrow> serialqueue \<Rightarrow> serialqueue" where
  "unqueue_message q qm s =
     (let cq = (sq_cqs s q)\<lparr>cq_ready := tl (cq_ready (sq_cqs s q))\<rparr>;
          pending = (if cq_ready cq = [] \<and> cq_stalled cq = [] then remove1 q (sq_pending_queues s) else sq_pending_queues s);
          notify = (if qm_notify_id qm \<noteq> 0 then [qm\<lparr>qm_req_clock := sq_send_seq s\<rparr>] else [])
      in s\<lparr>sq_cqs := (sq_cqs s)(q := cq), sq_pending_queues := pending,
            sq_ready_bytes := sq_ready_bytes s - int (qm_len qm), sq_notify_queue := sq_notify_queue s @ notify\<rparr>)"

definition pack_round :: "u8 list \<Rightarrow> (serialqueue, u8 list + u8 list) prog" where
  "pack_round payload =
     bnd (gets sq_ready_bytes) (\<lambda>ready_bytes.
     if ready_bytes = 0 then ret (Inr payload)
     else
       bnd (gets (\<lambda>s. find_message (sq_cqs s) (sq_pending_queues s) SQ_MAX_CLOCK None)) (\<lambda>found.
       bnd (deref found) (\<lambda>(q, qm).
       if MESSAGE_HEADER_SIZE + length payload + qm_len qm > MESSAGE_MAX - MESSAGE_TRAILER_SIZE then ret (Inr payload)
       else sq (upd (unqueue_message q qm)) (ret (Inl (payload @ qm_bytes qm))))))"

definition frame_block :: "u64 \<Rightarrow> u8 list \<Rightarrow> u8 list" where
  "frame_block send_seq payload =
     (let len = MESSAGE_HEADER_SIZE + length payload + MESSAGE_TRAILER_SIZE;
          header = [of_nat len, MESSAGE_DEST OR ucast (send_seq AND ucast MESSAGE_SEQ_MASK)];
          crc = msgblock_crc16_ccitt (header @ payload)
      in header @ payload @ [ucast (drop_bit 8 crc), ucast (crc AND 0xff), MESSAGE_SYNC])"

definition store_block :: "nat \<Rightarrow> real \<Rightarrow> u8 list \<Rightarrow> serialqueue \<Rightarrow> serialqueue" where
  "store_block pending eventtime block s =
     (let idletime = (if eventtime > sq_idle_time s then eventtime else sq_idle_time s)
            + calculate_bittime s (of_nat (pending + length block));
          out = (message_fill block)\<lparr>qm_sent_time := eventtime, qm_receive_time := idletime\<rparr>;
          s = (if sq_sent_queue s = [] then s\<lparr>sq_retransmit_timer := idletime + sq_rto s\<rparr> else s);
          s = (if sq_rtt_sample_seq s = 0 then s\<lparr>sq_rtt_sample_seq := sq_send_seq s\<rparr> else s)
      in s\<lparr>sq_send_seq := sq_send_seq s + 1, sq_need_ack_bytes := sq_need_ack_bytes s + int (length block),
            sq_sent_queue := sq_sent_queue s @ [out]\<rparr>)"

definition build_and_send_command :: "nat \<Rightarrow> real \<Rightarrow> (serialqueue, u8 list) prog" where
  "build_and_send_command pending eventtime =
     bnd (loopp pack_round []) (\<lambda>payload.
     bnd (gets (\<lambda>s. frame_block (sq_send_seq s) payload)) (\<lambda>block.
     sq (upd (store_block pending eventtime block)) (ret block)))"

text \<open>Moves the stalled messages of one queue that are due and updates the two minima.\<close>

definition release_queue :: "real \<Rightarrow> u64 \<Rightarrow> nat \<Rightarrow> serialqueue \<times> u64 \<times> u64 \<Rightarrow> serialqueue \<times> u64 \<times> u64" where
  "release_queue bgtime ack_clock q = (\<lambda>(s, min_stalled_clock, min_ready_clock).
     let cq = sq_cqs s q;
         due = takeWhile (\<lambda>qm. \<not> ack_clock < qm_min_clock qm) (cq_stalled cq);
         left = dropWhile (\<lambda>qm. \<not> ack_clock < qm_min_clock qm) (cq_stalled cq);
         ready = cq_ready cq @ due;
         bytes = sum_list (map (\<lambda>qm. int (qm_len qm)) due);
         s = s\<lparr>sq_cqs := (sq_cqs s)(q := \<lparr>cq_stalled = left, cq_ready = ready\<rparr>),
                 sq_stalled_bytes := sq_stalled_bytes s - bytes, sq_ready_bytes := sq_ready_bytes s + bytes\<rparr>;
         min_stalled_clock =
           (case left of [] \<Rightarrow> min_stalled_clock
            | qm # _ \<Rightarrow> if qm_min_clock qm < min_stalled_clock then qm_min_clock qm else min_stalled_clock);
         min_ready_clock =
           (case ready of [] \<Rightarrow> min_ready_clock
            | qm # _ \<Rightarrow>
                let bgoffset = MIN_REQTIME_DELTA + MIN_BACKGROUND_DELTA;
                    req_clock = (if qm_req_clock qm = BACKGROUND_PRIORITY_CLOCK then clock_from_time (sq_ce s) (bgtime + bgoffset)
                                 else qm_req_clock qm)
                in if req_clock < min_ready_clock then req_clock else min_ready_clock)
     in (s, min_stalled_clock, min_ready_clock))"

definition must_wait :: "serialqueue \<Rightarrow> bool" where
  "must_wait s \<longleftrightarrow>
     sq_send_seq s - sq_receive_seq s \<ge> of_nat MAX_PENDING_BLOCKS \<and> sq_receive_seq s \<noteq> - 1 \<or>
     sq_send_seq s > sq_receive_seq s \<and> sq_receive_window s \<noteq> 0 \<and>
       sq_need_ack_bytes s + int MESSAGE_MAX + (if sq_last_ack_seq s < sq_receive_seq s then sq_last_ack_bytes s else 0)
         > sq_receive_window s"

definition check_send_command :: "nat \<Rightarrow> real \<Rightarrow> serialqueue \<Rightarrow> real \<times> serialqueue" where
  "check_send_command pending eventtime s =
     (if must_wait s then (PR_NEVER, s)
      else
        let idletime = (if eventtime > sq_idle_time s then eventtime else sq_idle_time s)
              + calculate_bittime s (of_nat (pending + MESSAGE_MIN));
            ack_clock = clock_from_time (sq_ce s) idletime;
            bgtime = (if pending \<noteq> 0 then idletime else sq_idle_time s);
            (s, min_stalled_clock, min_ready_clock) =
              fold (release_queue bgtime ack_clock) (sq_pending_queues s) (s, SQ_MAX_CLOCK, SQ_MAX_CLOCK)
        in if sq_ready_bytes s \<ge> int MESSAGE_PAYLOAD_MAX then (PR_NOW, s)
           else if ce_est_freq (sq_ce s) = 0 then
             (if sq_ready_bytes s \<noteq> 0 then (PR_NOW, s) else (PR_NEVER, s\<lparr>sq_need_kick_clock := SQ_MAX_CLOCK\<rparr>))
           else
             let reqclock_delta = word_of_int (trunc_real (MIN_REQTIME_DELTA * ce_est_freq (sq_ce s)))
             in if min_ready_clock \<le> ack_clock + reqclock_delta then (PR_NOW, s)
                else
                  let wantclock = min_ready_clock - reqclock_delta;
                      wantclock = (if min_stalled_clock < wantclock then min_stalled_clock else wantclock)
                  in (idletime + real (unat (wantclock - ack_clock)) / ce_est_freq (sq_ce s), s\<lparr>sq_need_kick_clock := wantclock\<rparr>))"

definition write_blocks :: "real \<Rightarrow> u8 list \<Rightarrow> serialqueue \<Rightarrow> serialqueue" where
  "write_blocks eventtime buf s =
     (let s = (do_write buf s)\<lparr>sq_bytes_write := sq_bytes_write s + of_nat (length buf)\<rparr>;
          idletime = (if eventtime > sq_idle_time s then eventtime else sq_idle_time s)
      in s\<lparr>sq_idle_time := idletime + calculate_bittime s (of_nat (length buf))\<rparr>)"

definition command_round :: "real \<Rightarrow> u8 list \<Rightarrow> (serialqueue, u8 list + real) prog" where
  "command_round eventtime buf =
     bnd (gets (\<lambda>s. fst (check_send_command (length buf) eventtime s))) (\<lambda>waketime.
     sq (upd (\<lambda>s. snd (check_send_command (length buf) eventtime s)))
     (let flush = (waketime \<noteq> PR_NOW \<or> length buf + MESSAGE_MAX > MESSAGE_MAX * MAX_PENDING_BLOCKS);
          buf' = (if flush then [] else buf)
      in sq (whenp (flush \<and> buf \<noteq> []) (upd (write_blocks eventtime buf)))
         (if waketime \<noteq> PR_NOW then ret (Inr waketime)
          else
            bnd (build_and_send_command (length buf') eventtime) (\<lambda>block.
            if length buf' + length block > MESSAGE_MAX * MAX_PENDING_BLOCKS then stuck
            else ret (Inl (buf' @ block))))))"

definition command_event :: "real \<Rightarrow> (serialqueue, real) prog" where
  "command_event eventtime = loopp (command_round eventtime) []"

section \<open>Interface functions\<close>

definition serialqueue_alloc :: "char \<Rightarrow> u32 \<Rightarrow> serialqueue" where
  "serialqueue_alloc serial_fd_type client_id =
     \<lparr>sq_serial_fd_type = serial_fd_type, sq_client_id = client_id, sq_input_buf = [], sq_need_sync = 0,
      sq_receive_window = 0, sq_bittime_adjust = 0, sq_idle_time = 0,
      sq_ce = \<lparr>ce_last_clock = 0, ce_conv_clock = 0, ce_conv_time = 0, ce_est_freq = 0\<rparr>,
      sq_last_receive_sent_time = 0, sq_send_seq = 1,
      sq_receive_seq = (if serial_fd_type = SQT_DEBUGFILE then - 1 else 1),
      sq_ignore_nak_seq = 0, sq_last_ack_seq = 0, sq_retransmit_seq = 0, sq_rtt_sample_seq = 0,
      sq_sent_queue = [], sq_srtt = 0, sq_rttvar = 0,
      sq_rto = (if serial_fd_type = SQT_DEBUGFILE then PR_NEVER else MIN_RTO),
      sq_pending_queues = [], sq_cqs = (\<lambda>_. \<lparr>cq_stalled = [], cq_ready = []\<rparr>),
      sq_ready_bytes = 0, sq_stalled_bytes = 0, sq_need_ack_bytes = 0, sq_last_ack_bytes = 0,
      sq_need_kick_clock = SQ_MAX_CLOCK, sq_notify_queue = [], sq_receive_queue = [], sq_fast_readers = [],
      sq_old_sent = replicate 100 message_alloc, sq_old_receive = replicate 100 message_alloc,
      sq_bytes_write = 0, sq_bytes_read = 0, sq_bytes_retransmit = 0, sq_bytes_invalid = 0,
      sq_retransmit_timer = PR_NEVER, sq_command_timer = PR_NEVER, sq_written = []\<rparr>"

definition serialqueue_add_fastreader :: "fastreader \<Rightarrow> serialqueue \<Rightarrow> serialqueue" where
  "serialqueue_add_fastreader fr s = s\<lparr>sq_fast_readers := sq_fast_readers s @ [fr]\<rparr>"

definition serialqueue_rm_fastreader :: "fastreader \<Rightarrow> serialqueue \<Rightarrow> serialqueue" where
  "serialqueue_rm_fastreader fr s = s\<lparr>sq_fast_readers := remove1 fr (sq_fast_readers s)\<rparr>"

definition set_min_clock :: "queue_message \<Rightarrow> queue_message" where
  "set_min_clock qm =
     (if qm_min_clock qm + 2 ^ 31 < qm_req_clock qm \<and> qm_req_clock qm \<noteq> BACKGROUND_PRIORITY_CLOCK
      then qm\<lparr>qm_min_clock := qm_req_clock qm - 2 ^ 31\<rparr> else qm)"

text \<open>The result says whether the background thread is woken.\<close>

definition serialqueue_send_batch :: "nat \<Rightarrow> queue_message list \<Rightarrow> serialqueue \<Rightarrow> bool \<times> serialqueue" where
  "serialqueue_send_batch q msgs s =
     (let msgs = map set_min_clock msgs; len = sum_list (map (\<lambda>qm. int (qm_len qm)) msgs)
      in if len = 0 then (False, s)
         else
           let cq = sq_cqs s q;
               pending = (if cq_ready cq = [] \<and> cq_stalled cq = [] then sq_pending_queues s @ [q] else sq_pending_queues s);
               mustwake = (qm_min_clock (hd msgs) < sq_need_kick_clock s)
           in (mustwake,
               s\<lparr>sq_pending_queues := pending, sq_cqs := (sq_cqs s)(q := cq\<lparr>cq_stalled := cq_stalled cq @ msgs\<rparr>),
                  sq_stalled_bytes := sq_stalled_bytes s + len,
                  sq_need_kick_clock := (if mustwake then 0 else sq_need_kick_clock s)\<rparr>))"

definition serialqueue_send_one :: "nat \<Rightarrow> queue_message \<Rightarrow> serialqueue \<Rightarrow> bool \<times> serialqueue" where
  "serialqueue_send_one q qm = serialqueue_send_batch q [qm]"

definition serialqueue_send :: "nat \<Rightarrow> u8 list \<Rightarrow> u64 \<Rightarrow> u64 \<Rightarrow> u64 \<Rightarrow> serialqueue \<Rightarrow> bool \<times> serialqueue" where
  "serialqueue_send q msg min_clock req_clock notify_id =
     serialqueue_send_one q ((message_fill msg)\<lparr>qm_min_clock := min_clock, qm_req_clock := req_clock, qm_notify_id := notify_id\<rparr>)"

text \<open>A message for the caller; \<open>None\<close> when there is none yet and the caller waits.\<close>

definition serialqueue_pull :: "serialqueue \<Rightarrow> queue_message option \<times> serialqueue" where
  "serialqueue_pull s =
     (case sq_receive_queue s of
        [] \<Rightarrow> (None, s)
      | qm # rest \<Rightarrow>
          (Some qm, s\<lparr>sq_receive_queue := rest,
             sq_old_receive := (if qm_len qm \<noteq> 0 then debug_queue_add (sq_old_receive s) qm else sq_old_receive s)\<rparr>))"

definition serialqueue_set_wire_frequency :: "real \<Rightarrow> serialqueue \<Rightarrow> serialqueue" where
  "serialqueue_set_wire_frequency frequency s =
     s\<lparr>sq_bittime_adjust := (if sq_serial_fd_type s = SQT_CAN then 1 / frequency else 10 / frequency)\<rparr>"

definition serialqueue_set_receive_window :: "int \<Rightarrow> serialqueue \<Rightarrow> serialqueue" where
  "serialqueue_set_receive_window receive_window s = s\<lparr>sq_receive_window := receive_window\<rparr>"

definition serialqueue_set_clock_est :: "real \<Rightarrow> real \<Rightarrow> u64 \<Rightarrow> u64 \<Rightarrow> serialqueue \<Rightarrow> serialqueue" where
  "serialqueue_set_clock_est est_freq conv_time conv_clock last_clock s =
     s\<lparr>sq_ce := \<lparr>ce_last_clock = last_clock, ce_conv_clock = conv_clock, ce_conv_time = conv_time, ce_est_freq = est_freq\<rparr>\<rparr>"

definition serialqueue_get_clock_est :: "serialqueue \<Rightarrow> clock_estimate" where
  "serialqueue_get_clock_est s = sq_ce s"

definition serialqueue_extract_old :: "bool \<Rightarrow> nat \<Rightarrow> serialqueue \<Rightarrow> queue_message list \<times> serialqueue" where
  "serialqueue_extract_old sentq mx s =
     (let current = (if sentq then sq_old_sent s else sq_old_receive s);
          fresh = replicate 100 message_alloc
      in (take mx (filter (\<lambda>qm. qm_len qm \<noteq> 0) current),
          if sentq then s\<lparr>sq_old_sent := fresh\<rparr> else s\<lparr>sq_old_receive := fresh\<rparr>))"

end
