(* ===== verification/Serialqueue_correct.thy ===== *)
theory Serialqueue_correct
  imports Serialqueue
begin

text \<open>
  Correctness of the serial transport: 64-bit block numbers are recovered from four bits, the
  unacknowledged blocks are numbered without a gap and are at most twelve, the byte counts are
  exact, no buffer overflows and no empty list is dereferenced, every event ends, and commands
  leave their queues in order and unchanged.
\<close>

section \<open>Sequence numbers\<close>

text \<open>The sequence byte of the block with number \<open>n\<close>.\<close>

definition seq_byte :: "nat \<Rightarrow> u8" where
  "seq_byte n = MESSAGE_DEST OR of_nat (n mod 16)"

lemma mask_word: "(x :: 'a::len word) AND 15 = of_nat (unat x mod 16)"
proof -
  have "x AND 15 = take_bit 4 x" by (simp add: take_bit_eq_mask mask_eq_exp_minus_1)
  also have "\<dots> = of_nat (unat (take_bit 4 x))" by simp
  also have "unat (take_bit 4 x) = unat x mod 16" by (simp only: unsigned_take_bit_eq) (simp add: take_bit_eq_mod)
  finally show ?thesis .
qed

lemma seq_bytes:
  "list_all (\<lambda>k. (0x10 OR of_nat k :: u8) AND 15 = of_nat k \<and> ((0x10 OR of_nat k :: u8) AND NOT 15) = 0x10 \<and>
     next_seq_of (0x10 OR of_nat k) = 0x10 OR of_nat ((k + 1) mod 16) \<and>
     list_all (\<lambda>j. ((0x10 OR of_nat k :: u8) = 0x10 OR of_nat j) = (k = j)) [0..<16]) [0..<16]"
  by code_simp

lemma seq_byte_simps:
  "seq_byte n AND MESSAGE_SEQ_MASK = of_nat (n mod 16)"
  "seq_byte n AND NOT MESSAGE_SEQ_MASK = MESSAGE_DEST"
  "next_seq_of (seq_byte n) = seq_byte (n + 1)"
  "seq_byte n = seq_byte m \<longleftrightarrow> n mod 16 = m mod 16"
proof -
  have "n mod 16 \<in> set [0..<16]" "m mod 16 \<in> set [0..<16]" by simp_all
  with seq_bytes show "seq_byte n AND MESSAGE_SEQ_MASK = of_nat (n mod 16)" "seq_byte n AND NOT MESSAGE_SEQ_MASK = MESSAGE_DEST"
    "next_seq_of (seq_byte n) = seq_byte (n + 1)" "seq_byte n = seq_byte m \<longleftrightarrow> n mod 16 = m mod 16"
    unfolding list_all_iff seq_byte_def MESSAGE_DEST_def MESSAGE_SEQ_MASK_def by (fastforce simp: mod_simps)+
qed

lemma mask_disjoint: "(r AND NOT m) AND (n AND m) = (0 :: 'a::len word)"
  by (rule bit_eqI) (simp add: bit_simps)

lemma mask_split: "(r AND NOT m) + (r AND m) = (r :: 'a::len word)"
proof -
  have "(r AND NOT m) OR (r AND m) = r" by (rule bit_eqI) (auto simp: bit_simps)
  then show ?thesis by (subst disjunctive_add_eq_or) (rule mask_disjoint)
qed

lemma low_bits:
  fixes r :: u64
  shows "unat ((r AND NOT 15) OR of_nat (k mod 16)) = 16 * (unat r div 16) + k mod 16"
proof -
  let ?n = "of_nat (k mod 16) :: u64"
  have n: "?n AND 15 = ?n" by (simp add: mask_word unat_of_nat take_bit_eq_mod)
  have low: "unat (r AND 15) = unat r mod 16" by (simp add: mask_word unat_of_nat take_bit_eq_mod)
  have high: "unat (r AND NOT 15) = 16 * (unat r div 16)"
  proof -
    have "r AND NOT 15 = r - (r AND 15)" using mask_split [of r 15] by (simp only: eq_diff_eq)
    moreover have "r AND 15 \<le> r" using low by (simp add: word_le_nat_alt)
    ultimately have "unat (r AND NOT 15) = unat r - unat r mod 16" using low by (simp add: unat_sub)
    then show ?thesis by (simp add: minus_mod_eq_mult_div)
  qed
  have "(r AND NOT 15) AND ?n = 0" by (subst n [symmetric]) (rule mask_disjoint)
  then have "(r AND NOT 15) OR ?n = (r AND NOT 15) + ?n" by (simp only: disjunctive_add_eq_or)
  moreover have "unat ?n = k mod 16" by (simp add: unat_of_nat take_bit_eq_mod)
  moreover have "16 * (unat r div 16) + k mod 16 < 2 ^ 64"
  proof -
    have "unat r < 2 ^ LENGTH(64)" by (rule unsigned_less)
    then have "unat r div 16 < 1152921504606846976" by (simp add: less_mult_imp_div_less)
    moreover have "k mod 16 < 16" by simp
    ultimately have "16 * (unat r div 16) + k mod 16 < 18446744073709551616" by linarith
    then show ?thesis by simp
  qed
  ultimately show ?thesis using high unat_add_lem [of "r AND NOT 15" ?n] by simp
qed

lemma next_in_window:
  fixes r n :: nat
  assumes "r \<le> n" and "n \<le> r + 15"
  shows "n = (if 16 * (r div 16) + n mod 16 < r then 16 * (r div 16) + n mod 16 + 16 else 16 * (r div 16) + n mod 16)"
proof -
  obtain q a where r: "r = 16 * q + a" "a < 16" by (metis mod_less_divisor mult_div_mod_eq zero_less_numeral)
  obtain k b where n: "n = 16 * k + b" "b < 16" by (metis mod_less_divisor mult_div_mod_eq zero_less_numeral)
  have "k = q \<or> k = q + 1" using assms r n by linarith
  moreover have "r div 16 = q" "n mod 16 = b" using r n by simp_all
  ultimately show ?thesis using assms r n by auto
qed

text \<open>
  The number of a block is recovered from its sequence byte as long as it is at most fifteen ahead.
\<close>

lemma message_rseq_exact:
  assumes "block ! 1 AND MESSAGE_SEQ_MASK = of_nat (n mod 16)" and "unat (sq_receive_seq s) \<le> n" and "n \<le> unat (sq_receive_seq s) + 15" and "n < 2 ^ 64"
  shows "message_rseq s block = of_nat n"
proof -
  let ?r = "sq_receive_seq s"
  let ?x = "(?r AND NOT 15) OR of_nat (n mod 16) :: u64"
  have x: "unat ?x = 16 * (unat ?r div 16) + n mod 16" by (rule low_bits)
  have m: "ucast MESSAGE_SEQ_MASK = (15 :: u64)" by (simp add: MESSAGE_SEQ_MASK_def)
  have byte: "ucast (of_nat (n mod 16) :: u8) = (of_nat (n mod 16) :: u64)"
    by (simp add: unsigned_of_nat take_bit_eq_mod)
  have eq: "message_rseq s block = (if ?x < ?r then ?x + 15 + 1 else ?x)"
    unfolding message_rseq_def Let_def m MESSAGE_POS_SEQ_def assms(1) byte by (rule refl)
  have less: "?x < ?r \<longleftrightarrow> 16 * (unat ?r div 16) + n mod 16 < unat ?r" using x by (simp only: word_less_nat_alt)
  have n: "n = (if ?x < ?r then unat ?x + 16 else unat ?x)"
    unfolding x less by (rule next_in_window [OF assms(2,3)])
  have "of_nat n = (of_nat (if ?x < ?r then unat ?x + 16 else unat ?x) :: u64)" by (rule arg_cong [OF n])
  also have "\<dots> = (if ?x < ?r then ?x + 15 + 1 else ?x)" by (simp split del: if_split cong: if_cong) (simp add: add.assoc)
  finally show ?thesis unfolding eq by (rule sym)
qed

lemma message_rseq_range:
  assumes "unat (sq_receive_seq s) + 15 < 2 ^ 64"
  shows "unat (sq_receive_seq s) \<le> unat (message_rseq s block) \<and> unat (message_rseq s block) \<le> unat (sq_receive_seq s) + 15"
proof -
  let ?r = "unat (sq_receive_seq s)" and ?k = "unat (block ! 1) mod 16"
  define n where "n = (if 16 * (?r div 16) + ?k < ?r then 16 * (?r div 16) + ?k + 16 else 16 * (?r div 16) + ?k)"
  have r: "?r = 16 * (?r div 16) + ?r mod 16" by simp
  have "?k < 16" "?r mod 16 < 16" by simp_all
  then have n: "?r \<le> n" "n \<le> ?r + 15" using r unfolding n_def by (simp_all split: if_splits) linarith+
  have "n mod 16 = ?k" by (simp add: n_def)
  then have "block ! 1 AND MESSAGE_SEQ_MASK = of_nat (n mod 16)" by (simp add: MESSAGE_SEQ_MASK_def mask_word)
  then have "message_rseq s block = of_nat n" using n assms by (intro message_rseq_exact) simp_all
  then have "unat (message_rseq s block) = n" using n assms by (simp add: unat_of_nat take_bit_nat_eq_self)
  with n show ?thesis by simp
qed

section \<open>Blocks\<close>

lemma frame_block_message: "frame_block n payload = message_block (seq_byte (unat n)) payload"
proof -
  have "MESSAGE_DEST OR ucast (n AND ucast MESSAGE_SEQ_MASK) = seq_byte (unat n)"
    by (simp add: seq_byte_def MESSAGE_SEQ_MASK_def mask_word unsigned_of_nat take_bit_eq_mod)
  moreover have "ucast (crc AND 0xff) = (ucast crc :: u8)" for crc :: u16
  proof -
    have m: "(0xff :: u16) = mask 8" by (simp add: mask_eq_exp_minus_1)
    show ?thesis unfolding m by (rule bit_eqI) (auto simp: bit_simps)
  qed
  ultimately show ?thesis by (simp add: frame_block_def message_block_def Let_def add.commute)
qed

text \<open>A message of the sent queue is the block with number \<open>n\<close>.\<close>

definition block_of :: "nat \<Rightarrow> queue_message \<Rightarrow> bool" where
  "block_of n qm \<longleftrightarrow> (\<exists>payload. qm_bytes qm = message_block (seq_byte n) payload \<and> length payload \<le> MESSAGE_PAYLOAD_MAX \<and>
     qm_len qm = length payload + MESSAGE_MIN)"

abbreviation bytes_of :: "queue_message list \<Rightarrow> int" where
  "bytes_of qms \<equiv> sum_list (map (\<lambda>qm. int (qm_len qm)) qms)"

section \<open>The sent queue\<close>

text \<open>
  The unacknowledged blocks carry the numbers from \<^verbatim>\<open>receive_seq\<close> up to \<^verbatim>\<open>send_seq\<close>, and
  there are at most twelve of them.
\<close>

definition sent_ok :: "serialqueue \<Rightarrow> bool" where
  "sent_ok s \<longleftrightarrow> unat (sq_send_seq s) = unat (sq_receive_seq s) + length (sq_sent_queue s) \<and>
     length (sq_sent_queue s) \<le> MAX_PENDING_BLOCKS \<and> sq_need_ack_bytes s = bytes_of (sq_sent_queue s) \<and>
     (\<forall>i < length (sq_sent_queue s). block_of (unat (sq_receive_seq s) + i) (sq_sent_queue s ! i))"

text \<open>The fields of the sending side and of the queues of waiting commands.\<close>

definition same_queues :: "serialqueue \<Rightarrow> serialqueue \<Rightarrow> bool" where
  "same_queues s s' \<longleftrightarrow> sq_pending_queues s' = sq_pending_queues s \<and> sq_cqs s' = sq_cqs s \<and>
     sq_ready_bytes s' = sq_ready_bytes s \<and> sq_stalled_bytes s' = sq_stalled_bytes s \<and> sq_written s' = sq_written s \<and> sq_input_buf s' = sq_input_buf s"

definition same_sent :: "serialqueue \<Rightarrow> serialqueue \<Rightarrow> bool" where
  "same_sent s s' \<longleftrightarrow> sq_send_seq s' = sq_send_seq s \<and> sq_receive_seq s' = sq_receive_seq s \<and>
     sq_sent_queue s' = sq_sent_queue s \<and> sq_need_ack_bytes s' = sq_need_ack_bytes s \<and> sq_serial_fd_type s' = sq_serial_fd_type s \<and>
     sq_written s' = sq_written s \<and> sq_input_buf s' = sq_input_buf s"

lemma same_sent_ok: "same_sent s s' \<Longrightarrow> sent_ok s' = sent_ok s"
  by (simp add: same_sent_def sent_ok_def)

lemma unat_inc: "unat x + 1 < 2 ^ 64 \<Longrightarrow> unat (x + 1 :: u64) = unat x + 1"
  using unat_add_lem [of x 1] by simp

lemma remove_sent_spec:
  assumes "rseq \<noteq> sent_seq" and "unat sent_seq + length sent < 2 ^ 64" and "sq_sent_queue s = sent"
  shows "let s' = remove_sent rseq sent_seq sent s; k = unat rseq - unat sent_seq
    in same_queues s s' \<and> sq_receive_seq s' = sq_receive_seq s \<and> sq_serial_fd_type s' = sq_serial_fd_type s \<and>
       (if unat sent_seq < unat rseq \<and> k \<le> length sent
        then sq_sent_queue s' = drop k sent \<and> sq_send_seq s' = sq_send_seq s \<and>
          sq_need_ack_bytes s' = sq_need_ack_bytes s - bytes_of (take k sent)
        else sq_sent_queue s' = [] \<and> sq_send_seq s' = rseq \<and> sq_need_ack_bytes s' = sq_need_ack_bytes s - bytes_of sent)"
  using assms
proof (induction sent arbitrary: sent_seq s)
  case Nil
  then show ?case by (auto simp: Let_def same_queues_def)
next
  case (Cons x sent)
  let ?s = "s\<lparr>sq_need_ack_bytes := sq_need_ack_bytes s - int (qm_len x), sq_sent_queue := sent,
      sq_old_sent := debug_queue_add (sq_old_sent s) x\<rparr>"
  have next_seq: "unat (sent_seq + 1) = unat sent_seq + 1"
    using Cons.prems(2) by (intro unat_inc) simp
  show ?case
  proof (cases "rseq = sent_seq + 1")
    case True
    then have k: "unat rseq = unat sent_seq + 1" using next_seq by simp
    then show ?thesis using True by (simp add: Let_def same_queues_def)
  next
    case False
    then have ne: "unat rseq \<noteq> unat sent_seq + 1" using next_seq by (metis word_unat_eq_iff)
    have step: "remove_sent rseq sent_seq (x # sent) s = remove_sent rseq (sent_seq + 1) sent ?s"
      using False by (simp add: Let_def)
    have IH: "let s' = remove_sent rseq (sent_seq + 1) sent ?s; k = unat rseq - unat (sent_seq + 1)
      in same_queues ?s s' \<and> sq_receive_seq s' = sq_receive_seq ?s \<and> sq_serial_fd_type s' = sq_serial_fd_type ?s \<and>
       (if unat (sent_seq + 1) < unat rseq \<and> k \<le> length sent
        then sq_sent_queue s' = drop k sent \<and> sq_send_seq s' = sq_send_seq ?s \<and>
          sq_need_ack_bytes s' = sq_need_ack_bytes ?s - bytes_of (take k sent)
        else sq_sent_queue s' = [] \<and> sq_send_seq s' = rseq \<and> sq_need_ack_bytes s' = sq_need_ack_bytes ?s - bytes_of sent)"
      using False Cons.prems(2) next_seq by (intro Cons.IH) simp_all
    have "unat rseq - unat sent_seq = Suc (unat rseq - unat (sent_seq + 1))" if "unat sent_seq < unat rseq"
      using that next_seq by simp
    with IH step ne next_seq show ?thesis by (auto simp: Let_def same_queues_def split: if_splits)
  qed
qed

lemma update_rtt_same: "same_sent s (update_rtt t s) \<and> same_queues s (update_rtt t s)"
  by (simp add: update_rtt_def same_sent_def same_queues_def Let_def split: prod.splits)

lemma same_trans:
  "same_sent s s' \<Longrightarrow> same_sent s' s'' \<Longrightarrow> same_sent s s''" "same_queues s s' \<Longrightarrow> same_queues s' s'' \<Longrightarrow> same_queues s s''"
  by (simp_all add: same_sent_def same_queues_def)

lemma remove_sent_ok:
  assumes "sent_ok s" and "unat (sq_receive_seq s) < unat rseq"
    and "s' = (remove_sent rseq (sq_receive_seq s) (sq_sent_queue s) s)\<lparr>sq_receive_seq := rseq, sq_command_timer := t\<rparr>"
  shows "sent_ok s' \<and> same_queues s s' \<and> sq_serial_fd_type s' = sq_serial_fd_type s \<and>
    (rseq \<le> sq_send_seq s \<longrightarrow> sq_send_seq s' = sq_send_seq s \<and>
       sq_sent_queue s' = drop (unat rseq - unat (sq_receive_seq s)) (sq_sent_queue s))"
proof -
  let ?sent = "sq_sent_queue s" and ?r = "unat (sq_receive_seq s)"
  let ?s = "remove_sent rseq (sq_receive_seq s) ?sent s" and ?k = "unat rseq - unat (sq_receive_seq s)"
  have ok: "unat (sq_send_seq s) = ?r + length ?sent" "length ?sent \<le> 12" "sq_need_ack_bytes s = bytes_of ?sent"
    "\<And>i. i < length ?sent \<Longrightarrow> block_of (?r + i) (?sent ! i)"
    using assms(1) by (auto simp: sent_ok_def)
  have "unat (sq_send_seq s) < 2 ^ LENGTH(64)" by (rule unsigned_less)
  moreover have "rseq \<noteq> sq_receive_seq s" using assms(2) by auto
  ultimately have spec: "same_queues s ?s \<and> sq_serial_fd_type ?s = sq_serial_fd_type s \<and>
     (if ?k \<le> length ?sent
      then sq_sent_queue ?s = drop ?k ?sent \<and> sq_send_seq ?s = sq_send_seq s \<and> sq_need_ack_bytes ?s = sq_need_ack_bytes s - bytes_of (take ?k ?sent)
      else sq_sent_queue ?s = [] \<and> sq_send_seq ?s = rseq \<and> sq_need_ack_bytes ?s = sq_need_ack_bytes s - bytes_of ?sent)"
    using remove_sent_spec [of rseq "sq_receive_seq s" ?sent s] ok(1) assms(2) by (simp add: Let_def)
  have sum: "bytes_of (take ?k ?sent) + bytes_of (drop ?k ?sent) = bytes_of ?sent"
    by (metis append_take_drop_id map_append sum_list_append)
  show ?thesis
  proof (cases "?k \<le> length ?sent")
    case True
    have "block_of (unat rseq + i) (drop ?k ?sent ! i)" if "i < length (drop ?k ?sent)" for i
      using ok(4) [of "?k + i"] that assms(2) True by (simp add: add.assoc)
    then show ?thesis using True spec ok assms(2,3) sum by (auto simp: sent_ok_def same_queues_def)
  next
    case False
    then have "\<not> rseq \<le> sq_send_seq s" using ok(1) by (simp add: word_le_nat_alt)
    then show ?thesis using False spec ok assms(3) by (auto simp: sent_ok_def same_queues_def)
  qed
qed

lemma update_receive_seq_ok:
  assumes "sent_ok s" and "unat (sq_receive_seq s) < unat rseq" and "s' = update_receive_seq t rseq s"
  shows "sent_ok s' \<and> same_queues s s' \<and> sq_serial_fd_type s' = sq_serial_fd_type s \<and> sq_receive_seq s' = rseq \<and>
    (rseq \<le> sq_send_seq s \<longrightarrow> sq_send_seq s' = sq_send_seq s \<and>
       sq_sent_queue s' = drop (unat rseq - unat (sq_receive_seq s)) (sq_sent_queue s))"
proof -
  let ?s1 = "(remove_sent rseq (sq_receive_seq s) (sq_sent_queue s) s)\<lparr>sq_receive_seq := rseq, sq_command_timer := PR_NOW\<rparr>"
  have "same_sent ?s1 s' \<and> same_queues ?s1 s'"
    using update_rtt_same [of ?s1 t] assms(3)
    by (simp add: update_receive_seq_def Let_def same_sent_def same_queues_def split: list.splits if_splits)
  with remove_sent_ok [OF assms(1,2) refl, of PR_NOW] same_sent_ok [of ?s1 s'] same_trans(2) [of s ?s1 s']
  show ?thesis by (simp add: same_sent_def)
qed

lemma process_message_same: "same_sent s (process_message now rseq block s) \<and> same_queues s (process_message now rseq block s)"
  by (simp add: process_message_def same_sent_def same_queues_def Let_def)

text \<open>A message that is not discarded moves \<^verbatim>\<open>receive_seq\<close> first.\<close>

definition acked :: "real \<Rightarrow> u8 list \<Rightarrow> serialqueue \<Rightarrow> serialqueue" where
  "acked t block s = (if message_rseq s block \<noteq> sq_receive_seq s then update_receive_seq t (message_rseq s block) s else s)"

lemma acked_ok:
  assumes "sent_ok s" and "unat (sq_receive_seq s) + 15 < 2 ^ 64"
  shows "sent_ok (acked t block s) \<and> same_queues s (acked t block s) \<and> sq_serial_fd_type (acked t block s) = sq_serial_fd_type s \<and>
    sq_receive_seq (acked t block s) = message_rseq s block \<and>
    (message_rseq s block \<le> sq_send_seq s \<longrightarrow> sq_send_seq (acked t block s) = sq_send_seq s \<and>
       sq_sent_queue (acked t block s) = drop (unat (message_rseq s block) - unat (sq_receive_seq s)) (sq_sent_queue s))"
proof (cases "message_rseq s block = sq_receive_seq s")
  case False
  then have "unat (sq_receive_seq s) < unat (message_rseq s block)"
    using message_rseq_range [OF assms(2), of block] by (metis le_neq_implies_less word_unat_eq_iff)
  with update_receive_seq_ok [OF assms(1) this refl] False show ?thesis by (simp add: acked_def)
qed (use assms(1) in \<open>simp add: acked_def same_queues_def\<close>)

lemma handle_message_cases:
  assumes "s' = snd (handle_message t now block s)"
  shows "same_sent (acked t block s) s' \<and> same_queues (acked t block s) s' \<or>
    sq_send_seq s < message_rseq s block \<and> sq_receive_seq s \<noteq> 1 \<and> same_sent s s' \<and> same_queues s s'"
proof -
  let ?a = "acked t block s"
  consider (drop) "s' = s\<lparr>sq_bytes_invalid := sq_bytes_invalid s + of_nat (length block)\<rparr>" "sq_send_seq s < message_rseq s block" "sq_receive_seq s \<noteq> 1"
    | (keep) n q where "s' = process_message now (message_rseq s block) block
        (?a\<lparr>sq_bytes_read := sq_bytes_read ?a + of_nat (length block), sq_notify_queue := n, sq_receive_queue := q\<rparr>)"
    using assms by (auto simp: handle_message_def Let_def acked_def split: prod.splits if_splits)
  then show ?thesis
  proof cases
    case drop
    then show ?thesis by (simp add: same_sent_def same_queues_def)
  next
    case keep
    let ?s2 = "?a\<lparr>sq_bytes_read := sq_bytes_read ?a + of_nat (length block), sq_notify_queue := n, sq_receive_queue := q\<rparr>"
    have "same_sent ?a ?s2" "same_queues ?a ?s2" by (simp_all add: same_sent_def same_queues_def)
    then show ?thesis
      using process_message_same [of ?s2 now "message_rseq s block" block] same_trans keep by blast
  qed
qed

lemma handle_message_ok:
  assumes "sent_ok s" and "unat (sq_receive_seq s) + 15 < 2 ^ 64" and "s' = snd (handle_message t now block s)"
  shows "sent_ok s' \<and> same_queues s s' \<and> sq_serial_fd_type s' = sq_serial_fd_type s \<and>
    sq_receive_seq s' \<in> {sq_receive_seq s, message_rseq s block}"
proof -
  note a = acked_ok [OF assms(1,2), of t block]
  from handle_message_cases [OF assms(3)] show ?thesis
  proof
    assume h: "same_sent (acked t block s) s' \<and> same_queues (acked t block s) s'"
    then have "sent_ok s'" "same_queues s s'" using a same_sent_ok same_trans(2) by blast+
    with h a show ?thesis by (simp add: same_sent_def)
  next
    assume "sq_send_seq s < message_rseq s block \<and> sq_receive_seq s \<noteq> 1 \<and> same_sent s s' \<and> same_queues s s'"
    then show ?thesis using assms(1) same_sent_ok [of s s'] by (simp add: same_sent_def)
  qed
qed

lemma handle_message_acks:
  assumes "sent_ok s" and "unat (sq_receive_seq s) + 15 < 2 ^ 64" and "s' = snd (handle_message t now block s)"
    and "message_rseq s block \<le> sq_send_seq s"
  shows "sent_ok s' \<and> same_queues s s' \<and> sq_receive_seq s' = message_rseq s block \<and> sq_send_seq s' = sq_send_seq s \<and>
    sq_sent_queue s' = drop (unat (message_rseq s block) - unat (sq_receive_seq s)) (sq_sent_queue s)"
proof -
  note a = acked_ok [OF assms(1,2), of t block]
  have h: "same_sent (acked t block s) s'" "same_queues (acked t block s) s'"
    using handle_message_cases [OF assms(3)] assms(4) by auto
  have "sent_ok s'" "same_queues s s'" using h a same_sent_ok same_trans(2) by blast+
  with h a assms(4) show ?thesis by (simp add: same_sent_def)
qed

section \<open>The queues of waiting commands\<close>

definition msg_ok :: "queue_message \<Rightarrow> bool" where
  "msg_ok qm \<longleftrightarrow> 0 < qm_len qm \<and> qm_len qm \<le> MESSAGE_PAYLOAD_MAX \<and> qm_len qm \<le> length (qm_msg qm) \<and> qm_req_clock qm < SQ_MAX_CLOCK"

definition queued_ok :: "serialqueue \<Rightarrow> bool" where
  "queued_ok s \<longleftrightarrow> distinct (sq_pending_queues s) \<and>
     (\<forall>q. q \<in> set (sq_pending_queues s) \<longleftrightarrow> cq_ready (sq_cqs s q) \<noteq> [] \<or> cq_stalled (sq_cqs s q) \<noteq> []) \<and>
     sq_ready_bytes s = (\<Sum>q \<in> set (sq_pending_queues s). bytes_of (cq_ready (sq_cqs s q))) \<and>
     sq_stalled_bytes s = (\<Sum>q \<in> set (sq_pending_queues s). bytes_of (cq_stalled (sq_cqs s q))) \<and>
     (\<forall>q. \<forall>qm \<in> set (cq_ready (sq_cqs s q)) \<union> set (cq_stalled (sq_cqs s q)). msg_ok qm)"

lemma same_queues_ok: "same_queues s s' \<Longrightarrow> queued_ok s' = queued_ok s"
  by (simp add: same_queues_def queued_ok_def)

lemma queued_msg_ok: "queued_ok s \<Longrightarrow> m \<in> set (cq_ready (sq_cqs s q)) \<union> set (cq_stalled (sq_cqs s q)) \<Longrightarrow> msg_ok m"
  unfolding queued_ok_def by blast

lemma sum_upd:
  assumes "finite A" and "q \<in> A"
  shows "(\<Sum>x \<in> A. f ((c(q := v)) x)) = (\<Sum>x \<in> A. f (c x)) - f (c q) + (f v :: int)"
proof -
  have "(\<Sum>x \<in> A - {q}. f ((c(q := v)) x)) = (\<Sum>x \<in> A - {q}. f (c x))" by (rule sum.cong) auto
  with assms show ?thesis by (simp add: sum.remove [of A q])
qed

lemma bytes_nonneg: "0 \<le> bytes_of qms"
  by (induction qms) auto

lemma bytes_ready_nonneg: "queued_ok s \<Longrightarrow> 0 \<le> sq_ready_bytes s"
  by (simp add: queued_ok_def sum_nonneg bytes_nonneg)

lemma find_message_some:
  assumes "find_message cqs qs mc found = Some (q, m)"
  shows "found = Some (q, m) \<or> q \<in> set qs \<and> (\<exists>ms. cq_ready (cqs q) = m # ms)"
  using assms by (induction cqs qs mc found rule: find_message.induct) (auto split: list.splits if_splits)

lemma find_message_found:
  assumes "found \<noteq> None \<or> (\<exists>q \<in> set qs. \<exists>m ms. cq_ready (cqs q) = m # ms \<and> qm_req_clock m < mc)"
  shows "find_message cqs qs mc found \<noteq> None"
  using assms
proof (induction cqs qs mc found rule: find_message.induct)
  case (2 cqs q qs mc found)
  show ?case
  proof (cases "cq_ready (cqs q)")
    case Nil
    then show ?thesis using 2 by auto
  next
    case (Cons m ms)
    show ?thesis
    proof (cases "qm_req_clock m < mc")
      case True
      then show ?thesis using 2(2) [OF Cons True] Cons by simp
    next
      case False
      then show ?thesis using 2(3) [OF Cons False] "2.prems" Cons by auto
    qed
  qed
qed simp

lemma find_ready:
  assumes "queued_ok s" and "sq_ready_bytes s \<noteq> 0"
  shows "\<exists>q qm ms. find_message (sq_cqs s) (sq_pending_queues s) SQ_MAX_CLOCK None = Some (q, qm) \<and>
    q \<in> set (sq_pending_queues s) \<and> cq_ready (sq_cqs s q) = qm # ms"
proof -
  have "\<exists>q \<in> set (sq_pending_queues s). cq_ready (sq_cqs s q) \<noteq> []"
  proof (rule ccontr)
    assume "\<not> ?thesis"
    then have "(\<Sum>q \<in> set (sq_pending_queues s). bytes_of (cq_ready (sq_cqs s q))) = 0" by simp
    with assms show False by (simp add: queued_ok_def)
  qed
  then obtain q m ms where q: "q \<in> set (sq_pending_queues s)" "cq_ready (sq_cqs s q) = m # ms" by (auto simp: neq_Nil_conv)
  then have "msg_ok m" using queued_msg_ok [OF assms(1), of m q] by simp
  with q have "find_message (sq_cqs s) (sq_pending_queues s) SQ_MAX_CLOCK None \<noteq> None"
    by (intro find_message_found) (auto simp: msg_ok_def)
  then obtain q' m' where f: "find_message (sq_cqs s) (sq_pending_queues s) SQ_MAX_CLOCK None = Some (q', m')" by auto
  with find_message_some [OF f] show ?thesis by auto
qed

lemma unqueue_ok:
  assumes "queued_ok s" and "q \<in> set (sq_pending_queues s)" and "cq_ready (sq_cqs s q) = qm # ms" and "s' = unqueue_message q qm s"
  shows "queued_ok s' \<and> same_sent s s' \<and> sq_ready_bytes s' = sq_ready_bytes s - int (qm_len qm) \<and> msg_ok qm"
proof -
  let ?cq = "(sq_cqs s q)\<lparr>cq_ready := ms\<rparr>" and ?P = "set (sq_pending_queues s)"
  let ?gone = "ms = [] \<and> cq_stalled (sq_cqs s q) = []"
  have inv: "distinct (sq_pending_queues s)" "\<And>x. x \<in> ?P \<longleftrightarrow> cq_ready (sq_cqs s x) \<noteq> [] \<or> cq_stalled (sq_cqs s x) \<noteq> []"
    "sq_ready_bytes s = (\<Sum>x \<in> ?P. bytes_of (cq_ready (sq_cqs s x)))" "sq_stalled_bytes s = (\<Sum>x \<in> ?P. bytes_of (cq_stalled (sq_cqs s x)))"
    "\<And>x m. m \<in> set (cq_ready (sq_cqs s x)) \<union> set (cq_stalled (sq_cqs s x)) \<Longrightarrow> msg_ok m"
    using assms(1) unfolding queued_ok_def by blast+
  have s': "sq_cqs s' = (sq_cqs s)(q := ?cq)" "sq_ready_bytes s' = sq_ready_bytes s - int (qm_len qm)" "sq_stalled_bytes s' = sq_stalled_bytes s"
    "sq_pending_queues s' = (if ?gone then remove1 q (sq_pending_queues s) else sq_pending_queues s)" "same_sent s s'"
    using assms(3,4) by (simp_all add: unqueue_message_def Let_def same_sent_def)
  have P': "set (sq_pending_queues s') = (if ?gone then ?P - {q} else ?P)" using s'(4) inv(1) by simp
  have sums: "(\<Sum>x \<in> set (sq_pending_queues s'). f (sq_cqs s' x)) = (\<Sum>x \<in> ?P. f (sq_cqs s x)) - f (sq_cqs s q) + f ?cq"
    if "?gone \<Longrightarrow> f ?cq = 0" for f :: "command_queue \<Rightarrow> int"
  proof -
    have "(\<Sum>x \<in> set (sq_pending_queues s'). f (sq_cqs s' x)) = (\<Sum>x \<in> ?P. f (((sq_cqs s)(q := ?cq)) x))"
      using that assms(2) unfolding P' s'(1) by (cases ?gone) (auto simp: sum.remove [of ?P q])
    then show ?thesis using sum_upd [OF _ assms(2), of f "sq_cqs s" ?cq] by simp
  qed
  have ready: "sq_ready_bytes s' = (\<Sum>x \<in> set (sq_pending_queues s'). bytes_of (cq_ready (sq_cqs s' x)))"
    using sums [of "\<lambda>c. bytes_of (cq_ready c)"] inv(3) s'(2) assms(3) by simp
  have stalled: "sq_stalled_bytes s' = (\<Sum>x \<in> set (sq_pending_queues s'). bytes_of (cq_stalled (sq_cqs s' x)))"
    using sums [of "\<lambda>c. bytes_of (cq_stalled c)"] inv(4) s'(3) by simp
  have mem: "x \<in> set (sq_pending_queues s') \<longleftrightarrow> cq_ready (sq_cqs s' x) \<noteq> [] \<or> cq_stalled (sq_cqs s' x) \<noteq> []" for x
    using inv(2) [of x] assms(2) unfolding P' s'(1) by auto
  have msgs: "msg_ok m" if "m \<in> set (cq_ready (sq_cqs s' x)) \<union> set (cq_stalled (sq_cqs s' x))" for x m
    using that inv(5) [of m x] assms(3) unfolding s'(1) by (auto split: if_splits)
  have "distinct (sq_pending_queues s')" using inv(1) s'(4) by simp
  with ready stalled mem msgs have "queued_ok s'" unfolding queued_ok_def by blast
  moreover have "msg_ok qm" using inv(5) [of qm q] assms(3) by simp
  ultimately show ?thesis using s'(2,5) by blast
qed

section \<open>Building a block\<close>

text \<open>The commands that wait in a queue, and what it means that \<open>ms\<close> has been taken from the front of the queues.\<close>

definition waiting :: "serialqueue \<Rightarrow> nat \<Rightarrow> queue_message list" where
  "waiting s q = cq_ready (sq_cqs s q) @ cq_stalled (sq_cqs s q)"

definition drained :: "serialqueue \<Rightarrow> (nat \<times> queue_message) list \<Rightarrow> serialqueue \<Rightarrow> bool" where
  "drained s ms s' \<longleftrightarrow> (\<forall>q. waiting s q = map snd (filter (\<lambda>x. fst x = q) ms) @ waiting s' q)"

abbreviation contents :: "(nat \<times> queue_message) list \<Rightarrow> u8 list" where
  "contents ms \<equiv> concat (map (qm_bytes \<circ> snd) ms)"

lemma drained_trans: "drained s ms s' \<Longrightarrow> drained s' ms' s'' \<Longrightarrow> drained s (ms @ ms') s''"
  by (simp add: drained_def)

lemma drained_refl [simp]: "drained s [] s"
  by (simp add: drained_def)

lemma drained_same: "same_queues s s' \<Longrightarrow> drained s [] s'"
  by (simp add: drained_def waiting_def same_queues_def)

lemma drained_unqueue: "cq_ready (sq_cqs s q) = qm # ms \<Longrightarrow> drained s [(q, qm)] (unqueue_message q qm s)"
  by (simp add: drained_def waiting_def unqueue_message_def Let_def)

abbreviation packed :: "serialqueue \<Rightarrow> u8 list \<Rightarrow> serialqueue \<Rightarrow> bool" where
  "packed s p s' \<equiv> queued_ok s' \<and> same_sent s s' \<and> length p \<le> MESSAGE_PAYLOAD_MAX \<and> (\<exists>ms. drained s ms s' \<and> p = contents ms)"

lemma pack_ok:
  assumes "queued_ok s"
  shows "wp (loopp pack_round []) (packed s) (\<lambda>_ _. False) s"
proof (rule wp_loopp [where I = "packed s" and m = "\<lambda>_ s'. nat (sq_ready_bytes s')"])
  fix p :: "u8 list" and s'
  assume I: "packed s p s'"
  show "wp (pack_round p) (\<lambda>r s''. case r of
      Inl p' \<Rightarrow> packed s p' s'' \<and> nat (sq_ready_bytes s'') < nat (sq_ready_bytes s')
    | Inr p' \<Rightarrow> packed s p' s'') (\<lambda>_ _. False) s'"
  proof (cases "sq_ready_bytes s' = 0")
    case True
    then show ?thesis using I by (simp add: pack_round_def wp_simps)
  next
    case False
    then obtain q qm ms where f: "find_message (sq_cqs s') (sq_pending_queues s') SQ_MAX_CLOCK None = Some (q, qm)"
        "q \<in> set (sq_pending_queues s')" "cq_ready (sq_cqs s' q) = qm # ms"
      using find_ready I by blast
    let ?s = "unqueue_message q qm s'"
    have u: "queued_ok ?s" "same_sent s' ?s" "sq_ready_bytes ?s = sq_ready_bytes s' - int (qm_len qm)" "msg_ok qm"
      using unqueue_ok [OF _ f(2,3) refl] I by blast+
    obtain ms' where "drained s ms' s'" "p = contents ms'" using I by blast
    then have d: "\<exists>ms. drained s ms ?s \<and> p @ qm_bytes qm = contents ms"
      using drained_trans [OF _ drained_unqueue [OF f(3)]] by (intro exI [of _ "ms' @ [(q, qm)]"]) simp
    have len: "length (qm_bytes qm) = qm_len qm" using u(4) by (simp add: qm_bytes_def msg_ok_def)
    have less: "nat (sq_ready_bytes ?s) < nat (sq_ready_bytes s')"
      using u(3,4) bytes_ready_nonneg [of s'] False I by (simp add: msg_ok_def)
    show ?thesis using False f(1) I u(1) same_trans(1) [OF _ u(2), of s] d len less by (simp add: pack_round_def wp_simps)
  qed
qed (use assms in \<open>auto simp: same_sent_def intro: exI [of _ "[]"]\<close>)

lemma message_fill_bytes: "length bs \<le> MESSAGE_MAX \<Longrightarrow> qm_bytes (message_fill bs) = bs \<and> qm_len (message_fill bs) = length bs"
  by (simp add: message_fill_def message_alloc_def qm_bytes_def store_at_def)

lemma store_block_ok:
  assumes "sent_ok s" and "length (sq_sent_queue s) < MAX_PENDING_BLOCKS" and "unat (sq_send_seq s) + 1 < 2 ^ 64"
    and "length payload \<le> MESSAGE_PAYLOAD_MAX" and "s' = store_block pending t (frame_block (sq_send_seq s) payload) s"
  shows "sent_ok s' \<and> same_queues s s' \<and> sq_serial_fd_type s' = sq_serial_fd_type s \<and> sq_receive_seq s' = sq_receive_seq s \<and>
    (\<exists>out. sq_sent_queue s' = sq_sent_queue s @ [out] \<and> qm_bytes out = frame_block (sq_send_seq s) payload \<and> qm_len out = length payload + 5)"
proof -
  let ?b = "message_block (seq_byte (unat (sq_send_seq s))) payload"
  define out where "out = (message_fill ?b)\<lparr>qm_sent_time := t, qm_receive_time := (if t > sq_idle_time s then t else sq_idle_time s)
      + calculate_bittime s (of_nat (pending + length ?b))\<rparr>"
  have out: "sq_sent_queue s' = sq_sent_queue s @ [out]" "qm_len out = length ?b" "qm_bytes out = ?b"
    "sq_send_seq s' = sq_send_seq s + 1" "sq_receive_seq s' = sq_receive_seq s" "sq_serial_fd_type s' = sq_serial_fd_type s"
    "sq_need_ack_bytes s' = sq_need_ack_bytes s + int (length ?b)" "same_queues s s'"
    using assms(4) message_fill_bytes [of ?b]
    by (auto simp: assms(5) store_block_def Let_def frame_block_message same_queues_def qm_bytes_def out_def)
  have ok: "unat (sq_send_seq s) = unat (sq_receive_seq s) + length (sq_sent_queue s)" "sq_need_ack_bytes s = bytes_of (sq_sent_queue s)"
    "\<And>i. i < length (sq_sent_queue s) \<Longrightarrow> block_of (unat (sq_receive_seq s) + i) (sq_sent_queue s ! i)"
    using assms(1) by (auto simp: sent_ok_def)
  have "block_of (unat (sq_send_seq s)) out" using out(2,3) assms(4) by (auto simp: block_of_def)
  then have "block_of (unat (sq_receive_seq s') + i) (sq_sent_queue s' ! i)" if "i < length (sq_sent_queue s')" for i
    using that ok(1,3) out(1,5) by (auto simp: nth_append less_Suc_eq)
  then have "sent_ok s'" using out ok assms(2) unat_inc [OF assms(3)] by (simp add: sent_ok_def)
  then show ?thesis using out frame_block_message by (intro conjI exI [of _ out]) simp_all
qed

text \<open>The commands in a block.\<close>

definition payload_of :: "queue_message \<Rightarrow> u8 list" where
  "payload_of qm = take (qm_len qm - MESSAGE_MIN) (drop MESSAGE_HEADER_SIZE (qm_bytes qm))"

text \<open>
  \<open>sends s new s'\<close>: the blocks \<open>new\<close> have been added to the sent queue, and their contents are the
  commands taken from the queues, which have kept their order.
\<close>

definition sends :: "serialqueue \<Rightarrow> queue_message list \<Rightarrow> serialqueue \<Rightarrow> bool" where
  "sends s new s' \<longleftrightarrow> sent_ok s' \<and> queued_ok s' \<and> sq_receive_seq s' = sq_receive_seq s \<and> sq_serial_fd_type s' = sq_serial_fd_type s \<and>
     sq_input_buf s' = sq_input_buf s \<and> sq_sent_queue s' = sq_sent_queue s @ new \<and> (\<exists>ms. drained s ms s' \<and> concat (map payload_of new) = contents ms)"

lemma payload_of_block: "qm_bytes qm = message_block sb p \<Longrightarrow> qm_len qm = length p + 5 \<Longrightarrow> payload_of qm = p"
  by (simp add: payload_of_def message_block_def Let_def)

lemma sends_trans: "sends s new s' \<Longrightarrow> sends s' new' s'' \<Longrightarrow> sends s (new @ new') s''"
  unfolding sends_def using drained_trans by fastforce

lemma build_ok:
  assumes "sent_ok s" and "queued_ok s" and "length (sq_sent_queue s) < MAX_PENDING_BLOCKS" and "unat (sq_send_seq s) + 1 < 2 ^ 64"
  shows "wp (build_and_send_command pending t)
    (\<lambda>block s'. length block \<le> MESSAGE_MAX \<and> sq_written s' = sq_written s \<and> (\<exists>out. sends s [out] s' \<and> qm_bytes out = block)) (\<lambda>_ _. False) s"
  unfolding build_and_send_command_def
proof (subst wp_bnd, rule wp_mono [OF pack_ok [OF assms(2)]])
  fix p :: "u8 list" and s1
  assume p: "packed s p s1"
  then have s1: "sent_ok s1" "sq_sent_queue s1 = sq_sent_queue s" "sq_send_seq s1 = sq_send_seq s"
    "sq_receive_seq s1 = sq_receive_seq s" "sq_serial_fd_type s1 = sq_serial_fd_type s" "sq_written s1 = sq_written s"
    "sq_input_buf s1 = sq_input_buf s"
    using assms(1) same_sent_ok [of s s1] by (simp_all add: same_sent_def)
  let ?b = "frame_block (sq_send_seq s1) p" and ?s2 = "store_block pending t (frame_block (sq_send_seq s1) p) s1"
  obtain out where st: "sent_ok ?s2" "same_queues s1 ?s2" "sq_serial_fd_type ?s2 = sq_serial_fd_type s1" "sq_receive_seq ?s2 = sq_receive_seq s1"
    "sq_sent_queue ?s2 = sq_sent_queue s1 @ [out]" "qm_bytes out = ?b" "qm_len out = length p + 5"
    using store_block_ok [OF s1(1) _ _ _ refl, of p] p s1(2,3) assms(3,4) by auto
  obtain ms where ms: "drained s ms s1" "p = contents ms" using p by blast
  have "drained s ms ?s2" using drained_trans [OF ms(1) drained_same [OF st(2)]] by simp
  moreover have "payload_of out = contents ms" using payload_of_block [OF st(6) [unfolded frame_block_message] st(7)] ms(2) by simp
  moreover have "queued_ok ?s2" using p same_queues_ok [OF st(2)] by blast
  moreover have "sq_input_buf ?s2 = sq_input_buf s" using st(2) s1(7) by (simp add: same_queues_def)
  ultimately have "sends s [out] ?s2" using st s1 unfolding sends_def by auto
  moreover have "sq_written ?s2 = sq_written s" using st(2) s1(6) by (simp add: same_queues_def)
  moreover have "length ?b \<le> 64" using p by (simp add: frame_block_message)
  ultimately show "wp (bnd (gets (\<lambda>s. frame_block (sq_send_seq s) p)) (\<lambda>block. sq (upd (store_block pending t block)) (ret block)))
    (\<lambda>block s'. length block \<le> MESSAGE_MAX \<and> sq_written s' = sq_written s \<and> (\<exists>out. sends s [out] s' \<and> qm_bytes out = block)) (\<lambda>_ _. False) s1"
    using st(6) by (auto simp: wp_simps)
qed simp

section \<open>Choosing when to send\<close>

abbreviation kept :: "serialqueue \<Rightarrow> serialqueue \<Rightarrow> bool" where
  "kept s s' \<equiv> queued_ok s' \<and> same_sent s s' \<and> drained s [] s' \<and> sq_pending_queues s' = sq_pending_queues s"

lemma release_queue_ok:
  assumes "queued_ok s" and "q \<in> set (sq_pending_queues s)" and "s' = fst (release_queue bg ack q (s, a, b))"
  shows "kept s s'"
proof -
  let ?P = "set (sq_pending_queues s)" and ?c = "sq_cqs s q"
  let ?due = "takeWhile (\<lambda>qm. \<not> ack < qm_min_clock qm) (cq_stalled ?c)" and ?left = "dropWhile (\<lambda>qm. \<not> ack < qm_min_clock qm) (cq_stalled ?c)"
  let ?cq = "\<lparr>cq_stalled = ?left, cq_ready = cq_ready ?c @ ?due\<rparr>"
  have s': "sq_cqs s' = (sq_cqs s)(q := ?cq)" "sq_ready_bytes s' = sq_ready_bytes s + bytes_of ?due"
    "sq_stalled_bytes s' = sq_stalled_bytes s - bytes_of ?due" "sq_pending_queues s' = sq_pending_queues s" "same_sent s s'"
    using assms(3) by (simp_all add: release_queue_def Let_def same_sent_def)
  have "cq_stalled ?c = ?due @ ?left" by simp
  then have bytes: "bytes_of (cq_stalled ?c) = bytes_of ?due + bytes_of ?left" by (metis map_append sum_list_append)
  have inv: "distinct (sq_pending_queues s)" "\<And>x. x \<in> ?P \<longleftrightarrow> cq_ready (sq_cqs s x) \<noteq> [] \<or> cq_stalled (sq_cqs s x) \<noteq> []"
    "sq_ready_bytes s = (\<Sum>x \<in> ?P. bytes_of (cq_ready (sq_cqs s x)))" "sq_stalled_bytes s = (\<Sum>x \<in> ?P. bytes_of (cq_stalled (sq_cqs s x)))"
    "\<And>x m. m \<in> set (cq_ready (sq_cqs s x)) \<union> set (cq_stalled (sq_cqs s x)) \<Longrightarrow> msg_ok m"
    using assms(1) unfolding queued_ok_def by blast+
  note sums = sum_upd [OF finite_set assms(2), of _ "sq_cqs s" ?cq]
  have "sq_ready_bytes s' = (\<Sum>x \<in> ?P. bytes_of (cq_ready (sq_cqs s' x)))"
    using sums [of "\<lambda>c. bytes_of (cq_ready c)"] inv(3) s'(1,2) by simp
  moreover have "sq_stalled_bytes s' = (\<Sum>x \<in> ?P. bytes_of (cq_stalled (sq_cqs s' x)))"
    using sums [of "\<lambda>c. bytes_of (cq_stalled c)"] inv(4) s'(1,3) bytes by simp
  moreover have "x \<in> ?P \<longleftrightarrow> cq_ready (sq_cqs s' x) \<noteq> [] \<or> cq_stalled (sq_cqs s' x) \<noteq> []" for x
    using inv(2) [of x] assms(2) s'(1) by (cases "cq_stalled ?c") auto
  moreover have "msg_ok m" if "m \<in> set (cq_ready (sq_cqs s' x)) \<union> set (cq_stalled (sq_cqs s' x))" for x m
    using that inv(5) [of m x] s'(1) by (auto split: if_splits dest: set_takeWhileD set_dropWhileD)
  ultimately have "queued_ok s'" using inv(1) unfolding queued_ok_def s'(4) by blast
  moreover have "drained s [] s'" by (simp add: drained_def waiting_def s'(1))
  ultimately show ?thesis using s'(4,5) by blast
qed

lemma release_all_ok:
  assumes "queued_ok s" and "set qs \<subseteq> set (sq_pending_queues s)"
  shows "kept s (fst (fold (release_queue bg ack) qs (s, a, b)))"
  using assms
proof (induction qs arbitrary: s a b)
  case Nil
  then show ?case by (simp add: same_sent_def)
next
  case (Cons q qs)
  obtain s1 a1 b1 where r: "release_queue bg ack q (s, a, b) = (s1, a1, b1)" by (metis prod_cases3)
  then have k: "kept s s1" using release_queue_ok [of s q s1 bg ack a b] Cons.prems by simp
  let ?s2 = "fst (fold (release_queue bg ack) qs (s1, a1, b1))"
  have k2: "kept s1 ?s2" using Cons.IH [of s1 a1 b1] Cons.prems k by auto
  have "drained s [] ?s2" using drained_trans [of s "[]" s1 "[]" ?s2] k k2 by simp
  with k k2 same_trans(1) [of s s1 ?s2] show ?case by (simp add: r)
qed

lemma check_send_ok:
  assumes "queued_ok s" and "s' = snd (check_send_command pending t s)"
  shows "kept s s' \<and> (must_wait s \<longrightarrow> fst (check_send_command pending t s) = PR_NEVER)"
proof (cases "must_wait s")
  case True
  then show ?thesis using assms by (simp add: check_send_command_def same_sent_def)
next
  case False
  define idle where "idle = (if t > sq_idle_time s then t else sq_idle_time s) + calculate_bittime s (of_nat (pending + MESSAGE_MIN))"
  define bg where "bg = (if pending \<noteq> 0 then idle else sq_idle_time s)"
  define ack where "ack = clock_from_time (sq_ce s) idle"
  obtain s1 a b where r: "fold (release_queue bg ack) (sq_pending_queues s) (s, SQ_MAX_CLOCK, SQ_MAX_CLOCK) = (s1, a, b)" by (rule prod_cases3)
  have "s' = s1 \<or> (\<exists>k. s' = s1\<lparr>sq_need_kick_clock := k\<rparr>)"
    unfolding assms(2) check_send_command_def Let_def idle_def [symmetric] bg_def [symmetric] ack_def [symmetric] r
    by (simp only: False if_False prod.case snd_conv simp_thms split: if_split) blast
  moreover have "s1 = s1\<lparr>sq_need_kick_clock := sq_need_kick_clock s1\<rparr>" by simp
  ultimately obtain k where s': "s' = (fst (fold (release_queue bg ack) (sq_pending_queues s) (s, SQ_MAX_CLOCK, SQ_MAX_CLOCK)))\<lparr>sq_need_kick_clock := k\<rparr>"
    unfolding r fst_conv by blast
  let ?s = "fst (fold (release_queue bg ack) (sq_pending_queues s) (s, SQ_MAX_CLOCK, SQ_MAX_CLOCK))"
  have "kept s ?s" by (rule release_all_ok [OF assms(1)]) simp
  moreover have "same_queues ?s s'" "same_sent ?s s'" by (simp_all add: s' same_queues_def same_sent_def)
  ultimately show ?thesis
    using False same_queues_ok [of ?s s'] same_trans(1) [of s ?s s'] drained_trans [of s "[]" ?s "[]" s'] drained_same [of ?s s']
    by (simp add: same_queues_def)
qed

lemma not_must_wait:
  assumes "sent_ok s" and "\<not> must_wait s" and "unat (sq_receive_seq s) + 15 < 2 ^ 64"
  shows "length (sq_sent_queue s) < MAX_PENDING_BLOCKS"
proof -
  have eq: "unat (sq_send_seq s) = unat (sq_receive_seq s) + length (sq_sent_queue s)" using assms(1) by (simp add: sent_ok_def)
  then have "unat (sq_send_seq s - sq_receive_seq s) = length (sq_sent_queue s)" by (simp add: unat_sub word_le_nat_alt)
  moreover have "sq_receive_seq s \<noteq> - 1" using assms(3) by (auto simp: unsigned_minus_1_eq_mask mask_eq_exp_minus_1)
  ultimately show ?thesis using assms(2) by (simp add: must_wait_def word_le_nat_alt)
qed

section \<open>Sending\<close>

lemma can_frames_concat: "length bs \<le> n \<Longrightarrow> concat (can_frames n bs) = bs"
  by (induction n bs rule: can_frames.induct) auto

lemma do_write_bytes: "concat (sq_written (do_write buf s)) = concat (sq_written s) @ buf"
  by (simp add: do_write_def can_frames_concat)

lemma write_blocks_ok:
  "concat (sq_written (write_blocks t buf s)) = concat (sq_written s) @ buf \<and>
   sent_ok (write_blocks t buf s) = sent_ok s \<and> queued_ok (write_blocks t buf s) = queued_ok s \<and> drained s [] (write_blocks t buf s) \<and>
   sq_sent_queue (write_blocks t buf s) = sq_sent_queue s \<and> sq_receive_seq (write_blocks t buf s) = sq_receive_seq s \<and>
   sq_send_seq (write_blocks t buf s) = sq_send_seq s \<and> sq_serial_fd_type (write_blocks t buf s) = sq_serial_fd_type s \<and>
   sq_input_buf (write_blocks t buf s) = sq_input_buf s"
  using do_write_bytes [of buf s]
  by (simp add: write_blocks_def Let_def do_write_def sent_ok_def queued_ok_def drained_def waiting_def)

text \<open>What the loop of \<^verbatim>\<open>command_event\<close> has done, with the bytes that are still in its buffer.\<close>

definition sending :: "serialqueue \<Rightarrow> u8 list \<Rightarrow> serialqueue \<Rightarrow> bool" where
  "sending s buf s' \<longleftrightarrow> (\<exists>new. sends s new s' \<and> concat (sq_written s') @ buf = concat (sq_written s) @ concat (map qm_bytes new))"

lemma sends_kept:
  assumes "sends s new s1" and "sent_ok s2" and "queued_ok s2" and "drained s1 [] s2" and "sq_sent_queue s2 = sq_sent_queue s1"
    and "sq_receive_seq s2 = sq_receive_seq s1" and "sq_serial_fd_type s2 = sq_serial_fd_type s1" and "sq_input_buf s2 = sq_input_buf s1"
  shows "sends s new s2"
proof -
  have "sends s1 [] s2" using assms(2-8) unfolding sends_def by (auto intro: exI [of _ "[]"])
  from sends_trans [OF assms(1) this] show ?thesis by simp
qed

lemma sending_checked:
  assumes "sending s buf s1" and "s2 = snd (check_send_command pending t s1)"
  shows "sending s buf s2 \<and> sq_sent_queue s2 = sq_sent_queue s1"
proof -
  obtain new where new: "sends s new s1" "concat (sq_written s1) @ buf = concat (sq_written s) @ concat (map qm_bytes new)"
    using assms(1) by (auto simp: sending_def)
  then have "kept s1 s2" "sent_ok s1" using check_send_ok [OF _ assms(2)] by (auto simp: sends_def)
  then have "sends s new s2" "sq_written s2 = sq_written s1" "sq_sent_queue s2 = sq_sent_queue s1"
    using sends_kept [OF new(1), of s2] same_sent_ok [of s1 s2] by (auto simp: same_sent_def)
  with new(2) show ?thesis unfolding sending_def by auto
qed

lemma sending_written:
  assumes "sending s buf s1"
  shows "sending s [] (write_blocks t buf s1) \<and> sq_sent_queue (write_blocks t buf s1) = sq_sent_queue s1"
proof -
  obtain new where new: "sends s new s1" "concat (sq_written s1) @ buf = concat (sq_written s) @ concat (map qm_bytes new)"
    using assms by (auto simp: sending_def)
  note w = write_blocks_ok [of t buf s1]
  have "sends s new (write_blocks t buf s1)" using sends_kept [OF new(1)] w new(1) by (auto simp: sends_def)
  with new(2) w show ?thesis unfolding sending_def by auto
qed

lemma sending_built:
  assumes "sending s buf s1" and "sends s1 [out] s2" and "sq_written s2 = sq_written s1"
  shows "sending s (buf @ qm_bytes out) s2 \<and> length (sq_sent_queue s2) = length (sq_sent_queue s1) + 1"
proof -
  obtain new where new: "sends s new s1" "concat (sq_written s1) @ buf = concat (sq_written s) @ concat (map qm_bytes new)"
    using assms(1) by (auto simp: sending_def)
  have "sends s (new @ [out]) s2" by (rule sends_trans [OF new(1) assms(2)])
  moreover have "concat (sq_written s2) @ buf @ qm_bytes out = concat (sq_written s) @ concat (map qm_bytes (new @ [out]))"
    using new(2) assms(3) by (metis append.assoc concat.simps concat_append list.simps(8,9) map_append append_Nil2)
  moreover have "length (sq_sent_queue s2) = length (sq_sent_queue s1) + 1" using assms(2) by (auto simp: sends_def)
  ultimately show ?thesis unfolding sending_def by (metis append.assoc)
qed

lemma sending_ok:
  assumes "sending s buf s'" and "unat (sq_receive_seq s) + 15 < 2 ^ 64"
  shows "sent_ok s' \<and> queued_ok s' \<and> sq_receive_seq s' = sq_receive_seq s \<and> unat (sq_receive_seq s') + 15 < 2 ^ 64 \<and>
    unat (sq_send_seq s') + 1 < 2 ^ 64"
  using assms by (auto simp: sending_def sends_def sent_ok_def)

lemma command_round_ok:
  assumes "sending s buf s1" and "unat (sq_receive_seq s) + 15 < 2 ^ 64" and "length buf \<le> MESSAGE_MAX * MAX_PENDING_BLOCKS"
  shows "wp (command_round t buf) (\<lambda>r s2. case r of
      Inl buf' \<Rightarrow> sending s buf' s2 \<and> length buf' \<le> MESSAGE_MAX * MAX_PENDING_BLOCKS \<and> length (sq_sent_queue s2) = length (sq_sent_queue s1) + 1
    | Inr w \<Rightarrow> sending s [] s2 \<and> w \<noteq> PR_NOW) (\<lambda>_ _. False) s1"
proof -
  define w where "w = fst (check_send_command (length buf) t s1)"
  define flush where "flush = (w \<noteq> PR_NOW \<or> length buf + MESSAGE_MAX > MESSAGE_MAX * MAX_PENDING_BLOCKS)"
  define buf' where "buf' = (if flush then [] else buf)"
  define s2 where "s2 = snd (check_send_command (length buf) t s1)"
  define s3 where "s3 = (if flush \<and> buf \<noteq> [] then write_blocks t buf s2 else s2)"
  have s2: "sending s buf s2" "sq_sent_queue s2 = sq_sent_queue s1" using sending_checked [OF assms(1) s2_def] by auto
  then have s3: "sending s buf' s3" "sq_sent_queue s3 = sq_sent_queue s1"
    using sending_written [OF s2(1), of t] by (auto simp: s3_def buf'_def)
  have run: "wp (command_round t buf) Q E s1 = (if w \<noteq> PR_NOW then Q (Inr w) s3 else
      wp (build_and_send_command (length buf') t) (\<lambda>block. wp (if length buf' + length block > MESSAGE_MAX * MAX_PENDING_BLOCKS then stuck
        else ret (Inl (buf' @ block))) Q E) E s3)" for Q E
    unfolding command_round_def wp_simps Let_def w_def [symmetric] flush_def [symmetric] buf'_def [symmetric] s2_def [symmetric]
    by (simp add: s3_def wp_simps)
  show ?thesis
  proof (cases "w = PR_NOW")
    case False
    then show ?thesis unfolding run using s3 by (simp add: buf'_def flush_def)
  next
    case True
    have ok1: "sent_ok s1" "queued_ok s1" "unat (sq_receive_seq s1) + 15 < 2 ^ 64" using sending_ok [OF assms(1,2)] by auto
    have "\<not> must_wait s1" using True check_send_ok [OF ok1(2) refl, of "length buf" t] by (auto simp: w_def)
    then have less: "length (sq_sent_queue s3) < MAX_PENDING_BLOCKS" using not_must_wait [OF ok1(1) _ ok1(3)] s3(2) by simp
    have ok3: "sent_ok s3" "queued_ok s3" "unat (sq_send_seq s3) + 1 < 2 ^ 64" using sending_ok [OF s3(1) assms(2)] by auto
    have room: "length buf' + 64 \<le> 768" by (simp add: buf'_def flush_def)
    show ?thesis unfolding run using True
      by simp (rule wp_mono [OF build_ok [OF ok3(1,2) less ok3(3)]], use room sending_built [OF s3(1)] s3(2) in \<open>auto simp: wp_simps\<close>)
  qed
qed

lemma command_event_ok:
  assumes "sent_ok s" and "queued_ok s" and "unat (sq_receive_seq s) + 15 < 2 ^ 64"
  shows "wp (command_event t) (\<lambda>w s'. sending s [] s' \<and> w \<noteq> PR_NOW) (\<lambda>_ _. False) s"
  unfolding command_event_def
proof (rule wp_loopp [where I = "\<lambda>buf s'. sending s buf s' \<and> length buf \<le> MESSAGE_MAX * MAX_PENDING_BLOCKS"
      and m = "\<lambda>_ s'. MAX_PENDING_BLOCKS - length (sq_sent_queue s')"])
  show "sending s [] s \<and> length [] \<le> MESSAGE_MAX * MAX_PENDING_BLOCKS"
    using assms(1,2) by (auto simp: sending_def sends_def intro!: exI [of _ "[]"])
next
  fix buf :: "u8 list" and s1
  assume I: "sending s buf s1 \<and> length buf \<le> MESSAGE_MAX * MAX_PENDING_BLOCKS"
  have twelve: "length (sq_sent_queue s2) \<le> MAX_PENDING_BLOCKS" if "sending s b s2" for b s2
    using sending_ok [OF that assms(3)] by (simp add: sent_ok_def)
  show "wp (command_round t buf) (\<lambda>r s'. case r of
      Inl buf' \<Rightarrow> (sending s buf' s' \<and> length buf' \<le> MESSAGE_MAX * MAX_PENDING_BLOCKS) \<and>
        MAX_PENDING_BLOCKS - length (sq_sent_queue s') < MAX_PENDING_BLOCKS - length (sq_sent_queue s1)
    | Inr w \<Rightarrow> sending s [] s' \<and> w \<noteq> PR_NOW) (\<lambda>_ _. False) s1"
    by (rule wp_mono [OF command_round_ok [of s buf s1 t]]) (use I assms(3) twelve in \<open>force split: sum.splits\<close>)+
qed

section \<open>Sending again\<close>

lemma block_of_bytes: "block_of n qm \<Longrightarrow> qm_bytes qm = message_block (seq_byte n) (payload_of qm) \<and> length (payload_of qm) \<le> MESSAGE_PAYLOAD_MAX"
  by (auto simp: block_of_def payload_of_block)

lemma sent_bytes_bound:
  assumes "sent_ok s"
  shows "length (concat (map qm_bytes (sq_sent_queue s))) \<le> MESSAGE_MAX * MAX_PENDING_BLOCKS"
proof -
  have "length (qm_bytes qm) \<le> 64" if "qm \<in> set (sq_sent_queue s)" for qm
    using that assms block_of_bytes by (fastforce simp: sent_ok_def in_set_conv_nth)
  then have "sum_list (map (\<lambda>qm. length (qm_bytes qm)) (sq_sent_queue s)) \<le> sum_list (map (\<lambda>qm. 64) (sq_sent_queue s))"
    by (rule sum_list_mono)
  also have "\<dots> \<le> 64 * 12" using assms by (simp add: sum_list_triv sent_ok_def)
  finally show ?thesis by (simp add: length_concat comp_def)
qed

lemma retransmit_ok:
  assumes "sent_ok s"
  shows "wp (retransmit_event t) (\<lambda>w s'. sent_ok s' \<and> queued_ok s' = queued_ok s \<and> waiting s' = waiting s \<and> sq_sent_queue s' = sq_sent_queue s \<and>
      sq_receive_seq s' = sq_receive_seq s \<and> sq_send_seq s' = sq_send_seq s \<and> sq_input_buf s' = sq_input_buf s \<and>
      concat (sq_written s') = concat (sq_written s) @ MESSAGE_SYNC # concat (map qm_bytes (sq_sent_queue s))) (\<lambda>_ _. False) s"
  using assms sent_bytes_bound [OF assms] do_write_bytes [of "MESSAGE_SYNC # concat (map qm_bytes (sq_sent_queue s))" s]
  by (simp add: retransmit_event_def wp_simps do_write_def sent_ok_def queued_ok_def waiting_def [abs_def])

section \<open>Queueing commands\<close>

lemma set_min_clock_ok: "msg_ok (set_min_clock qm) = msg_ok qm" "qm_len (set_min_clock qm) = qm_len qm" "qm_bytes (set_min_clock qm) = qm_bytes qm"
  by (simp_all add: set_min_clock_def msg_ok_def qm_bytes_def)

lemma bytes_pos: "\<forall>qm \<in> set qms. msg_ok qm \<Longrightarrow> qms \<noteq> [] \<Longrightarrow> 0 < bytes_of qms"
  by (cases qms) (auto simp: msg_ok_def bytes_nonneg add_pos_nonneg)

lemma send_batch_ok:
  assumes "queued_ok s" and "\<forall>qm \<in> set msgs. msg_ok qm" and "s' = snd (serialqueue_send_batch q msgs s)"
  shows "queued_ok s' \<and> same_sent s s' \<and> waiting s' = (waiting s)(q := waiting s q @ map set_min_clock msgs)"
proof (cases "msgs = []")
  case True
  then show ?thesis using assms by (simp add: serialqueue_send_batch_def same_sent_def)
next
  case False
  let ?m = "map set_min_clock msgs" and ?c = "sq_cqs s q" and ?P = "set (sq_pending_queues s)"
  let ?cq = "?c\<lparr>cq_stalled := cq_stalled ?c @ ?m\<rparr>"
  have m: "\<forall>qm \<in> set ?m. msg_ok qm" "bytes_of ?m \<noteq> 0"
    using assms(2) False bytes_pos [of msgs] by (auto simp: set_min_clock_ok comp_def)
  then have s': "sq_cqs s' = (sq_cqs s)(q := ?cq)" "sq_ready_bytes s' = sq_ready_bytes s" "sq_stalled_bytes s' = sq_stalled_bytes s + bytes_of ?m"
    "sq_pending_queues s' = (if cq_ready ?c = [] \<and> cq_stalled ?c = [] then sq_pending_queues s @ [q] else sq_pending_queues s)" "same_sent s s'"
    using assms(3) by (simp_all add: serialqueue_send_batch_def Let_def same_sent_def)
  have inv: "distinct (sq_pending_queues s)" "\<And>x. x \<in> ?P \<longleftrightarrow> cq_ready (sq_cqs s x) \<noteq> [] \<or> cq_stalled (sq_cqs s x) \<noteq> []"
    "sq_ready_bytes s = (\<Sum>x \<in> ?P. bytes_of (cq_ready (sq_cqs s x)))" "sq_stalled_bytes s = (\<Sum>x \<in> ?P. bytes_of (cq_stalled (sq_cqs s x)))"
    "\<And>x m. m \<in> set (cq_ready (sq_cqs s x)) \<union> set (cq_stalled (sq_cqs s x)) \<Longrightarrow> msg_ok m"
    using assms(1) unfolding queued_ok_def by blast+
  have P': "set (sq_pending_queues s') = insert q ?P" using s'(4) inv(2) [of q] by auto
  have sums: "(\<Sum>x \<in> set (sq_pending_queues s'). f (sq_cqs s' x)) = (\<Sum>x \<in> ?P. f (sq_cqs s x)) - f ?c + f ?cq"
    if "q \<notin> ?P \<Longrightarrow> f ?c = 0" for f :: "command_queue \<Rightarrow> int"
    using sum_upd [of "insert q ?P" q f "sq_cqs s" ?cq] that unfolding P' s'(1) by (cases "q \<in> ?P") (simp_all add: insert_absorb)
  have "sq_ready_bytes s' = (\<Sum>x \<in> set (sq_pending_queues s'). bytes_of (cq_ready (sq_cqs s' x)))"
    using sums [of "\<lambda>c. bytes_of (cq_ready c)"] inv(2) [of q] inv(3) s'(2) by simp
  moreover have "sq_stalled_bytes s' = (\<Sum>x \<in> set (sq_pending_queues s'). bytes_of (cq_stalled (sq_cqs s' x)))"
    using sums [of "\<lambda>c. bytes_of (cq_stalled c)"] inv(2) [of q] inv(4) s'(3) by simp
  moreover have "x \<in> set (sq_pending_queues s') \<longleftrightarrow> cq_ready (sq_cqs s' x) \<noteq> [] \<or> cq_stalled (sq_cqs s' x) \<noteq> []" for x
    using inv(2) [of x] False unfolding P' s'(1) by auto
  moreover have "msg_ok x" if "x \<in> set (cq_ready (sq_cqs s' y)) \<union> set (cq_stalled (sq_cqs s' y))" for x y
    using that inv(5) [of x y] m(1) unfolding s'(1) by (auto split: if_splits)
  moreover have "distinct (sq_pending_queues s')" using s'(4) inv(1,2) by auto
  ultimately have "queued_ok s'" unfolding queued_ok_def by blast
  then show ?thesis using s'(5) by (auto simp: waiting_def s'(1))
qed

section \<open>Input\<close>

lemma msgblock_check_cases:
  obtains (wait) "msgblock_check ns buf (length buf) = (0, ns)" "length buf < MESSAGE_MAX"
  | (found) m where "msgblock_check ns buf (length buf) = (int m, ns)" "MESSAGE_MIN \<le> m" "m \<le> length buf" "valid_block buf (length buf) m"
  | (skip) k ns' where "msgblock_check ns buf (length buf) = (- int k, ns')" "0 < k" "k \<le> length buf"
proof (cases "ns = 0 \<and> valid_block buf (length buf) (unat (buf ! 0))")
  case True
  then show ?thesis using msgblock_check_valid [of buf "length buf"] by (intro found [of "unat (buf ! 0)"]) (auto simp: valid_block_def)
next
  case False
  from msgblock_check_invalid [OF this] show ?thesis
  proof
    assume "msgblock_check ns buf (length buf) = msgblock_check_error buf (length buf) \<and> MESSAGE_MIN \<le> length buf"
    then show ?thesis using msgblock_check_error_result [of buf "length buf"] skip by force
  qed (use wait in blast)
qed

text \<open>The invariant of the transport between two events.\<close>

definition sq_ok :: "serialqueue \<Rightarrow> bool" where
  "sq_ok s \<longleftrightarrow> sent_ok s \<and> queued_ok s \<and> length (sq_input_buf s) < MESSAGE_MAX"

text \<open>What the callbacks of fast readers may do: queue commands.\<close>

definition fast_ok :: "(nat \<Rightarrow> u8 list \<Rightarrow> (serialqueue, unit) prog) \<Rightarrow> bool" where
  "fast_ok fast \<longleftrightarrow> (\<forall>k block s. queued_ok s \<longrightarrow>
     wp (fast k block) (\<lambda>_ s'. queued_ok s' \<and> same_sent s s') (\<lambda>_ _. False) s)"

abbreviation reading :: "serialqueue \<Rightarrow> bool" where
  "reading s \<equiv> sent_ok s \<and> queued_ok s \<and> unat (sq_receive_seq s) + 15 * length (sq_input_buf s) + 15 < 2 ^ 64"

lemma handle_message_reading:
  assumes "sent_ok s" and "queued_ok s" and "unat (sq_receive_seq s) + 15 < 2 ^ 64" and "s' = snd (handle_message t now block s)"
  shows "sent_ok s' \<and> queued_ok s' \<and> sq_input_buf s' = sq_input_buf s \<and> unat (sq_receive_seq s') \<le> unat (sq_receive_seq s) + 15"
proof -
  note h = handle_message_ok [OF assms(1,3,4)]
  have "sq_input_buf s' = sq_input_buf s" using h by (simp add: same_queues_def)
  moreover have "unat (sq_receive_seq s') \<le> unat (sq_receive_seq s) + 15" using h message_rseq_range [OF assms(3), of block] by auto
  moreover have "queued_ok s'" using same_queues_ok h assms(2) by blast
  ultimately show ?thesis using h by blast
qed

lemma input_round_ok:
  assumes "fast_ok fast" and "reading s"
  shows "wp (input_round fast t now u) (\<lambda>r s'. case r of
      Inl _ \<Rightarrow> reading s' \<and> length (sq_input_buf s') < length (sq_input_buf s)
    | Inr _ \<Rightarrow> sq_ok s') (\<lambda>_ _. False) s"
proof (cases rule: msgblock_check_cases [of "sq_need_sync s" "sq_input_buf s"])
  case wait
  then show ?thesis using assms(2) by (simp add: input_round_def wp_simps sq_ok_def sent_ok_def queued_ok_def)
next
  case (skip k ns')
  then show ?thesis using assms(2) by (simp add: input_round_def wp_simps sent_ok_def queued_ok_def) arith
next
  case (found m)
  let ?s = "s\<lparr>sq_need_sync := sq_need_sync s\<rparr>" and ?block = "take m (sq_input_buf s)"
  define h where "h = snd (handle_message t now ?block s)"
  have h: "sent_ok h" "queued_ok h" "sq_input_buf h = sq_input_buf s" "unat (sq_receive_seq h) \<le> unat (sq_receive_seq s) + 15"
    using handle_message_reading [OF _ _ _ h_def] assms(2) by auto
  have step: "reading (x\<lparr>sq_input_buf := drop m (sq_input_buf x)\<rparr>)"
    if "queued_ok x \<and> same_sent h x" for x
  proof -
    have "sent_ok x" "sq_receive_seq x = sq_receive_seq h" "sq_input_buf x = sq_input_buf h" using that same_sent_ok [of h x] h(1) by (simp_all add: same_sent_def)
    then show ?thesis using that h found(2,3) assms(2) by (auto simp: sent_ok_def queued_ok_def)
  qed
  have keep: "wp (case fr of None \<Rightarrow> ret () | Some fr \<Rightarrow> fast (fr_func fr) b) (\<lambda>_ x. queued_ok x \<and> same_sent h x)
      (\<lambda>_ _. False) h" for fr b
    using assms(1) h(2) by (cases fr) (auto simp: fast_ok_def wp_simps same_sent_def)
  have "wp (case fr of None \<Rightarrow> ret () | Some fr \<Rightarrow> fast (fr_func fr) b) (\<lambda>_. wp (upd (\<lambda>x. x\<lparr>sq_input_buf := drop m (sq_input_buf x)\<rparr>))
      (\<lambda>_ x. reading x \<and> length (sq_input_buf x) < length (sq_input_buf s)) (\<lambda>_ _. False)) (\<lambda>_ _. False) h" for fr b
    by (rule wp_mono [OF keep]) (use step h(3) found(2,3) in \<open>auto simp: wp_simps same_sent_def\<close>)
  then show ?thesis using found(1,2,3) by (simp add: input_round_def wp_simps h_def)
qed

lemma input_event_ok:
  assumes "fast_ok fast" and "sq_ok s" and "length data \<le> 4096 - MESSAGE_MAX" and "unat (sq_receive_seq s) < 2 ^ 63"
  shows "wp (input_event fast t now can_id data) (\<lambda>_ s'. sq_ok s') (\<lambda>_ _. False) s"
proof (cases "sq_serial_fd_type s = SQT_CAN \<and> can_id \<noteq> sq_client_id s + 1")
  case True
  then show ?thesis using assms(2) by (simp add: input_event_def wp_simps)
next
  case False
  let ?s = "s\<lparr>sq_input_buf := sq_input_buf s @ data\<rparr>"
  have "reading ?s" using assms(2-4) by (auto simp: sq_ok_def sent_ok_def queued_ok_def)
  then have "wp (loopp (input_round fast t now) ()) (\<lambda>_ s'. sq_ok s') (\<lambda>_ _. False) ?s"
    using input_round_ok [OF assms(1)]
    by (intro wp_loopp [where I = "\<lambda>_. reading" and m = "\<lambda>_ s. length (sq_input_buf s)"]) (auto cong: sum.case_cong)
  moreover have "length (sq_input_buf s) + length data \<le> 4096" using assms(2,3) by (simp add: sq_ok_def)
  ultimately show ?thesis using False by (auto simp: input_event_def wp_simps)
qed

end
