(* ===== verification/Transport.thy ===== *)
theory Transport
  imports Serialqueue_correct
begin

text \<open>
  The serial transport in use: the states reachable by any sequence of events, and the composition
  with the micro-controller's block search over a line that loses blocks.
\<close>

section \<open>Reachable states\<close>

text \<open>Operations of the interface that touch neither the queues nor the window.\<close>

inductive local_step :: "serialqueue \<Rightarrow> serialqueue \<Rightarrow> bool" where
  pull: "local_step s (snd (serialqueue_pull s))"
| kick: "local_step s (kick_event s)"
| add_fastreader: "local_step s (serialqueue_add_fastreader fr s)"
| rm_fastreader: "local_step s (serialqueue_rm_fastreader fr s)"
| set_wire_frequency: "local_step s (serialqueue_set_wire_frequency f s)"
| set_receive_window: "local_step s (serialqueue_set_receive_window w s)"
| set_clock_est: "local_step s (serialqueue_set_clock_est f t c l s)"
| extract_old: "local_step s (snd (serialqueue_extract_old sentq mx s))"

lemma local_step_same: "local_step s s' \<Longrightarrow> same_sent s s' \<and> same_queues s s' \<and> sq_input_buf s' = sq_input_buf s"
  by (induction rule: local_step.induct)
    (simp_all add: same_sent_def same_queues_def serialqueue_pull_def kick_event_def serialqueue_add_fastreader_def
      serialqueue_rm_fastreader_def serialqueue_set_wire_frequency_def serialqueue_set_receive_window_def
      serialqueue_set_clock_est_def serialqueue_extract_old_def Let_def split: list.splits)

text \<open>
  Any sequence of events of a transport that is not a debug file.  A command has at least one byte
  and fits a block, and its \<^verbatim>\<open>req_clock\<close> is below \<^verbatim>\<open>MAX_CLOCK\<close>.
\<close>

inductive sq_reach :: "(nat \<Rightarrow> u8 list \<Rightarrow> (serialqueue, unit) prog) \<Rightarrow> serialqueue \<Rightarrow> bool" for fast where
  alloc: "ty \<noteq> SQT_DEBUGFILE \<Longrightarrow> sq_reach fast (serialqueue_alloc ty client_id)"
| input: "sq_reach fast s \<Longrightarrow> unat (sq_receive_seq s) < 2 ^ 63 \<Longrightarrow> length data \<le> 4096 - MESSAGE_MAX \<Longrightarrow>
    input_event fast t now can_id data s = Some (Inr (), s') \<Longrightarrow> sq_reach fast s'"
| command: "sq_reach fast s \<Longrightarrow> unat (sq_receive_seq s) < 2 ^ 63 \<Longrightarrow> command_event t s = Some (Inr w, s') \<Longrightarrow> sq_reach fast s'"
| retransmit: "sq_reach fast s \<Longrightarrow> retransmit_event t s = Some (Inr w, s') \<Longrightarrow> sq_reach fast s'"
| send: "sq_reach fast s \<Longrightarrow> list_all msg_ok msgs \<Longrightarrow> sq_reach fast (snd (serialqueue_send_batch q msgs s))"
| local: "sq_reach fast s \<Longrightarrow> local_step s s' \<Longrightarrow> sq_reach fast s'"

lemma sq_reach_ok:
  assumes "sq_reach fast s" and "fast_ok fast"
  shows "sq_ok s"
  using assms(1)
proof (induction rule: sq_reach.induct)
  case (alloc ty client_id)
  then show ?case by (simp add: sq_ok_def sent_ok_def queued_ok_def serialqueue_alloc_def)
next
  case (input s data t now can_id s')
  then have "wp (input_event fast t now can_id data) (\<lambda>_ s'. sq_ok s') (\<lambda>_ _. False) s" by (intro input_event_ok [OF assms(2)])
  with input(4) show ?case by (simp add: wp_def)
next
  case (command s t w s')
  then have "sending s [] s'" using command_event_ok [of s t] by (auto simp: wp_def sq_ok_def)
  with command show ?case by (auto simp: sq_ok_def sending_def sends_def)
next
  case (retransmit s t w s')
  then show ?case using retransmit_ok [of s t] by (auto simp: wp_def sq_ok_def)
next
  case (send s msgs q)
  let ?s = "snd (serialqueue_send_batch q msgs s)"
  have "queued_ok ?s" "same_sent s ?s" using send_batch_ok [OF _ _ refl, of s msgs q] send by (auto simp: sq_ok_def list_all_iff)
  with send same_sent_ok [of s ?s] show ?case by (auto simp: sq_ok_def same_sent_def)
next
  case (local s s')
  then show ?case using local_step_same [of s s'] same_sent_ok [of s s'] same_queues_ok [of s s'] by (auto simp: sq_ok_def same_sent_def)
qed

lemma sq_reach_sample:
  assumes "s = snd (serialqueue_send 0 [7] 0 0 0 (serialqueue_alloc SQT_UART 0))"
  shows "sq_reach fast s \<and> unat (sq_receive_seq s) < 2 ^ 63 \<and> sq_written s = [] \<and> sq_sent_queue s = [] \<and> map qm_bytes (waiting s 0) = [[7]]"
proof -
  let ?m = "(message_fill [7])\<lparr>qm_min_clock := 0, qm_req_clock := 0, qm_notify_id := 0\<rparr>" and ?s = "serialqueue_alloc SQT_UART 0"
  have s: "s = snd (serialqueue_send_batch 0 [?m] ?s)"
    using assms by (simp add: serialqueue_send_def serialqueue_send_one_def)
  have m: "msg_ok ?m" "qm_bytes ?m = [7]" by (simp_all add: msg_ok_def qm_bytes_def message_fill_def message_alloc_def store_at_def)
  have "sq_reach fast ?s" by (rule sq_reach.alloc) simp
  then have "sq_reach fast s" unfolding s by (rule sq_reach.send) (simp add: m)
  moreover have q: "queued_ok ?s" by (simp add: queued_ok_def serialqueue_alloc_def)
  have b: "same_sent ?s s" "waiting s = (waiting ?s)(0 := waiting ?s 0 @ map set_min_clock [?m])"
    using send_batch_ok [OF q _ s] m(1) by simp_all
  moreover have "waiting ?s 0 = []" by (simp add: waiting_def serialqueue_alloc_def)
  ultimately show ?thesis using m(2) by (simp add: same_sent_def set_min_clock_ok serialqueue_alloc_def)
qed

lemma fast_ok_ret: "fast_ok (\<lambda>_ _. ret ())"
  by (simp add: fast_ok_def wp_simps same_sent_def)

text \<open>
  C14.  The serial transport keeps its window and its counters and never fails: in every state it can
  reach (with callbacks of fast readers that only queue commands), at most twelve blocks are
  unacknowledged, they are numbered without a gap from \<^verbatim>\<open>receive_seq\<close> to
  \<^verbatim>\<open>send_seq\<close>, the byte counts are the sizes of the queues, exactly the queues with
  commands are pending, and each of \<^verbatim>\<open>command_event\<close>, \<^verbatim>\<open>retransmit_event\<close> and
  \<^verbatim>\<open>input_event\<close> ends without overflowing a buffer or dereferencing a null pointer.
\<close>

theorem serialqueue_safe:
  assumes "sq_reach fast s" and "fast_ok fast" and "unat (sq_receive_seq s) < 2 ^ 63" and "length data \<le> 4096 - MESSAGE_MAX"
  shows "length (sq_sent_queue s) \<le> MAX_PENDING_BLOCKS \<and>
    unat (sq_send_seq s) = unat (sq_receive_seq s) + length (sq_sent_queue s) \<and>
    (\<forall>i < length (sq_sent_queue s). block_of (unat (sq_receive_seq s) + i) (sq_sent_queue s ! i)) \<and>
    sq_need_ack_bytes s = bytes_of (sq_sent_queue s) \<and> queued_ok s \<and>
    (\<exists>w s'. command_event t s = Some (Inr w, s')) \<and> (\<exists>w s'. retransmit_event t s = Some (Inr w, s')) \<and>
    (\<exists>s'. input_event fast t now can_id data s = Some (Inr (), s'))"
proof -
  have ok: "sq_ok s" by (rule sq_reach_ok [OF assms(1,2)])
  have "\<exists>w s'. command_event t s = Some (Inr w, s')"
    using command_event_ok [of s t] ok assms(3) by (auto simp: sq_ok_def wp_exec)
  moreover have "\<exists>w s'. retransmit_event t s = Some (Inr w, s')" using retransmit_ok [of s t] ok by (auto simp: sq_ok_def wp_exec)
  moreover have "\<exists>s'. input_event fast t now can_id data s = Some (Inr (), s')"
    using input_event_ok [OF assms(2) ok assms(4,3), of t now can_id] by (auto simp: wp_exec)
  ultimately show ?thesis using ok unfolding sq_ok_def sent_ok_def by blast
qed

theorem serialqueue_safe_witness:
  "\<exists>s. s = snd (serialqueue_send 0 [7] 0 0 0 (serialqueue_alloc SQT_UART 0)) \<and> queued_ok s \<and>
     (\<exists>w s'. command_event 0 s = Some (Inr w, s')) \<and> (\<exists>s'. input_event (\<lambda>_ _. ret ()) 0 0 0 [126] s = Some (Inr (), s'))"
proof -
  let ?s = "snd (serialqueue_send 0 [7] 0 0 0 (serialqueue_alloc SQT_UART 0))"
  have r: "sq_reach (\<lambda>_ _. ret ()) ?s" "unat (sq_receive_seq ?s) < 2 ^ 63" using sq_reach_sample [OF refl] by simp_all
  show ?thesis using serialqueue_safe [OF r(1) fast_ok_ret r(2), of "[126]" 0 0 0] by auto
qed

text \<open>
  C16.  Commands leave their queues in order, complete and unchanged: when \<^verbatim>\<open>command_event\<close>
  returns, what it has written to the port are the blocks it has added to the sent queue, one after
  the other, and the contents of these blocks together are commands taken from the fronts of the
  queues, each queue keeping its order and losing exactly the commands that were sent.
\<close>

theorem command_event_sends_in_order:
  assumes "sq_reach fast s" and "fast_ok fast" and "unat (sq_receive_seq s) < 2 ^ 63" and "command_event t s = Some (Inr w, s')"
  shows "\<exists>new ms. sq_sent_queue s' = sq_sent_queue s @ new \<and>
    concat (sq_written s') = concat (sq_written s) @ concat (map qm_bytes new) \<and>
    concat (map payload_of new) = concat (map (qm_bytes \<circ> snd) ms) \<and>
    (\<forall>q. waiting s q = map snd (filter (\<lambda>x. fst x = q) ms) @ waiting s' q)"
proof -
  have "sq_ok s" by (rule sq_reach_ok [OF assms(1,2)])
  then have "sending s [] s'" using command_event_ok [of s t] assms(3,4) by (auto simp: sq_ok_def wp_def)
  then show ?thesis unfolding sending_def sends_def drained_def by auto
qed

theorem command_event_sends_in_order_witness:
  "\<exists>w s' new ms. command_event 0 (snd (serialqueue_send 0 [7] 0 0 0 (serialqueue_alloc SQT_UART 0))) = Some (Inr w, s') \<and>
     concat (sq_written s') = concat (map qm_bytes new) \<and> concat (map payload_of new) = concat (map (qm_bytes \<circ> snd) ms) \<and>
     map qm_bytes (map snd (filter (\<lambda>x. fst x = (0 :: nat)) ms) @ waiting s' 0) = [[7]]"
proof -
  let ?s = "snd (serialqueue_send 0 [7] 0 0 0 (serialqueue_alloc SQT_UART 0))"
  have r: "sq_reach (\<lambda>_ _. ret ()) ?s" and n: "unat (sq_receive_seq ?s) < 2 ^ 63" "sq_written ?s = []" "map qm_bytes (waiting ?s 0) = [[7]]"
    using sq_reach_sample [OF refl] by simp_all
  have "sq_ok ?s" by (rule sq_reach_ok [OF r fast_ok_ret])
  then obtain w s' where c: "command_event 0 ?s = Some (Inr w, s')"
    using command_event_ok [of ?s 0] n(1) by (auto simp: sq_ok_def wp_exec)
  from command_event_sends_in_order [OF r fast_ok_ret n(1) c] obtain new ms
    where "concat (sq_written s') = concat (sq_written ?s) @ concat (map qm_bytes new)"
      "concat (map payload_of new) = concat (map (qm_bytes \<circ> snd) ms)" "\<forall>q. waiting ?s q = map snd (filter (\<lambda>x. fst x = q) ms) @ waiting s' q"
    by blast
  with c n have "command_event 0 ?s = Some (Inr w, s') \<and> concat (sq_written s') = concat (map qm_bytes new) \<and>
     concat (map payload_of new) = concat (map (qm_bytes \<circ> snd) ms) \<and> map qm_bytes (map snd (filter (\<lambda>x. fst x = (0 :: nat)) ms) @ waiting s' 0) = [[7]]"
    by simp
  then show ?thesis by (intro exI)
qed

section \<open>The host and the micro-controller on a lossy line\<close>

text \<open>
  The two ends with the blocks in flight, first in first out.  Besides the states of the code there
  are three logs: the commands given to \<^verbatim>\<open>serialqueue_send_batch\<close> per queue, the contents of the
  blocks built, and the contents of the blocks \<^verbatim>\<open>command_find_block\<close> has accepted, which is what
  \<^verbatim>\<open>command_dispatch\<close> is called with.
\<close>

record transport =
  tp_host :: serialqueue
  tp_mcu :: command_link
  tp_down :: "u8 list list"
  tp_up :: "u8 list list"
  tp_submitted :: "nat \<Rightarrow> u8 list list"
  tp_built :: "u8 list list"
  tp_delivered :: "u8 list list"

text \<open>
  The steps.  A block may be lost on either way at any time.  The micro-controller answers every
  accepted block and, where the code asks for it, a refused one with an empty block, and it may send
  responses.  Every block it sends carries its \<^verbatim>\<open>next_sequence\<close>.
\<close>

inductive tp_step :: "transport \<Rightarrow> transport \<Rightarrow> bool" where
  submit: "list_all msg_ok msgs \<Longrightarrow>
    tp_step l (l\<lparr>tp_host := snd (serialqueue_send_batch q msgs (tp_host l)),
      tp_submitted := (tp_submitted l)(q := tp_submitted l q @ map qm_bytes msgs)\<rparr>)"
| send: "unat (sq_receive_seq (tp_host l)) < 2 ^ 63 \<Longrightarrow> command_event t (tp_host l) = Some (Inr w, h) \<Longrightarrow>
    new = drop (length (sq_sent_queue (tp_host l))) (sq_sent_queue h) \<Longrightarrow>
    tp_step l (l\<lparr>tp_host := h, tp_down := tp_down l @ map qm_bytes new, tp_built := tp_built l @ map payload_of new\<rparr>)"
| resend: "retransmit_event t (tp_host l) = Some (Inr w, h) \<Longrightarrow>
    tp_step l (l\<lparr>tp_host := h, tp_down := tp_down l @ map qm_bytes (sq_sent_queue (tp_host l))\<rparr>)"
| other: "local_step (tp_host l) h \<Longrightarrow> tp_step l (l\<lparr>tp_host := h\<rparr>)"
| lose_down: "tp_down l = xs @ b # ys \<Longrightarrow> tp_step l (l\<lparr>tp_down := xs @ ys\<rparr>)"
| lose_up: "tp_up l = xs @ b # ys \<Longrightarrow> tp_step l (l\<lparr>tp_up := xs @ ys\<rparr>)"
| receive: "tp_down l = b # bs \<Longrightarrow> command_find_block (tp_mcu l) b (length b) = (r, pop, nak, m) \<Longrightarrow>
    tp_step l (l\<lparr>tp_down := bs, tp_mcu := m,
      tp_delivered := tp_delivered l @ (if r = 1 then [take (pop - MESSAGE_MIN) (drop MESSAGE_HEADER_SIZE b)] else []),
      tp_up := tp_up l @ (if r = 1 \<or> nak then [message_block (next_sequence m) []] else [])\<rparr>)"
| respond: "length body \<le> MESSAGE_PAYLOAD_MAX \<Longrightarrow>
    tp_step l (l\<lparr>tp_up := tp_up l @ [message_block (next_sequence (tp_mcu l)) body]\<rparr>)"
| acknowledge: "tp_up l = b # bs \<Longrightarrow> unat (sq_receive_seq (tp_host l)) < 2 ^ 63 \<Longrightarrow>
    tp_step l (l\<lparr>tp_host := snd (handle_message t now b (tp_host l)), tp_up := bs\<rparr>)"

text \<open>The line once both ends agree on the next block number \<open>n\<close>, with commands already queued.\<close>

definition tp_init :: "serialqueue \<Rightarrow> command_link \<Rightarrow> transport" where
  "tp_init h m = \<lparr>tp_host = h, tp_mcu = m, tp_down = [], tp_up = [],
     tp_submitted = (\<lambda>q. map qm_bytes (waiting h q)), tp_built = [], tp_delivered = []\<rparr>"

definition agrees :: "nat \<Rightarrow> serialqueue \<Rightarrow> command_link \<Rightarrow> bool" where
  "agrees n h m \<longleftrightarrow> sent_ok h \<and> queued_ok h \<and> sq_sent_queue h = [] \<and> unat (sq_receive_seq h) = n \<and>
     next_sequence m = seq_byte n \<and> sync_state m AND CF_NEED_SYNC = 0"

inductive tp_reach :: "nat \<Rightarrow> transport \<Rightarrow> bool" for n where
  init: "agrees n h m \<Longrightarrow> tp_reach n (tp_init h m)"
| step: "tp_reach n l \<Longrightarrow> tp_step l l' \<Longrightarrow> tp_reach n l'"

section \<open>The invariant\<close>

text \<open>
  Blocks on the way down, with their numbers \<open>ns\<close>: \<open>f\<close> is the number the micro-controller expects
  and \<open>w\<close> the next one the host will use.  No number is twelve or more below one in front of it.
\<close>

definition down_ok :: "nat \<Rightarrow> u8 list list \<Rightarrow> nat \<Rightarrow> nat \<Rightarrow> nat list \<Rightarrow> u8 list list \<Rightarrow> bool" where
  "down_ok n built f w ns bs \<longleftrightarrow>
     list_all2 (\<lambda>b k. n \<le> k \<and> k < w \<and> f \<le> k + 12 \<and> b = message_block (seq_byte k) (built ! (k - n))) bs ns \<and>
     sorted_wrt (\<lambda>i j. i < j + 12) ns"

text \<open>Blocks on the way up: their numbers never decrease and are acknowledgements of blocks sent.\<close>

definition up_ok :: "nat \<Rightarrow> nat \<Rightarrow> nat list \<Rightarrow> u8 list list \<Rightarrow> bool" where
  "up_ok r f as bs \<longleftrightarrow>
     list_all2 (\<lambda>b a. r \<le> a \<and> a \<le> f \<and> (\<exists>body. b = message_block (seq_byte a) body)) bs as \<and> sorted as"

text \<open>The host: the sent queue holds the blocks not yet acknowledged, and everything submitted is built or waits.\<close>

definition host_ok :: "nat \<Rightarrow> (nat \<Rightarrow> u8 list list) \<Rightarrow> u8 list list \<Rightarrow> serialqueue \<Rightarrow> bool" where
  "host_ok n submitted built h \<longleftrightarrow> sent_ok h \<and> queued_ok h \<and> n \<le> unat (sq_receive_seq h) \<and>
     unat (sq_send_seq h) = n + length built \<and> list_all (\<lambda>p. length p \<le> MESSAGE_PAYLOAD_MAX) built \<and>
     map payload_of (sq_sent_queue h) = drop (unat (sq_receive_seq h) - n) built \<and>
     (\<exists>cmds. concat built = concat (map snd cmds) \<and>
        (\<forall>q. submitted q = map snd (filter (\<lambda>c. fst c = q) cmds) @ map qm_bytes (waiting h q)))"

definition tp_inv :: "nat \<Rightarrow> transport \<Rightarrow> bool" where
  "tp_inv n l \<longleftrightarrow> (let r = unat (sq_receive_seq (tp_host l)); w = unat (sq_send_seq (tp_host l)); f = n + length (tp_delivered l)
     in host_ok n (tp_submitted l) (tp_built l) (tp_host l) \<and> r \<le> f \<and> f \<le> w \<and>
        tp_delivered l = take (length (tp_delivered l)) (tp_built l) \<and>
        next_sequence (tp_mcu l) = seq_byte f \<and> sync_state (tp_mcu l) AND CF_NEED_SYNC = 0 \<and>
        (\<exists>ns. down_ok n (tp_built l) f w ns (tp_down l)) \<and> (\<exists>as. up_ok r f as (tp_up l)))"

lemma tp_inv_init:
  assumes "agrees n h m"
  shows "tp_inv n (tp_init h m)"
proof -
  have "\<exists>cmds :: (nat \<times> u8 list) list. concat [] = concat (map snd cmds) \<and>
      (\<forall>q. map qm_bytes (waiting h q) = map snd (filter (\<lambda>c. fst c = q) cmds) @ map qm_bytes (waiting h q))"
    by (rule exI [of _ "[]"]) simp
  then have "host_ok n (\<lambda>q. map qm_bytes (waiting h q)) [] h"
    using assms unfolding host_ok_def agrees_def by (auto simp: sent_ok_def)
  with assms show ?thesis
    by (auto simp: tp_inv_def tp_init_def agrees_def down_ok_def up_ok_def sent_ok_def intro!: exI [of _ "[]"])
qed

section \<open>Steps of the host\<close>

lemma window: "host_ok n sub built h \<Longrightarrow> unat (sq_send_seq h) \<le> unat (sq_receive_seq h) + 12"
  by (simp add: host_ok_def sent_ok_def)

lemma host_ok_same:
  assumes "host_ok n sub built h" and "same_sent h h'" and "same_queues h h'"
  shows "host_ok n sub built h'"
proof -
  have "waiting h' = waiting h" using assms(3) by (auto simp: waiting_def same_queues_def)
  then show ?thesis using assms same_sent_ok [of h h'] same_queues_ok [of h h'] by (simp add: host_ok_def same_sent_def)
qed

lemma host_ok_submit:
  assumes "host_ok n sub built h" and "list_all msg_ok msgs" and "h' = snd (serialqueue_send_batch q msgs h)"
  shows "host_ok n (sub(q := sub q @ map qm_bytes msgs)) built h' \<and> same_sent h h'"
proof -
  have b: "queued_ok h'" "same_sent h h'" "waiting h' = (waiting h)(q := waiting h q @ map set_min_clock msgs)"
    using send_batch_ok [OF _ _ assms(3)] assms(1,2) by (auto simp: host_ok_def list_all_iff)
  have bytes: "map qm_bytes (map set_min_clock msgs) = map qm_bytes msgs" by (simp add: set_min_clock_ok)
  obtain cmds where c: "concat built = concat (map snd cmds)" "\<And>q. sub q = map snd (filter (\<lambda>c. fst c = q) cmds) @ map qm_bytes (waiting h q)"
    using assms(1) unfolding host_ok_def by blast
  have "(sub(q := sub q @ map qm_bytes msgs)) x = map snd (filter (\<lambda>c. fst c = x) cmds) @ map qm_bytes (waiting h' x)" for x
    using c(2) bytes by (simp add: b(3))
  with c(1) have "\<exists>cmds. concat built = concat (map snd cmds) \<and>
      (\<forall>x. (sub(q := sub q @ map qm_bytes msgs)) x = map snd (filter (\<lambda>c. fst c = x) cmds) @ map qm_bytes (waiting h' x))" by blast
  then show ?thesis using assms(1) b(1,2) same_sent_ok [of h h'] unfolding host_ok_def by (auto simp: same_sent_def)
qed

lemma host_ok_send:
  assumes "host_ok n sub built h" and "sends h new h'"
  shows "host_ok n sub (built @ map payload_of new) h'" and "sq_receive_seq h' = sq_receive_seq h"
    and "\<And>i. i < length new \<Longrightarrow> qm_bytes (new ! i) = message_block (seq_byte (unat (sq_send_seq h) + i)) (payload_of (new ! i))"
proof -
  let ?r = "unat (sq_receive_seq h)"
  have h: "sent_ok h" "n \<le> ?r" "unat (sq_send_seq h) = n + length built" "map payload_of (sq_sent_queue h) = drop (?r - n) built"
    "list_all (\<lambda>p. length p \<le> MESSAGE_PAYLOAD_MAX) built"
    using assms(1) by (auto simp: host_ok_def)
  have s: "sent_ok h'" "queued_ok h'" "sq_sent_queue h' = sq_sent_queue h @ new" using assms(2) by (auto simp: sends_def)
  show r: "sq_receive_seq h' = sq_receive_seq h" using assms(2) by (simp add: sends_def)
  have w: "unat (sq_send_seq h) = ?r + length (sq_sent_queue h)" "unat (sq_send_seq h') = unat (sq_send_seq h) + length new"
    using h(1) s(1,3) r by (simp_all add: sent_ok_def)
  have block: "block_of (unat (sq_send_seq h) + i) (new ! i)" if "i < length new" for i
    using that s(1,3) r w(1) unfolding sent_ok_def by (auto simp: nth_append add.assoc dest!: spec [of _ "length (sq_sent_queue h) + i"])
  then show "qm_bytes (new ! i) = message_block (seq_byte (unat (sq_send_seq h) + i)) (payload_of (new ! i))" if "i < length new" for i
    using that block_of_bytes by blast
  have fits: "list_all (\<lambda>p. length p \<le> MESSAGE_PAYLOAD_MAX) (map payload_of new)"
    using block block_of_bytes by (fastforce simp: list_all_length)
  obtain ms where ms: "drained h ms h'" "concat (map payload_of new) = contents ms" using assms(2) by (auto simp: sends_def)
  obtain cmds where c: "concat built = concat (map snd cmds)" "\<And>q. sub q = map snd (filter (\<lambda>c. fst c = q) cmds) @ map qm_bytes (waiting h q)"
    using assms(1) unfolding host_ok_def by blast
  let ?c = "cmds @ map (\<lambda>(q, m). (q, qm_bytes m)) ms"
  have "concat (built @ map payload_of new) = concat (map snd ?c)" using ms(2) c(1) by (simp add: comp_def case_prod_beta)
  moreover have "sub q = map snd (filter (\<lambda>c. fst c = q) ?c) @ map qm_bytes (waiting h' q)" for q
    using c(2) [of q] ms(1) by (simp add: drained_def filter_map comp_def case_prod_beta)
  ultimately have ex: "\<exists>cmds. concat (built @ map payload_of new) = concat (map snd cmds) \<and>
      (\<forall>q. sub q = map snd (filter (\<lambda>c. fst c = q) cmds) @ map qm_bytes (waiting h' q))" by blast
  have "map payload_of (sq_sent_queue h') = drop (?r - n) (built @ map payload_of new)"
    using s(3) h(2-4) w(1) by simp
  then show "host_ok n sub (built @ map payload_of new) h'"
    unfolding host_ok_def using s(1,2) h r w fits by (intro conjI ex) simp_all
qed

lemma host_ok_blocks:
  assumes "host_ok n sub built h" and "i < length (sq_sent_queue h)"
  shows "qm_bytes (sq_sent_queue h ! i) = message_block (seq_byte (unat (sq_receive_seq h) + i)) (built ! (unat (sq_receive_seq h) + i - n))"
proof -
  let ?r = "unat (sq_receive_seq h)"
  have "block_of (?r + i) (sq_sent_queue h ! i)" using assms by (simp add: host_ok_def sent_ok_def)
  moreover have "payload_of (sq_sent_queue h ! i) = drop (?r - n) built ! i"
    using assms by (metis host_ok_def length_map nth_map)
  moreover have "length (drop (?r - n) built) = length (sq_sent_queue h)" using assms(1) by (metis host_ok_def length_map)
  then have "drop (?r - n) built ! i = built ! (?r + i - n)" using assms by (simp add: host_ok_def)
  ultimately show ?thesis using block_of_bytes by force
qed

section \<open>Blocks in flight\<close>

lemma down_ok_append:
  assumes "down_ok n built f w ns bs" and "w = n + length built" and "w \<le> w'" and "w' \<le> n + length built'" and "take (length built) built' = built"
    and "length cs = length ks" and "\<And>i. i < length ks \<Longrightarrow> cs ! i = message_block (seq_byte (ks ! i)) (built' ! (ks ! i - n))"
    and "\<forall>k \<in> set ks. n \<le> k \<and> k < w' \<and> f \<le> k + 12 \<and> w \<le> k + 12" and "sorted_wrt (\<lambda>i j. i < j + 12) ks"
  shows "down_ok n built' f w' (ns @ ks) (bs @ cs)"
proof -
  have len: "length bs = length ns" using assms(1) by (auto simp: down_ok_def dest: list_all2_lengthD)
  have old: "list_all2 (\<lambda>b k. n \<le> k \<and> k < w' \<and> f \<le> k + 12 \<and> b = message_block (seq_byte k) (built' ! (k - n))) bs ns"
  proof (rule list_all2_all_nthI [OF len])
    fix i
    assume "i < length bs"
    then have i: "n \<le> ns ! i" "ns ! i < w" "f \<le> ns ! i + 12" "bs ! i = message_block (seq_byte (ns ! i)) (built ! (ns ! i - n))"
      using assms(1) by (auto simp: down_ok_def dest: list_all2_nthD)
    then have "built ! (ns ! i - n) = built' ! (ns ! i - n)" using assms(2,5) by (metis add.commute diff_less_mono le_add_diff_inverse2 nth_take add_diff_cancel_left')
    with i assms(3) show "n \<le> ns ! i \<and> ns ! i < w' \<and> f \<le> ns ! i + 12 \<and> bs ! i = message_block (seq_byte (ns ! i)) (built' ! (ns ! i - n))" by simp
  qed
  have new: "list_all2 (\<lambda>b k. n \<le> k \<and> k < w' \<and> f \<le> k + 12 \<and> b = message_block (seq_byte k) (built' ! (k - n))) cs ks"
    using assms(6-8) by (intro list_all2_all_nthI) auto
  have "k < w" if "k \<in> set ns" for k
    using that assms(1) by (fastforce simp: down_ok_def in_set_conv_nth dest: list_all2_nthD2)
  then have "sorted_wrt (\<lambda>i j. i < j + 12) (ns @ ks)" using assms(1,8,9) by (fastforce simp: down_ok_def sorted_wrt_append)
  with old new show ?thesis by (simp add: down_ok_def list_all2_appendI)
qed

lemma list_all2_lose:
  assumes "list_all2 P (xs @ b # ys) ns" and "sorted_wrt R ns"
  shows "\<exists>ns'. list_all2 P (xs @ ys) ns' \<and> sorted_wrt R ns'"
proof -
  from assms(1) obtain us vs where "ns = us @ vs" "list_all2 P xs us" "list_all2 P (b # ys) vs" by (auto simp: list_all2_append1)
  moreover from this(3) obtain z zs where "vs = z # zs" "list_all2 P ys zs" by (auto simp: list_all2_Cons1)
  ultimately have "list_all2 P (xs @ ys) (us @ zs)" "sorted_wrt R (us @ zs)" using assms(2) by (auto simp: sorted_wrt_append list_all2_appendI)
  then show ?thesis by blast
qed

lemma down_ok_lose: "down_ok n built f w ns (xs @ b # ys) \<Longrightarrow> \<exists>ns'. down_ok n built f w ns' (xs @ ys)"
  unfolding down_ok_def by (elim conjE) (rule list_all2_lose)

lemma up_ok_lose: "up_ok r f as (xs @ b # ys) \<Longrightarrow> \<exists>as'. up_ok r f as' (xs @ ys)"
  unfolding up_ok_def by (elim conjE) (rule list_all2_lose)

lemma up_ok_append:
  assumes "up_ok r f as bs" and "f \<le> f'" and "r \<le> f'"
  shows "up_ok r f' (as @ [f']) (bs @ [message_block (seq_byte f') body])"
proof -
  have old: "list_all2 (\<lambda>b a. r \<le> a \<and> a \<le> f' \<and> (\<exists>body. b = message_block (seq_byte a) body)) bs as"
  proof -
    have "list_all2 (\<lambda>b a. r \<le> a \<and> a \<le> f \<and> (\<exists>body. b = message_block (seq_byte a) body)) bs as" using assms(1) by (simp add: up_ok_def)
    then show ?thesis by (rule list_all2_mono) (use assms(2) in auto)
  qed
  have "a \<le> f'" if "a \<in> set as" for a
    using that old by (fastforce simp: in_set_conv_nth dest: list_all2_nthD2)
  with old assms show ?thesis by (auto simp: up_ok_def sorted_append intro!: list_all2_appendI)
qed

lemma find_block_numbered:
  assumes "sync_state m AND CF_NEED_SYNC = 0" and "length body \<le> MESSAGE_PAYLOAD_MAX" and "b = message_block (seq_byte k) body"
  shows "command_find_block m b (length b) =
    (let m' = m\<lparr>sync_state := sync_state m AND NOT CF_NEED_VALID\<rparr>
     in if seq_byte k \<noteq> next_sequence m then (-1, length b, True, m')
        else (1, length b, False, m'\<lparr>next_sequence := seq_byte (k + 1)\<rparr>))"
proof -
  have "valid_block b (length b) (length b)"
    using valid_message_block [OF assms(2), of "seq_byte k" "[]"] seq_byte_simps(2) assms(3) by simp
  moreover have "b ! 1 = seq_byte k" using message_block_nth(2) assms(3) by simp
  ultimately show ?thesis using find_block_valid [OF assms(1)] by (simp only: seq_byte_simps(3))
qed

lemma need_sync_clear: "x AND CF_NEED_SYNC = 0 \<Longrightarrow> (x AND NOT CF_NEED_VALID) AND CF_NEED_SYNC = (0 :: u8)"
  by (metis and.assoc and.commute and_zero_eq zero_and_eq)

lemma same_number:
  assumes "seq_byte k = seq_byte f" and "f \<le> k + 12" and "k < f + 12"
  shows "k = f"
proof -
  have "k mod 16 = f mod 16" using assms(1) seq_byte_simps(4) by blast
  then obtain q where "f = k + 16 * q \<or> k = f + 16 * q" by (metis nat_mod_eq_iff le_add_diff_inverse mod_eq_nat1E mod_eq_nat2E nle_le)
  with assms(2,3) show ?thesis by auto
qed

lemma mcu_receives:
  assumes "down_ok n built f w ns (b # bs)" and "w = n + length built" and "w \<le> f + 12" and "list_all (\<lambda>p. length p \<le> MESSAGE_PAYLOAD_MAX) built"
    and "next_sequence m = seq_byte f" and "sync_state m AND CF_NEED_SYNC = 0" and "command_find_block m b (length b) = (r, pop, nak, m')"
  shows "sync_state m' AND CF_NEED_SYNC = 0 \<and>
    (r = 1 \<and> f < w \<and> next_sequence m' = seq_byte (f + 1) \<and> take (pop - MESSAGE_MIN) (drop MESSAGE_HEADER_SIZE b) = built ! (f - n) \<and>
       (\<exists>ns'. down_ok n built (f + 1) w ns' bs) \<or>
     r \<noteq> 1 \<and> nak \<and> next_sequence m' = seq_byte f \<and> (\<exists>ns'. down_ok n built f w ns' bs))"
proof -
  obtain k ns' where ns: "ns = k # ns'" "n \<le> k" "k < w" "f \<le> k + 12" "b = message_block (seq_byte k) (built ! (k - n))"
    "list_all2 (\<lambda>b k. n \<le> k \<and> k < w \<and> f \<le> k + 12 \<and> b = message_block (seq_byte k) (built ! (k - n))) bs ns'"
    "\<forall>j \<in> set ns'. k < j + 12" "sorted_wrt (\<lambda>i j. i < j + 12) ns'"
    using assms(1) by (auto simp: down_ok_def list_all2_Cons1)
  have "length (built ! (k - n)) \<le> MESSAGE_PAYLOAD_MAX" using assms(2,4) ns(2,3) by (simp add: list_all_length)
  note fb = find_block_numbered [OF assms(6) this ns(5)]
  show ?thesis
  proof (cases "seq_byte k = seq_byte f")
    case True
    then have k: "k = f" using same_number ns(3,4) assms(3) by force
    have "down_ok n built (f + 1) w ns' bs"
      unfolding down_ok_def
    proof (rule conjI [OF list_all2_all_nthI ns(8)])
      show len: "length bs = length ns'" using ns(6) by (rule list_all2_lengthD)
      show "n \<le> ns' ! i \<and> ns' ! i < w \<and> f + 1 \<le> ns' ! i + 12 \<and> bs ! i = message_block (seq_byte (ns' ! i)) (built ! (ns' ! i - n))"
        if "i < length bs" for i
        using list_all2_nthD [OF ns(6) that] bspec [OF ns(7) nth_mem, of i] that len k by auto
    qed
    moreover have "take (length b - 5) (drop 2 b) = built ! (f - n)" using ns(5) k by (simp add: message_block_def Let_def)
    ultimately show ?thesis using fb True k ns(3) assms(5-7) need_sync_clear by (auto simp: Let_def)
  next
    case False
    then show ?thesis using fb assms(5-7) need_sync_clear ns(6,8) by (auto simp: Let_def down_ok_def)
  qed
qed

lemma host_ok_acks:
  assumes "host_ok n sub built h" and "unat (sq_receive_seq h) < 2 ^ 63" and "b = message_block (seq_byte a) body"
    and "unat (sq_receive_seq h) \<le> a" and "a \<le> unat (sq_send_seq h)" and "h' = snd (handle_message t now b h)"
  shows "host_ok n sub built h' \<and> unat (sq_receive_seq h') = a \<and> sq_send_seq h' = sq_send_seq h"
proof -
  let ?r = "unat (sq_receive_seq h)"
  have h: "sent_ok h" "queued_ok h" "n \<le> ?r" "map payload_of (sq_sent_queue h) = drop (?r - n) built" "a \<le> ?r + 12"
    using assms(1,5) window [OF assms(1)] by (auto simp: host_ok_def)
  have "b ! 1 AND MESSAGE_SEQ_MASK = of_nat (a mod 16)" using assms(3) message_block_nth(2) seq_byte_simps(1) by simp
  then have rseq: "message_rseq h b = of_nat a" using h(5) assms(2,4) by (intro message_rseq_exact) simp_all
  have a: "unat (of_nat a :: u64) = a" using h(5) assms(2) by (simp add: unat_of_nat take_bit_nat_eq_self)
  then have "message_rseq h b \<le> sq_send_seq h" using assms(5) by (simp add: rseq word_le_nat_alt)
  then have m: "sent_ok h'" "same_queues h h'" "sq_receive_seq h' = of_nat a" "sq_send_seq h' = sq_send_seq h" "sq_sent_queue h' = drop (a - ?r) (sq_sent_queue h)"
    using handle_message_acks [OF h(1) _ assms(6)] assms(2) a by (simp_all add: rseq)
  have w: "waiting h' = waiting h" using m(2) by (auto simp: waiting_def same_queues_def)
  have "map payload_of (sq_sent_queue h') = drop (a - ?r) (drop (?r - n) built)" using m(5) h(4) by (simp add: drop_map [symmetric])
  also have "\<dots> = drop (a - n) built" using h(3) assms(4) by simp
  finally have "map payload_of (sq_sent_queue h') = drop (unat (sq_receive_seq h') - n) built" by (simp only: m(3) a)
  then show ?thesis using assms(1,4) m a w h(2) same_queues_ok [OF m(2)] by (simp add: host_ok_def)
qed

section \<open>The invariant is kept\<close>

lemma tp_inv_send:
  assumes "tp_inv n l" and "unat (sq_receive_seq (tp_host l)) < 2 ^ 63" and "command_event t (tp_host l) = Some (Inr x, h)"
    and "new = drop (length (sq_sent_queue (tp_host l))) (sq_sent_queue h)"
  shows "tp_inv n (l\<lparr>tp_host := h, tp_down := tp_down l @ map qm_bytes new, tp_built := tp_built l @ map payload_of new\<rparr>)"
proof -
  let ?h = "tp_host l" and ?f = "n + length (tp_delivered l)" and ?w = "unat (sq_send_seq (tp_host l))" and ?built = "tp_built l @ map payload_of new"
  have i: "host_ok n (tp_submitted l) (tp_built l) ?h" "unat (sq_receive_seq ?h) \<le> ?f" "?f \<le> ?w" "?w = n + length (tp_built l)"
      "tp_delivered l = take (length (tp_delivered l)) (tp_built l)"
    using assms(1) by (auto simp: tp_inv_def Let_def host_ok_def)
  obtain ns where ns: "down_ok n (tp_built l) ?f ?w ns (tp_down l)" using assms(1) by (auto simp: tp_inv_def Let_def)
  have "sending ?h [] h" using command_event_ok [of ?h t] i(1) assms(2,3) by (auto simp: host_ok_def wp_def)
  then have s: "sends ?h new h" using assms(4) by (auto simp: sending_def sends_def)
  note hs = host_ok_send [OF i(1) s]
  have w': "unat (sq_send_seq h) = ?w + length new" using hs(1) i(4) by (simp add: host_ok_def)
  have "down_ok n ?built ?f (?w + length new) (ns @ [?w..<?w + length new]) (tp_down l @ map qm_bytes new)"
    by (rule down_ok_append [OF ns i(4)]) (use i(2-4) hs(3) in \<open>auto simp: nth_append sorted_wrt_iff_nth_less\<close>)
  then show ?thesis using assms(1) hs(1,2) w' i(2,3,4,5) by (auto simp: tp_inv_def Let_def)
qed

lemma tp_inv_resend:
  assumes "tp_inv n l" and "retransmit_event t (tp_host l) = Some (Inr x, h)"
  shows "tp_inv n (l\<lparr>tp_host := h, tp_down := tp_down l @ map qm_bytes (sq_sent_queue (tp_host l))\<rparr>)"
proof -
  let ?h = "tp_host l" and ?f = "n + length (tp_delivered l)" and ?w = "unat (sq_send_seq (tp_host l))" and ?r = "unat (sq_receive_seq (tp_host l))"
  have i: "host_ok n (tp_submitted l) (tp_built l) ?h" "?r \<le> ?f" "?f \<le> ?w" "?w = n + length (tp_built l)" "n \<le> ?r" "sent_ok ?h"
    using assms(1) by (auto simp: tp_inv_def Let_def host_ok_def)
  obtain ns where ns: "down_ok n (tp_built l) ?f ?w ns (tp_down l)" using assms(1) by (auto simp: tp_inv_def Let_def)
  have w: "?w = ?r + length (sq_sent_queue ?h)" "?w \<le> ?r + 12" using i(6) by (auto simp: sent_ok_def)
  have h: "sent_ok h" "queued_ok h = queued_ok ?h" "waiting h = waiting ?h" "sq_sent_queue h = sq_sent_queue ?h"
    "sq_receive_seq h = sq_receive_seq ?h" "sq_send_seq h = sq_send_seq ?h"
    using retransmit_ok [OF i(6), of t] assms(2) by (auto simp: wp_def)
  have "down_ok n (tp_built l) ?f ?w (ns @ [?r..<?w]) (tp_down l @ map qm_bytes (sq_sent_queue ?h))"
    by (rule down_ok_append [OF ns i(4)]) (use w i host_ok_blocks [OF i(1)] in \<open>auto simp: sorted_wrt_iff_nth_less\<close>)
  then show ?thesis using assms(1) h by (auto simp: tp_inv_def Let_def host_ok_def)
qed

lemma tp_inv_receive:
  assumes "tp_inv n l" and "tp_down l = b # bs" and "command_find_block (tp_mcu l) b (length b) = (r, pop, nak, m)"
  shows "tp_inv n (l\<lparr>tp_down := bs, tp_mcu := m,
      tp_delivered := tp_delivered l @ (if r = 1 then [take (pop - MESSAGE_MIN) (drop MESSAGE_HEADER_SIZE b)] else []),
      tp_up := tp_up l @ (if r = 1 \<or> nak then [message_block (next_sequence m) []] else [])\<rparr>)"
proof -
  let ?h = "tp_host l" and ?f = "n + length (tp_delivered l)" and ?w = "unat (sq_send_seq (tp_host l))" and ?r = "unat (sq_receive_seq (tp_host l))"
  have i: "host_ok n (tp_submitted l) (tp_built l) ?h" "?r \<le> ?f" "?f \<le> ?w" "next_sequence (tp_mcu l) = seq_byte ?f"
      "sync_state (tp_mcu l) AND CF_NEED_SYNC = 0" "?w = n + length (tp_built l)" "list_all (\<lambda>p. length p \<le> MESSAGE_PAYLOAD_MAX) (tp_built l)"
      "tp_delivered l = take (length (tp_delivered l)) (tp_built l)"
    using assms(1) by (auto simp: tp_inv_def Let_def host_ok_def)
  obtain ns as where ns: "down_ok n (tp_built l) ?f ?w ns (b # bs)" and as: "up_ok ?r ?f as (tp_up l)"
    using assms(1,2) by (auto simp: tp_inv_def Let_def)
  have "?w \<le> ?f + 12" using window [OF i(1)] i(2) by simp
  note mr = mcu_receives [OF ns i(6) this i(7,4,5) assms(3)]
  note up = up_ok_append [OF as _ , of _ "[]"]
  show ?thesis
  proof (cases "r = 1")
    case True
    then have d: "length (tp_delivered l) < length (tp_built l)" using mr i(6) by auto
    have "tp_delivered l @ [tp_built l ! length (tp_delivered l)] = take (length (tp_delivered l) + 1) (tp_built l)"
      using d i(8) by (metis Suc_eq_plus1 take_Suc_conv_app_nth)
    then show ?thesis using True mr i up [of "?f + 1"] by (auto simp: tp_inv_def Let_def)
  next
    case False
    then show ?thesis using mr i up [of ?f] by (auto simp: tp_inv_def Let_def)
  qed
qed

lemma tp_inv_acknowledge:
  assumes "tp_inv n l" and "tp_up l = b # bs" and "unat (sq_receive_seq (tp_host l)) < 2 ^ 63" and "h = snd (handle_message t now b (tp_host l))"
  shows "tp_inv n (l\<lparr>tp_host := h, tp_up := bs\<rparr>)"
proof -
  let ?h = "tp_host l" and ?f = "n + length (tp_delivered l)" and ?w = "unat (sq_send_seq (tp_host l))" and ?r = "unat (sq_receive_seq (tp_host l))"
  have i: "host_ok n (tp_submitted l) (tp_built l) ?h" "?f \<le> ?w" using assms(1) by (auto simp: tp_inv_def Let_def)
  obtain a as body where a: "?r \<le> a" "a \<le> ?f" "b = message_block (seq_byte a) body"
    "list_all2 (\<lambda>b a. ?r \<le> a \<and> a \<le> ?f \<and> (\<exists>body. b = message_block (seq_byte a) body)) bs as" "\<forall>x \<in> set as. a \<le> x" "sorted as"
    using assms(1,2) by (auto simp: tp_inv_def Let_def up_ok_def list_all2_Cons1)
  have h: "host_ok n (tp_submitted l) (tp_built l) h" "unat (sq_receive_seq h) = a" "sq_send_seq h = sq_send_seq ?h"
    using host_ok_acks [OF i(1) assms(3) a(3,1) _ assms(4)] a(2) i(2) by auto
  have "list_all2 (\<lambda>b x. a \<le> x \<and> x \<le> ?f \<and> (\<exists>body. b = message_block (seq_byte x) body)) bs as"
  proof (rule list_all2_all_nthI)
    show len: "length bs = length as" using a(4) by (rule list_all2_lengthD)
    show "a \<le> as ! i \<and> as ! i \<le> ?f \<and> (\<exists>body. bs ! i = message_block (seq_byte (as ! i)) body)" if "i < length bs" for i
      using list_all2_nthD [OF a(4) that] bspec [OF a(5) nth_mem, of i] that len by auto
  qed
  then have "up_ok a ?f as bs" using a(6) by (simp add: up_ok_def)
  then show ?thesis using assms(1) h a(2) by (auto simp: tp_inv_def Let_def)
qed

lemma tp_inv_step:
  assumes "tp_step l l'" and "tp_inv n l"
  shows "tp_inv n l'"
  using assms
proof (induction rule: tp_step.induct)
  case (submit msgs l q)
  let ?h = "snd (serialqueue_send_batch q msgs (tp_host l))"
  have "host_ok n (tp_submitted l) (tp_built l) (tp_host l)" using submit by (simp add: tp_inv_def Let_def)
  then have "host_ok n ((tp_submitted l)(q := tp_submitted l q @ map qm_bytes msgs)) (tp_built l) ?h" "same_sent (tp_host l) ?h"
    using host_ok_submit [OF _ submit(1) refl] by blast+
  then show ?case using submit by (auto simp: tp_inv_def Let_def same_sent_def)
next
  case (other l h)
  then show ?case using local_step_same [of "tp_host l" h] host_ok_same [of n "tp_submitted l" "tp_built l" "tp_host l" h]
    by (auto simp: tp_inv_def Let_def same_sent_def)
next
  case (lose_down l xs b ys)
  then show ?case using down_ok_lose by (fastforce simp: tp_inv_def Let_def)
next
  case (lose_up l xs b ys)
  then show ?case using up_ok_lose by (fastforce simp: tp_inv_def Let_def)
next
  case (respond body l)
  let ?r = "unat (sq_receive_seq (tp_host l))" and ?f = "n + length (tp_delivered l)"
  obtain as where "up_ok ?r ?f as (tp_up l)" using respond by (auto simp: tp_inv_def Let_def)
  moreover have f: "?r \<le> ?f" "next_sequence (tp_mcu l) = seq_byte ?f" using respond by (auto simp: tp_inv_def Let_def)
  ultimately have "up_ok ?r ?f (as @ [?f]) (tp_up l @ [message_block (seq_byte ?f) body])"
    using up_ok_append [of ?r ?f as "tp_up l" ?f body] by simp
  then show ?case using respond f(2) by (auto simp: tp_inv_def Let_def)
next
  case (send l t w h new)
  then show ?case by (intro tp_inv_send)
next
  case (resend t l w h)
  then show ?case by (intro tp_inv_resend)
next
  case (receive l b bs r pop nak m)
  then show ?case by (intro tp_inv_receive)
next
  case (acknowledge l b bs t now)
  then show ?case by (intro tp_inv_acknowledge [OF _ _ _ refl])
qed

lemma tp_reach_inv: "tp_reach n l \<Longrightarrow> tp_inv n l"
  by (induction rule: tp_reach.induct) (auto intro: tp_inv_init tp_inv_step)

section \<open>Recovery\<close>

abbreviation tp_run :: "transport \<Rightarrow> transport \<Rightarrow> bool" where
  "tp_run \<equiv> tp_step\<^sup>*\<^sup>*"

lemma run_lose_down: "tp_run (l\<lparr>tp_down := xs\<rparr>) (l\<lparr>tp_down := []\<rparr>)"
proof (induction xs)
  case (Cons b xs)
  have "tp_step (l\<lparr>tp_down := b # xs\<rparr>) (l\<lparr>tp_down := b # xs\<rparr>\<lparr>tp_down := [] @ xs\<rparr>)" by (rule tp_step.lose_down) simp
  with Cons show ?case by (simp add: converse_rtranclp_into_rtranclp)
qed simp

lemma run_lose_up: "tp_run (l\<lparr>tp_up := xs @ ys\<rparr>) (l\<lparr>tp_up := ys\<rparr>)"
proof (induction xs)
  case (Cons b xs)
  have "tp_step (l\<lparr>tp_up := (b # xs) @ ys\<rparr>) (l\<lparr>tp_up := (b # xs) @ ys\<rparr>\<lparr>tp_up := [] @ (xs @ ys)\<rparr>)" by (rule tp_step.lose_up) simp
  with Cons show ?case by (simp add: converse_rtranclp_into_rtranclp)
qed simp

lemma tp_run_inv: "tp_run l l' \<Longrightarrow> tp_inv n l \<Longrightarrow> tp_inv n l'"
  by (induction rule: rtranclp_induct) (auto intro: tp_inv_step)

definition block_at :: "nat \<Rightarrow> transport \<Rightarrow> nat \<Rightarrow> u8 list" where
  "block_at n l k = message_block (seq_byte k) (tp_built l ! (k - n))"

text \<open>One block of a retransmission: the micro-controller is not behind it afterwards, and answers.\<close>

lemma receive_one:
  assumes "tp_inv n l" and "tp_down l = block_at n l k # bs" and "n \<le> k" and "k < n + length (tp_built l)" and "k \<le> n + length (tp_delivered l)"
    and "n + length (tp_delivered l) \<le> k + 12"
  shows "\<exists>l'. tp_step l l' \<and> tp_host l' = tp_host l \<and> tp_built l' = tp_built l \<and> tp_submitted l' = tp_submitted l \<and> tp_down l' = bs \<and>
    k + 1 \<le> n + length (tp_delivered l') \<and> (\<exists>us. tp_up l' = us @ [message_block (next_sequence (tp_mcu l')) []])"
proof -
  let ?f = "n + length (tp_delivered l)" and ?b = "block_at n l k"
  have i: "next_sequence (tp_mcu l) = seq_byte ?f" "sync_state (tp_mcu l) AND CF_NEED_SYNC = 0"
    "list_all (\<lambda>p. length p \<le> MESSAGE_PAYLOAD_MAX) (tp_built l)"
    using assms(1) by (auto simp: tp_inv_def Let_def host_ok_def)
  have "length (tp_built l ! (k - n)) \<le> MESSAGE_PAYLOAD_MAX" using i(3) assms(3,4) by (simp add: list_all_length)
  note fb = find_block_numbered [OF i(2) this block_at_def]
  obtain r pop nak m where c: "command_find_block (tp_mcu l) ?b (length ?b) = (r, pop, nak, m)" by (metis prod_cases4)
  have r: "r = 1 \<or> nak" "k = ?f \<Longrightarrow> r = 1" using fb c i(1) by (auto simp: Let_def split: if_splits)
  let ?l = "l\<lparr>tp_down := bs, tp_mcu := m,
      tp_delivered := tp_delivered l @ (if r = 1 then [take (pop - MESSAGE_MIN) (drop MESSAGE_HEADER_SIZE ?b)] else []),
      tp_up := tp_up l @ (if r = 1 \<or> nak then [message_block (next_sequence m) []] else [])\<rparr>"
  have "tp_step l ?l" by (rule tp_step.receive [OF assms(2) c])
  moreover have "k + 1 \<le> n + length (tp_delivered ?l)" using assms(5) r(2) by (cases "k = ?f") auto
  ultimately show ?thesis using r(1) by (intro exI [of _ ?l]) auto
qed

lemma receive_all:
  assumes "tp_inv n l" and "tp_down l = map (block_at n l) [k..<n + length (tp_built l)]" and "n \<le> k" and "k < n + length (tp_built l)"
    and "k \<le> n + length (tp_delivered l)" and "n + length (tp_built l) \<le> k + 12"
  shows "\<exists>l'. tp_run l l' \<and> tp_host l' = tp_host l \<and> tp_built l' = tp_built l \<and> tp_submitted l' = tp_submitted l \<and>
    n + length (tp_built l) \<le> n + length (tp_delivered l') \<and> (\<exists>us. tp_up l' = us @ [message_block (next_sequence (tp_mcu l')) []])"
  using assms
proof (induction "n + length (tp_built l) - k" arbitrary: l k rule: less_induct)
  case less
  let ?w = "n + length (tp_built l)"
  have down: "tp_down l = block_at n l k # map (block_at n l) [k + 1..<?w]" using less.prems(2,4) by (simp add: upt_conv_Cons)
  have "n + length (tp_delivered l) \<le> k + 12" using less.prems(1,6) by (auto simp: tp_inv_def Let_def host_ok_def)
  from receive_one [OF less.prems(1) down less.prems(3-5) this] obtain l1 where l1: "tp_step l l1" "tp_host l1 = tp_host l" "tp_built l1 = tp_built l"
    "tp_submitted l1 = tp_submitted l" "tp_down l1 = map (block_at n l) [k + 1..<?w]" "k + 1 \<le> n + length (tp_delivered l1)"
    "\<exists>us. tp_up l1 = us @ [message_block (next_sequence (tp_mcu l1)) []]" by blast
  show ?case
  proof (cases "k + 1 < ?w")
    case True
    have same: "block_at n l1 = block_at n l" by (rule ext) (simp add: block_at_def l1(3))
    have "\<exists>l'. tp_run l1 l' \<and> tp_host l' = tp_host l1 \<and> tp_built l' = tp_built l1 \<and> tp_submitted l' = tp_submitted l1 \<and>
        n + length (tp_built l1) \<le> n + length (tp_delivered l') \<and> (\<exists>us. tp_up l' = us @ [message_block (next_sequence (tp_mcu l')) []])"
      using True less.prems l1 same tp_inv_step [OF l1(1) less.prems(1)] by (intro less.hyps [of l1 "k + 1"]) simp_all
    with l1 show ?thesis by (metis converse_rtranclp_into_rtranclp)
  next
    case False
    then have "?w \<le> n + length (tp_delivered l1)" using l1(6) by linarith
    with l1 show ?thesis by (intro exI [of _ l1]) auto
  qed
qed

text \<open>The next acknowledgement empties the sent queue once the micro-controller has everything.\<close>

lemma acknowledge_all:
  assumes "tp_inv n l" and "unat (sq_receive_seq (tp_host l)) < 2 ^ 63" and "n + length (tp_built l) \<le> n + length (tp_delivered l)"
    and "tp_up l = us @ [message_block (next_sequence (tp_mcu l)) []]"
  shows "\<exists>l'. tp_run l l' \<and> sq_sent_queue (tp_host l') = [] \<and> tp_built l' = tp_built l \<and> tp_submitted l' = tp_submitted l \<and>
    tp_delivered l' = tp_built l"
proof -
  let ?h = "tp_host l" and ?w = "unat (sq_send_seq (tp_host l))" and ?b = "message_block (next_sequence (tp_mcu l)) []"
  have i: "host_ok n (tp_submitted l) (tp_built l) ?h" "unat (sq_receive_seq ?h) \<le> ?w" "?w = n + length (tp_built l)"
    "tp_delivered l = take (length (tp_delivered l)) (tp_built l)" "n + length (tp_delivered l) \<le> ?w" "next_sequence (tp_mcu l) = seq_byte (n + length (tp_delivered l))"
    using assms(1) by (auto simp: tp_inv_def Let_def host_ok_def)
  have len: "length (tp_delivered l) = length (tp_built l)" using i(3,5) assms(3) by simp
  then have d: "tp_delivered l = tp_built l" using i(4) by (metis order_refl take_all)
  have b: "?b = message_block (seq_byte ?w) []" using i(3,6) len by simp
  let ?l1 = "l\<lparr>tp_up := [?b]\<rparr>" and ?h' = "snd (handle_message 0 0 ?b ?h)"
  have "l = l\<lparr>tp_up := us @ [?b]\<rparr>" using assms(4) by simp
  then have "tp_run l ?l1" by (metis run_lose_up)
  moreover have "tp_step ?l1 (?l1\<lparr>tp_host := snd (handle_message 0 0 ?b (tp_host ?l1)), tp_up := []\<rparr>)"
    by (rule tp_step.acknowledge) (use assms(2) in simp_all)
  ultimately have run: "tp_run l (l\<lparr>tp_host := ?h', tp_up := []\<rparr>)" by (simp add: rtranclp.rtrancl_into_rtrancl)
  have "host_ok n (tp_submitted l) (tp_built l) ?h' \<and> unat (sq_receive_seq ?h') = ?w \<and> sq_send_seq ?h' = sq_send_seq ?h"
    by (rule host_ok_acks [OF i(1) assms(2) b i(2) order_refl refl])
  then have "unat (sq_send_seq ?h') = unat (sq_receive_seq ?h') + length (sq_sent_queue ?h')" "unat (sq_receive_seq ?h') = ?w"
      "unat (sq_send_seq ?h') = ?w"
    unfolding host_ok_def sent_ok_def by auto
  then have "length (sq_sent_queue ?h') = 0" by linarith
  with run d show ?thesis by (intro exI [of _ "l\<lparr>tp_host := ?h', tp_up := []\<rparr>"]) simp
qed

section \<open>Delivery\<close>

text \<open>Both ends after the first exchange of a connection: the micro-controller starts at zero, the host goes on with 16.\<close>

definition connected :: serialqueue where
  "connected = snd (handle_message 0 0 (message_block (next_sequence command_link_init) []) (serialqueue_alloc SQT_UART 0))"

lemma connected_agrees: "agrees 16 connected command_link_init \<and> waiting connected = (\<lambda>_. [])"
proof -
  let ?s = "serialqueue_alloc SQT_UART 0" and ?b = "message_block (next_sequence command_link_init) []"
  have s: "sent_ok ?s" "queued_ok ?s" "sq_receive_seq ?s = 1" "sq_send_seq ?s = 1" "sq_sent_queue ?s = []"
    by (simp_all add: sent_ok_def queued_ok_def serialqueue_alloc_def)
  have "next_sequence command_link_init = seq_byte 16" by (simp add: command_link_init_def seq_byte_def)
  then have "?b ! 1 AND MESSAGE_SEQ_MASK = of_nat (16 mod 16)" using message_block_nth(2) seq_byte_simps(1) by simp
  then have rseq: "message_rseq ?s ?b = of_nat 16" by (rule message_rseq_exact) (simp_all add: s)
  have a: "sent_ok (acked 0 ?b ?s)" "same_queues ?s (acked 0 ?b ?s)" "sq_receive_seq (acked 0 ?b ?s) = 16"
    using acked_ok [OF s(1), of 0 ?b] rseq by (simp_all add: s)
  have sent: "sq_sent_queue (acked 0 ?b ?s) = [] \<and> sq_send_seq (acked 0 ?b ?s) = 16"
    using rseq s by (simp add: acked_def update_receive_seq_def Let_def update_rtt_def split: if_splits)
  have c: "same_sent (acked 0 ?b ?s) connected" "same_queues (acked 0 ?b ?s) connected"
    using handle_message_cases [OF connected_def] s(3) by auto
  then have ok: "sent_ok connected" "queued_ok connected"
    using a(1,2) s(2) same_sent_ok same_queues_ok by blast+
  have "waiting connected = waiting ?s" using a(2) c(2) by (auto simp: waiting_def same_queues_def)
  then have "waiting connected = (\<lambda>_. [])" by (simp add: waiting_def [abs_def] serialqueue_alloc_def)
  with ok show ?thesis using c(1) a(3) sent
    by (simp add: agrees_def same_sent_def command_link_init_def seq_byte_def)
qed

lemma tp_reach_sample: "\<exists>l. tp_reach 16 l \<and> tp_submitted l 0 = [[7]] \<and> unat (sq_receive_seq (tp_host l)) < 2 ^ 63"
proof -
  let ?l = "tp_init connected command_link_init" and ?m = "message_fill [7]"
  have m: "list_all msg_ok [?m]" "qm_bytes ?m = [7]" by (simp_all add: msg_ok_def qm_bytes_def message_fill_def message_alloc_def store_at_def)
  let ?l' = "?l\<lparr>tp_host := snd (serialqueue_send_batch 0 [?m] (tp_host ?l)), tp_submitted := (tp_submitted ?l)(0 := tp_submitted ?l 0 @ map qm_bytes [?m])\<rparr>"
  have "tp_reach 16 ?l'"
    using connected_agrees by (intro tp_reach.step [OF tp_reach.init tp_step.submit [OF m(1)]]) blast
  moreover have "queued_ok connected" "unat (sq_receive_seq connected) = 16" using connected_agrees by (auto simp: agrees_def)
  then have "unat (sq_receive_seq (tp_host ?l')) = 16"
    using send_batch_ok [OF _ _ refl, of connected "[?m]" 0] m(1) by (simp add: tp_init_def same_sent_def)
  moreover have "tp_submitted ?l' 0 = [[7]]" using connected_agrees m(2) by (simp add: tp_init_def)
  ultimately show ?thesis by (intro exI [of _ ?l']) simp
qed

text \<open>
  C1.  Commands arrive exactly once and in order over a line that loses blocks.  Whatever is lost and
  however often the host sends again, the contents of the blocks the micro-controller has accepted
  are the contents of the blocks the host has built, in order, without a gap and without a repetition
  up to the point reached; a block the host has dropped from its sent queue has been accepted; and the
  blocks built consist of the submitted commands, unchanged and in the order of their queues, the rest
  of which still waits.
\<close>

theorem transport_exactly_once:
  assumes "tp_reach n l"
  shows "tp_delivered l = take (length (tp_delivered l)) (tp_built l) \<and>
    unat (sq_receive_seq (tp_host l)) - n \<le> length (tp_delivered l) \<and>
    map payload_of (sq_sent_queue (tp_host l)) = drop (unat (sq_receive_seq (tp_host l)) - n) (tp_built l) \<and>
    (\<exists>cmds. concat (tp_built l) = concat (map snd cmds) \<and>
       (\<forall>q. tp_submitted l q = map snd (filter (\<lambda>c. fst c = q) cmds) @ map qm_bytes (waiting (tp_host l) q)))"
  using tp_reach_inv [OF assms] unfolding tp_inv_def host_ok_def Let_def by (elim conjE) (intro conjI; simp)

theorem transport_exactly_once_witness:
  "\<exists>l. tp_reach 16 l \<and> tp_submitted l 0 = [[7]] \<and> tp_delivered l = take (length (tp_delivered l)) (tp_built l) \<and>
     (\<exists>cmds :: (nat \<times> u8 list) list. concat (tp_built l) = concat (map snd cmds) \<and>
       [[7]] = map snd (filter (\<lambda>c. fst c = 0) cmds) @ map qm_bytes (waiting (tp_host l) 0))"
proof -
  obtain l where l: "tp_reach 16 l" "tp_submitted l 0 = [[7]]" using tp_reach_sample by blast
  show ?thesis using transport_exactly_once [OF l(1)] l by (intro exI [of _ l]) metis
qed



end
