(* ===== verification/Trdispatch.thy ===== *)
theory Trdispatch
  imports Serialqueue_correct
begin

text \<open>
  Trigger synchronisation across micro-controllers, \<^verbatim>\<open>klippy/chelper/trdispatch.c\<close>: the host
  relays the status reports of one \<^verbatim>\<open>trsync\<close> object per controller, extends their timeouts, and
  passes a trigger on to all of them.

  The serial queues are looked up by number in \<open>td_sqs\<close>, a \<^verbatim>\<open>trdispatch_mcu\<close> is named by its
  position in the list, which also is what its fast reader carries.  Floating point numbers are
  reals.
\<close>

section \<open>State\<close>

record trdispatch_mcu =
  tdm_fr :: fastreader
  tdm_sq :: nat
  tdm_cq :: nat
  tdm_trsync_oid :: u32
  tdm_set_timeout_msgtag :: u32
  tdm_trigger_msgtag :: u32
  tdm_last_status_clock :: u64
  tdm_expire_clock :: u64
  tdm_expire_ticks :: u64
  tdm_min_extend_ticks :: u64
  tdm_ce :: clock_estimate

type_synonym serialqueues = "nat \<Rightarrow> serialqueue"

record trdispatch =
  td_tdm_list :: "trdispatch_mcu list"
  td_is_active :: u32
  td_can_trigger :: u32
  td_dispatch_reason :: u32
  td_sqs :: serialqueues

section \<open>Messages\<close>

definition send_trsync_trigger :: "u32 \<Rightarrow> trdispatch_mcu \<Rightarrow> serialqueues \<Rightarrow> serialqueues" where
  "send_trsync_trigger dispatch_reason tdm sqs =
     (let qm = message_alloc_and_encode [tdm_trigger_msgtag tdm, tdm_trsync_oid tdm, dispatch_reason]
      in sqs(tdm_sq tdm := snd (serialqueue_send_one (tdm_cq tdm) qm (sqs (tdm_sq tdm)))))"

definition send_trsync_set_timeout :: "trdispatch_mcu \<Rightarrow> serialqueues \<Rightarrow> serialqueues" where
  "send_trsync_set_timeout tdm sqs =
     (let qm = (message_alloc_and_encode [tdm_set_timeout_msgtag tdm, tdm_trsync_oid tdm, ucast (tdm_expire_clock tdm)])
                 \<lparr>qm_req_clock := tdm_expire_clock tdm\<rparr>
      in sqs(tdm_sq tdm := snd (serialqueue_send_one (tdm_cq tdm) qm (sqs (tdm_sq tdm)))))"

section \<open>Status reports\<close>

text \<open>The loop for the smallest and the second smallest acknowledged time; \<open>i\<close> is the position of the list's head.\<close>

fun min_status_times :: "nat \<Rightarrow> trdispatch_mcu list \<Rightarrow> real \<times> real \<times> nat option \<Rightarrow> real \<times> real \<times> nat option" where
  "min_status_times i [] acc = acc"
| "min_status_times i (m # ms) (min_time, next_min_time, min_tdm) =
     (let status_time = clock_to_time (tdm_ce m) (tdm_last_status_clock m)
      in min_status_times (i + 1) ms
           (if status_time < next_min_time then
              if status_time < min_time then (status_time, min_time, Some i) else (min_time, status_time, min_tdm)
            else (min_time, next_min_time, min_tdm)))"

text \<open>
  The loop that extends the timeouts.  The difference is cast to \<^verbatim>\<open>int64_t\<close> in the code, but it is
  compared with the unsigned \<^verbatim>\<open>min_extend_ticks\<close>, so the comparison is one of unsigned numbers.
\<close>

fun extend_timeouts :: "real \<Rightarrow> real \<Rightarrow> nat option \<Rightarrow> nat \<Rightarrow> trdispatch_mcu list \<Rightarrow> serialqueues \<Rightarrow> trdispatch_mcu list \<times> serialqueues" where
  "extend_timeouts min_time next_min_time min_tdm i [] sqs = ([], sqs)"
| "extend_timeouts min_time next_min_time min_tdm i (m # ms) sqs =
     (let status_time = (if min_tdm = Some i then next_min_time else min_time);
          expire = clock_from_time (tdm_ce m) status_time + tdm_expire_ticks m;
          extend = (expire - tdm_expire_clock m \<ge> tdm_min_extend_ticks m);
          m' = (if extend then m\<lparr>tdm_expire_clock := expire\<rparr> else m);
          sqs = (if extend then send_trsync_set_timeout m' sqs else sqs);
          (ms', sqs) = extend_timeouts min_time next_min_time min_tdm (i + 1) ms sqs
      in (m' # ms', sqs))"

text \<open>The part of \<^verbatim>\<open>handle_trsync_state\<close> after the message has been parsed; \<open>i\<close> is the controller that reports.\<close>

definition process_trsync_state :: "nat \<Rightarrow> trdispatch_mcu \<Rightarrow> u32 \<Rightarrow> u32 \<Rightarrow> trdispatch \<Rightarrow> trdispatch" where
  "process_trsync_state i tdm can_trigger clock td =
     (if td_can_trigger td = 0 then td
      else if can_trigger = 0 then
        td\<lparr>td_can_trigger := 0, td_sqs := fold (send_trsync_trigger (td_dispatch_reason td)) (td_tdm_list td) (td_sqs td)\<rparr>
      else
        let ce = serialqueue_get_clock_est (td_sqs td (tdm_sq tdm));
            tdms = (td_tdm_list td)[i := tdm\<lparr>tdm_ce := ce, tdm_last_status_clock := clock_from_clock32 ce clock\<rparr>];
            (min_time, next_min_time, min_tdm) = min_status_times 0 tdms (PR_NEVER, PR_NEVER, None);
            next_min_time = (if next_min_time = PR_NEVER then min_time else next_min_time);
            (tdms, sqs) = extend_timeouts min_time next_min_time min_tdm 0 tdms (td_sqs td)
        in td\<lparr>td_tdm_list := tdms, td_sqs := sqs\<rparr>)"

text \<open>\<open>None\<close> stands for a read outside the message while it is decoded, or a fast reader that is not in the list.\<close>

definition handle_trsync_state :: "nat \<Rightarrow> u8 list \<Rightarrow> trdispatch \<Rightarrow> trdispatch option" where
  "handle_trsync_state i data td =
     (case (drop i (td_tdm_list td), msgblock_decode 5 data (length data)) of
        (tdm # _, Some (rc, vals)) \<Rightarrow>
          Some (if rc \<noteq> 0 \<or> vals ! 1 \<noteq> tdm_trsync_oid tdm then td
                else process_trsync_state i tdm (vals ! 2) (vals ! 4) td)
      | _ \<Rightarrow> None)"

section \<open>Interface functions\<close>

definition trdispatch_start :: "u32 \<Rightarrow> trdispatch \<Rightarrow> trdispatch" where
  "trdispatch_start dispatch_reason td =
     (if td_is_active td \<noteq> 0 \<or> td_tdm_list td = [] then td
      else
        td\<lparr>td_dispatch_reason := dispatch_reason, td_is_active := 1, td_can_trigger := 1,
            td_sqs := fold (\<lambda>tdm sqs. sqs(tdm_sq tdm := serialqueue_add_fastreader (tdm_fr tdm) (sqs (tdm_sq tdm))))
                        (td_tdm_list td) (td_sqs td)\<rparr>)"

definition trdispatch_stop :: "trdispatch \<Rightarrow> trdispatch" where
  "trdispatch_stop td =
     (if td_is_active td = 0 then td
      else
        td\<lparr>td_is_active := 0,
            td_sqs := fold (\<lambda>tdm sqs. sqs(tdm_sq tdm := serialqueue_rm_fastreader (tdm_fr tdm) (sqs (tdm_sq tdm))))
                        (td_tdm_list td) (td_sqs td)\<rparr>)"

definition trdispatch_alloc :: "serialqueues \<Rightarrow> trdispatch" where
  "trdispatch_alloc sqs = \<lparr>td_tdm_list = [], td_is_active = 0, td_can_trigger = 0, td_dispatch_reason = 0, td_sqs = sqs\<rparr>"

definition trdispatch_mcu_alloc :: "nat \<Rightarrow> nat \<Rightarrow> u32 \<Rightarrow> u32 \<Rightarrow> u32 \<Rightarrow> u32 \<Rightarrow> trdispatch \<Rightarrow> trdispatch" where
  "trdispatch_mcu_alloc s cq trsync_oid set_timeout_msgtag trigger_msgtag state_msgtag td =
     (let prefix = qm_bytes (message_alloc_and_encode [state_msgtag, trsync_oid]);
          tdm = \<lparr>tdm_fr = \<lparr>fr_func = length (td_tdm_list td), fr_prefix = prefix\<rparr>, tdm_sq = s, tdm_cq = cq,
                 tdm_trsync_oid = trsync_oid, tdm_set_timeout_msgtag = set_timeout_msgtag, tdm_trigger_msgtag = trigger_msgtag,
                 tdm_last_status_clock = 0, tdm_expire_clock = 0, tdm_expire_ticks = 0, tdm_min_extend_ticks = 0,
                 tdm_ce = \<lparr>ce_last_clock = 0, ce_conv_clock = 0, ce_conv_time = 0, ce_est_freq = 0\<rparr>\<rparr>
      in td\<lparr>td_tdm_list := td_tdm_list td @ [tdm]\<rparr>)"

definition trdispatch_mcu_setup :: "nat \<Rightarrow> u64 \<Rightarrow> u64 \<Rightarrow> u64 \<Rightarrow> u64 \<Rightarrow> trdispatch \<Rightarrow> trdispatch option" where
  "trdispatch_mcu_setup i last_status_clock expire_clock expire_ticks min_extend_ticks td =
     (case drop i (td_tdm_list td) of
        [] \<Rightarrow> None
      | tdm # _ \<Rightarrow>
          Some (td\<lparr>td_tdm_list := (td_tdm_list td)[i := tdm\<lparr>tdm_last_status_clock := last_status_clock,
            tdm_expire_clock := expire_clock, tdm_expire_ticks := expire_ticks, tdm_min_extend_ticks := min_extend_ticks,
            tdm_ce := serialqueue_get_clock_est (td_sqs td (tdm_sq tdm))\<rparr>]\<rparr>))"

section \<open>What is queued\<close>

text \<open>The contents of the commands that wait in queue \<open>q\<close> of serial queue \<open>s\<close>.\<close>

definition queued :: "serialqueues \<Rightarrow> nat \<times> nat \<Rightarrow> u8 list list" where
  "queued sqs a = map qm_bytes (waiting (sqs (fst a)) (snd a))"

definition address :: "trdispatch_mcu \<Rightarrow> nat \<times> nat" where
  "address m = (tdm_sq m, tdm_cq m)"

lemma waiting_send_one:
  assumes "qm_len qm \<noteq> 0"
  shows "map qm_bytes (waiting (snd (serialqueue_send_one q qm s)) x) = map qm_bytes (waiting s x) @ (if x = q then [qm_bytes qm] else [])"
  using assms set_min_clock_ok(2,3) [of qm] by (simp add: serialqueue_send_one_def serialqueue_send_batch_def Let_def waiting_def)

lemma three_ints_fit: "length (vlq_bytes [a, b, c]) \<le> MESSAGE_PAYLOAD_MAX \<and> vlq_bytes [a, b, c] \<noteq> []"
  using length_encode_int [of a] length_encode_int [of b] length_encode_int [of c] by auto

lemma three_ints:
  "qm_bytes (message_alloc_and_encode [a, b, c]) = vlq_bytes [a, b, c]" "qm_len (message_alloc_and_encode [a, b, c]) \<noteq> 0"
  using message_encode_fits [of "[a, b, c]"] three_ints_fit [of a b c] by auto

lemma queued_trigger:
  "queued (send_trsync_trigger r m sqs) x =
    queued sqs x @ (if x = address m then [vlq_bytes [tdm_trigger_msgtag m, tdm_trsync_oid m, r]] else [])"
  using waiting_send_one [OF three_ints(2)] by (cases x) (auto simp: queued_def send_trsync_trigger_def Let_def three_ints address_def)

lemma queued_set_timeout:
  "queued (send_trsync_set_timeout m sqs) x =
    queued sqs x @ (if x = address m then [vlq_bytes [tdm_set_timeout_msgtag m, tdm_trsync_oid m, ucast (tdm_expire_clock m)]] else [])"
proof -
  let ?qm = "(message_alloc_and_encode [tdm_set_timeout_msgtag m, tdm_trsync_oid m, ucast (tdm_expire_clock m)])
                 \<lparr>qm_req_clock := tdm_expire_clock m\<rparr>"
  have "qm_len ?qm \<noteq> 0" "qm_bytes ?qm = vlq_bytes [tdm_set_timeout_msgtag m, tdm_trsync_oid m, ucast (tdm_expire_clock m)]"
    using three_ints by (simp_all add: qm_bytes_def)
  then show ?thesis using waiting_send_one [of ?qm] by (cases x) (auto simp: queued_def send_trsync_set_timeout_def Let_def address_def)
qed

lemma queued_triggers:
  assumes "distinct (map address ms)" and "m \<in> set ms"
  shows "queued (fold (send_trsync_trigger r) ms sqs) (address m) =
    queued sqs (address m) @ [vlq_bytes [tdm_trigger_msgtag m, tdm_trsync_oid m, r]]"
proof -
  have other: "queued (fold (send_trsync_trigger r) ms sqs) x = queued sqs x" if "x \<notin> address ` set ms" for x ms sqs
    using that by (induction ms arbitrary: sqs) (auto simp: queued_trigger)
  show ?thesis using assms by (induction ms arbitrary: sqs) (auto simp: queued_trigger other)
qed

text \<open>Queueing such a message is something the callback of a fast reader may do.\<close>

lemma trigger_msg_ok: "msg_ok (message_alloc_and_encode [a, b, c])"
  using message_encode_fits(2) [of "[a, b, c]"] three_ints_fit [of a b c] message_encode_safe [of "[a, b, c]"]
  by (auto simp: msg_ok_def message_alloc_and_encode_def message_alloc_def split: prod.splits option.splits)

lemma fast_ok_trigger: "fast_ok (\<lambda>_ _. upd (\<lambda>s. snd (serialqueue_send_one q (message_alloc_and_encode [a, b, c]) s)))"
  using send_batch_ok [OF _ _ refl, of _ "[message_alloc_and_encode [a, b, c]]" q] trigger_msg_ok [of a b c]
  by (simp add: fast_ok_def wp_simps serialqueue_send_one_def)

section \<open>The two smallest times\<close>

definition status_time :: "trdispatch_mcu \<Rightarrow> real" where
  "status_time m = clock_to_time (tdm_ce m) (tdm_last_status_clock m)"

text \<open>What the loop knows after the first \<open>k\<close> of the times \<open>ts\<close>.\<close>

fun scanned :: "real list \<Rightarrow> nat \<Rightarrow> real \<times> real \<times> nat option \<Rightarrow> bool" where
  "scanned ts k (mn, nx, None) \<longleftrightarrow> mn = PR_NEVER \<and> nx = PR_NEVER \<and> (\<forall>j < k. PR_NEVER \<le> ts ! j)"
| "scanned ts k (mn, nx, Some w) \<longleftrightarrow> w < k \<and> mn = ts ! w \<and> mn \<le> nx \<and> mn < PR_NEVER \<and> nx \<le> PR_NEVER \<and>
     (\<forall>j < k. mn \<le> ts ! j \<and> (j \<noteq> w \<longrightarrow> nx \<le> ts ! j \<or> nx = PR_NEVER \<and> PR_NEVER \<le> ts ! j)) \<and> (nx = PR_NEVER \<or> (\<exists>j < k. j \<noteq> w \<and> nx = ts ! j))"

lemma scanned_step:
  assumes "scanned ts k (mn, nx, who)" and "st = ts ! k"
  shows "scanned ts (Suc k) (if st < nx then if st < mn then (st, mn, Some k) else (mn, st, who) else (mn, nx, who))"
proof (cases who)
  case None
  then show ?thesis using assms by (auto simp: less_Suc_eq)
next
  case (Some w)
  then have a: "w < k" "mn = ts ! w" "mn \<le> nx" "mn < PR_NEVER" "nx \<le> PR_NEVER" "\<And>j. j < k \<Longrightarrow> mn \<le> ts ! j"
    "\<And>j. j < k \<Longrightarrow> j \<noteq> w \<Longrightarrow> nx \<le> ts ! j" "nx = PR_NEVER \<or> (\<exists>j < k. j \<noteq> w \<and> nx = ts ! j)"
    using assms(1) by auto
  consider "nx \<le> st" | "st < nx" "mn \<le> st" | "st < nx" "st < mn" by linarith
  then show ?thesis
  proof cases
    case 1
    then show ?thesis using a Some assms(2) by (auto simp: less_Suc_eq)
  next
    case 2
    then have "st \<le> ts ! j" if "j < Suc k" "j \<noteq> w" for j using a(7) [of j] that assms(2) by (auto simp: less_Suc_eq)
    then show ?thesis using 2 a Some assms(2) by (auto simp: less_Suc_eq)
  next
    case 3
    then have "st \<le> ts ! j \<and> (j \<noteq> k \<longrightarrow> mn \<le> ts ! j)" if "j < Suc k" for j
      using a(6) [of j] that assms(2) by (auto simp: less_Suc_eq)
    then show ?thesis using 3 a Some assms(2) by (auto simp: less_Suc_eq)
  qed
qed

lemma min_status_times_scanned:
  assumes "scanned (map status_time all) i acc" and "drop i all = ms" and "i \<le> length all"
  shows "scanned (map status_time all) (length all) (min_status_times i ms acc)"
  using assms
proof (induction i ms acc rule: min_status_times.induct)
  case (2 i m ms mn nx who)
  have "i < length all" using "2.prems"(2) by (metis drop_all list.distinct(1) not_le_imp_less)
  then have m: "status_time m = map status_time all ! i" "drop (i + 1) all = ms"
    using "2.prems"(2) Cons_nth_drop_Suc [of i all] by auto
  let ?st = "clock_to_time (tdm_ce m) (tdm_last_status_clock m)"
  have "?st = map status_time all ! i" using m(1) by (simp add: status_time_def)
  note s = scanned_step [OF "2.prems"(1) this, unfolded Suc_eq_plus1]
  show ?case using "2.IH" [OF refl s m(2)] \<open>i < length all\<close> by (simp add: Let_def)
qed simp

text \<open>The time of the slowest other controller.\<close>

definition slowest_other :: "trdispatch_mcu list \<Rightarrow> nat \<Rightarrow> real" where
  "slowest_other ms k = Min (set (map (\<lambda>j. status_time (ms ! j)) (filter (\<lambda>j. j \<noteq> k) [0..<length ms])))"

lemma slowest_otherI:
  assumes "j < length ms" and "j \<noteq> k" and "\<And>i. i < length ms \<Longrightarrow> i \<noteq> k \<Longrightarrow> status_time (ms ! j) \<le> status_time (ms ! i)"
  shows "slowest_other ms k = status_time (ms ! j)"
  unfolding slowest_other_def using assms by (intro Min_eqI) auto

lemma min_status_times_others:
  assumes "2 \<le> length ms" and "\<forall>m \<in> set ms. status_time m < PR_NEVER" and "min_status_times 0 ms (PR_NEVER, PR_NEVER, None) = (mn, nx, who)" and "k < length ms"
  shows "(if who = Some k then (if nx = PR_NEVER then mn else nx) else mn) = slowest_other ms k"
proof -
  have "scanned (map status_time ms) (length ms) (mn, nx, who)"
    using min_status_times_scanned [of ms 0 "(PR_NEVER, PR_NEVER, None)" ms] assms(3) by simp
  moreover have never: "status_time (ms ! j) < PR_NEVER" if "j < length ms" for j using assms(2) that by simp
  ultimately obtain w where w: "who = Some w" "w < length ms" "mn = status_time (ms ! w)" "\<And>j. j < length ms \<Longrightarrow> mn \<le> status_time (ms ! j)"
      "\<And>j. j < length ms \<Longrightarrow> j \<noteq> w \<Longrightarrow> nx \<le> status_time (ms ! j)" "nx = PR_NEVER \<or> (\<exists>j < length ms. j \<noteq> w \<and> nx = status_time (ms ! j))"
    using assms(4) by (cases who) force+
  show ?thesis
  proof (cases "k = w")
    case False
    then show ?thesis using w slowest_otherI [of w ms k] by simp
  next
    case True
    obtain o1 where "o1 < length ms" "o1 \<noteq> w" using assms(1) w(2) by (metis One_nat_def Suc_1 Suc_le_lessD less_2_cases_iff not_less_eq not_less_zero one_neq_zero)
    then have "nx \<noteq> PR_NEVER" using w(5) [of o1] never [of o1] by auto
    then obtain j where "j < length ms" "j \<noteq> w" "nx = status_time (ms ! j)" using w(6) by blast
    then show ?thesis using True w(1,5) \<open>nx \<noteq> PR_NEVER\<close> slowest_otherI [of j ms k] by simp
  qed
qed

section \<open>Extending the timeouts\<close>

text \<open>A controller and the message for it when it is told about the acknowledged time \<open>t\<close>.\<close>

definition extended :: "real \<Rightarrow> trdispatch_mcu \<Rightarrow> trdispatch_mcu" where
  "extended t m = (let expire = clock_from_time (tdm_ce m) t + tdm_expire_ticks m
     in if tdm_min_extend_ticks m \<le> expire - tdm_expire_clock m then m\<lparr>tdm_expire_clock := expire\<rparr> else m)"

definition timeout_message :: "real \<Rightarrow> trdispatch_mcu \<Rightarrow> u8 list list" where
  "timeout_message t m = (let expire = clock_from_time (tdm_ce m) t + tdm_expire_ticks m
     in if tdm_min_extend_ticks m \<le> expire - tdm_expire_clock m
        then [vlq_bytes [tdm_set_timeout_msgtag m, tdm_trsync_oid m, ucast expire]] else [])"

lemma extend_timeouts_Cons:
  assumes "extend_timeouts mn nx who i (m # ms) sqs = (ms', sqs')"
  obtains s1 ms1 where "extend_timeouts mn nx who (i + 1) ms s1 = (ms1, sqs')" "ms' = extended (if who = Some i then nx else mn) m # ms1"
    "\<And>x. queued s1 x = queued sqs x @ (if x = address m then timeout_message (if who = Some i then nx else mn) m else [])"
proof -
  define t where "t = (if who = Some i then nx else mn)"
  define expire where "expire = clock_from_time (tdm_ce m) t + tdm_expire_ticks m"
  define extend where "extend = (expire - tdm_expire_clock m \<ge> tdm_min_extend_ticks m)"
  define m' where "m' = (if extend then m\<lparr>tdm_expire_clock := expire\<rparr> else m)"
  define s1 where "s1 = (if extend then send_trsync_set_timeout m' sqs else sqs)"
  obtain ms1 where r: "extend_timeouts mn nx who (i + 1) ms s1 = (ms1, sqs')" "ms' = m' # ms1"
    using assms unfolding extend_timeouts.simps Let_def t_def [symmetric] expire_def [symmetric] extend_def [symmetric] m'_def [symmetric] s1_def [symmetric]
    by (auto split: prod.splits)
  have "m' = extended t m" by (simp add: extended_def Let_def m'_def extend_def expire_def)
  moreover have "queued s1 x = queued sqs x @ (if x = address m then timeout_message t m else [])" for x
    by (simp add: s1_def queued_set_timeout m'_def address_def timeout_message_def Let_def extend_def expire_def)
  ultimately show thesis using r that unfolding t_def by blast
qed

lemma extend_timeouts_spec:
  assumes "extend_timeouts mn nx who i ms sqs = (ms', sqs')" and "distinct (map address ms)"
  shows "length ms' = length ms \<and> (\<forall>x. x \<notin> address ` set ms \<longrightarrow> queued sqs' x = queued sqs x) \<and>
    (\<forall>k < length ms. ms' ! k = extended (if who = Some (i + k) then nx else mn) (ms ! k) \<and>
       queued sqs' (address (ms ! k)) = queued sqs (address (ms ! k)) @ timeout_message (if who = Some (i + k) then nx else mn) (ms ! k))"
  using assms
proof (induction ms arbitrary: i sqs ms' sqs')
  case (Cons m ms)
  obtain s1 ms1 where r: "extend_timeouts mn nx who (i + 1) ms s1 = (ms1, sqs')" "ms' = extended (if who = Some i then nx else mn) m # ms1"
    "\<And>x. queued s1 x = queued sqs x @ (if x = address m then timeout_message (if who = Some i then nx else mn) m else [])"
    using extend_timeouts_Cons [OF Cons.prems(1)] by metis
  have notin: "address m \<notin> address ` set ms" and d: "distinct (map address ms)" using Cons.prems(2) by auto
  have IH: "length ms1 = length ms" "\<And>x. x \<notin> address ` set ms \<Longrightarrow> queued sqs' x = queued s1 x"
    "\<And>k. k < length ms \<Longrightarrow> ms1 ! k = extended (if who = Some (i + 1 + k) then nx else mn) (ms ! k) \<and>
      queued sqs' (address (ms ! k)) = queued s1 (address (ms ! k)) @ timeout_message (if who = Some (i + 1 + k) then nx else mn) (ms ! k)"
    using Cons.IH [OF r(1) d] by blast+
  have other: "queued s1 (address (ms ! k)) = queued sqs (address (ms ! k))" if "k < length ms" for k
  proof -
    have "address (ms ! k) \<noteq> address m" using notin imageI [OF nth_mem [OF that], of address] by auto
    then show ?thesis by (simp only: r(3) if_False append_Nil2)
  qed
  have "ms' ! k = extended (if who = Some (i + k) then nx else mn) ((m # ms) ! k) \<and> queued sqs' (address ((m # ms) ! k)) =
      queued sqs (address ((m # ms) ! k)) @ timeout_message (if who = Some (i + k) then nx else mn) ((m # ms) ! k)"
    if "k < length (m # ms)" for k
  proof (cases k)
    case 0
    then show ?thesis using IH(2) [OF notin] r(2,3) by simp
  next
    case (Suc j)
    then show ?thesis using IH(3) [of j] r(2) other [of j] that by simp
  qed
  moreover have "queued sqs' x = queued sqs x" if "x \<notin> address ` set (m # ms)" for x
    using that IH(2) [of x] r(3) [of x] by simp
  ultimately show ?case using IH(1) r(2) by simp
qed simp

section \<open>Properties\<close>

lemma handle_trsync_state_parsed:
  assumes "handle_trsync_state i data td = Some td'" and "msgblock_decode 5 data (length data) = Some (0, [tag, tdm_trsync_oid (td_tdm_list td ! i), can_trigger, reason, clock])"
  shows "i < length (td_tdm_list td) \<and> td' = process_trsync_state i (td_tdm_list td ! i) can_trigger clock td"
proof -
  have i: "i < length (td_tdm_list td)" using assms(1) by (auto simp: handle_trsync_state_def split: list.splits) (metis drop_all list.distinct(1) not_le_imp_less)
  then have "drop i (td_tdm_list td) = td_tdm_list td ! i # drop (Suc i) (td_tdm_list td)" by (rule Cons_nth_drop_Suc [symmetric])
  with assms i show ?thesis by (simp add: handle_trsync_state_def)
qed


text \<open>
  C18.  A trigger reaches every controller exactly once: when a controller reports a trigger or a timeout
  while the test is running, one \<^verbatim>\<open>trsync_trigger\<close> message with the reason is queued for
  every controller, and all later reports are ignored.
\<close>

theorem trsync_trigger_reaches_all:
  assumes "handle_trsync_state i data td = Some td'"
    and "msgblock_decode 5 data (length data) = Some (0, [tag, tdm_trsync_oid (td_tdm_list td ! i), 0, reason, clock])"
    and "td_can_trigger td \<noteq> 0" and "distinct (map address (td_tdm_list td))"
  shows "(\<forall>m \<in> set (td_tdm_list td). queued (td_sqs td') (address m) =
      queued (td_sqs td) (address m) @ [vlq_bytes [tdm_trigger_msgtag m, tdm_trsync_oid m, td_dispatch_reason td]]) \<and>
    (\<forall>j data' td''. handle_trsync_state j data' td' = Some td'' \<longrightarrow> td'' = td')"
proof -
  have td': "td' = td\<lparr>td_can_trigger := 0, td_sqs := fold (send_trsync_trigger (td_dispatch_reason td)) (td_tdm_list td) (td_sqs td)\<rparr>"
    using handle_trsync_state_parsed [OF assms(1,2)] assms(3) by (simp add: process_trsync_state_def)
  then have "td'' = td'" if "handle_trsync_state j data' td' = Some td''" for j data' td''
    using that by (auto simp: handle_trsync_state_def process_trsync_state_def split: list.splits option.splits if_splits)
  moreover have "queued (td_sqs td') (address m) = queued (td_sqs td) (address m) @ [vlq_bytes [tdm_trigger_msgtag m, tdm_trsync_oid m, td_dispatch_reason td]]"
    if "m \<in> set (td_tdm_list td)" for m
    using queued_triggers [OF assms(4) that] by (simp add: td')
  ultimately show ?thesis by blast
qed

text \<open>Two controllers with a frequency of 1000 ticks per second.\<close>

definition sample_td :: trdispatch where
  "sample_td =
     trdispatch_start 4 (trdispatch_mcu_alloc 1 0 3 20 21 22 (trdispatch_mcu_alloc 0 0 3 20 21 22
       (trdispatch_alloc (\<lambda>_. serialqueue_set_clock_est 1000 0 0 0 (serialqueue_alloc SQT_UART 0)))))"

definition sample_report :: "u32 \<Rightarrow> u8 list" where
  "sample_report can_trigger = message_block MESSAGE_DEST (vlq_bytes [22, 3, can_trigger, 0, 100])"

lemma sample_decode:
  "msgblock_decode 5 (sample_report 0) (length (sample_report 0)) = Some (0, [22, 3, 0, 0, 100])"
  "msgblock_decode 5 (sample_report 1) (length (sample_report 1)) = Some (0, [22, 3, 1, 0, 100])"
  by code_simp+

lemma sample_list:
  "length (td_tdm_list sample_td) = 2" "tdm_trsync_oid (td_tdm_list sample_td ! 0) = 3" "td_can_trigger sample_td = 1"
  "map address (td_tdm_list sample_td) = [(0, 0), (1, 0)]" "td_dispatch_reason sample_td = 4"
  by (simp_all add: sample_td_def trdispatch_start_def trdispatch_mcu_alloc_def trdispatch_alloc_def Let_def address_def)

lemma sample_handles: "\<exists>td'. handle_trsync_state 0 (sample_report c) sample_td = Some td'" if "c = 0 \<or> c = 1"
  using that sample_list(1) sample_decode by (cases "td_tdm_list sample_td") (auto simp: handle_trsync_state_def)

theorem trsync_trigger_reaches_all_witness:
  "\<exists>td'. handle_trsync_state 0 (sample_report 0) sample_td = Some td' \<and>
     (\<forall>m \<in> set (td_tdm_list sample_td). vlq_bytes [tdm_trigger_msgtag m, tdm_trsync_oid m, 4] \<in> set (queued (td_sqs td') (address m)))"
proof -
  obtain td' where h: "handle_trsync_state 0 (sample_report 0) sample_td = Some td'" using sample_handles by blast
  have d: "msgblock_decode 5 (sample_report 0) (length (sample_report 0)) = Some (0, [22, tdm_trsync_oid (td_tdm_list sample_td ! 0), 0, 0, 100])"
    using sample_decode(1) sample_list(2) by simp
  have "td_can_trigger sample_td \<noteq> 0" "distinct (map address (td_tdm_list sample_td))" by (simp_all add: sample_list)
  from trsync_trigger_reaches_all [OF h d this] h show ?thesis by (auto simp: sample_list)
qed


end
