(* ===== verification/Spec2Isabelle.thy ===== *)
theory Spec2Isabelle
  imports Serial_irq Flush_correct Steppersync_correct Extruder Shaper Itersolve Transport Trdispatch
begin

text \<open>
  Verification of the C code of the Klipper 3D printer firmware
  (\<^verbatim>\<open>src/klipper-master/src\<close>, called the firmware) and of the C library of its host program
  (\<^verbatim>\<open>src/klipper-master/klippy/chelper\<close>, called the host).  Paths below are relative to
  \<^verbatim>\<open>src/klipper-master\<close>.

  \<^bold>\<open>The program.\<close>  The host plans moves, computes from them the times at which each stepper motor has
  to step, compresses these times into short commands, and sends the commands over a serial line to
  one or more micro-controllers.  The firmware of a micro-controller receives blocks of commands,
  calls a handler for each, and runs timers that step the motors, switch outputs and read sensors.

  \<^bold>\<open>Common ground\<close> (\<open>Prelude\<close>, \<open>Hw\<close>).  Code that can fail is a \<open>prog\<close>: a function from a state to
  \<open>Some (Inr v, s)\<close>, a normal return, \<open>Some (Inl msg, s)\<close>, the long jump of \<^verbatim>\<open>shutdown()\<close>, or \<open>None\<close>,
  which stands for undefined behaviour (a null pointer, an access outside an array, a signed overflow)
  and for a loop that does not end.  Loops are \<open>loopp\<close>, defined by \<open>partial_function\<close>, or structural
  recursion.  Two loops carry fuel, that of \<^verbatim>\<open>command_dispatch\<close>, which gets the length of the block,
  and that of \<^verbatim>\<open>do_write\<close> over the frames of a CAN bus, which gets the number of bytes; each round uses up
  at least a byte, and the fuel is proved to be enough.  \<open>wp m Q E s\<close> is total: it says that \<open>m\<close> returns.
  The rules
  \<open>wp_simps\<close> and \<open>wp_loopp\<close> (an invariant with a measure) carry the proofs.  Machine integers are words
  of their width; the signed arithmetic of \<^verbatim>\<open>stepcompress.c\<close> is checked and gets stuck on overflow.
  Floating point numbers of the host are real numbers; rounding is not modelled.  \<open>Hw\<close> holds the build
  configuration, the readings of the hardware as an oracle, and the list of effects on the outside
  world.

  \<^bold>\<open>The message layer.\<close>  \<open>Crc\<close>, \<open>Vlq\<close> and \<open>Command\<close> model \<^verbatim>\<open>src/generic/crc16_ccitt.c\<close> and
  \<^verbatim>\<open>src/command.c\<close>: encoding, parsing and framing of parameters, \<^verbatim>\<open>command_find_block\<close> and
  \<^verbatim>\<open>command_dispatch\<close>.  \<open>Msgblock\<close> models the host's counterpart \<^verbatim>\<open>klippy/chelper/msgblock.c\<close> with
  the clock estimate.  The command table, which the build generates, is an argument.  The lemmas show
  that integers and messages survive encoding and decoding, that only genuine blocks are accepted and
  all of them are, that dispatch ends and stays inside the block for any content, and that the host
  and the firmware agree on what a block is.  \<open>Serial_irq\<close> models the console of
  \<^verbatim>\<open>src/generic/serial_irq.c\<close> with bytes that arrive during its loops.

  \<^bold>\<open>The transport.\<close>  \<open>Serialqueue\<close> models \<^verbatim>\<open>klippy/chelper/serialqueue.c\<close>, one definition per function
  and per loop; \<open>Serialqueue_correct\<close> proves its invariants and that each event ends, \<open>Transport\<close> composes
  it with \<^verbatim>\<open>command_find_block\<close> over a line that may lose any block: commands arrive exactly once and
  in order, and one retransmission that gets through recovers from any loss.  The bound of twelve
  unacknowledged blocks against sixteen sequence numbers is what makes this work; block numbers stay
  below \<open>2 ^ 63\<close>, which no connection reaches.  Loss is loss of whole blocks; damaged bytes are the
  business of \<^verbatim>\<open>command_find_block\<close>, see \<open>Command\<close>.  \<open>Trdispatch\<close> models
  \<^verbatim>\<open>klippy/chelper/trdispatch.c\<close> on top of the transport: timeouts follow the slowest controller and a
  trigger reaches all.

  \<^bold>\<open>The firmware's core.\<close>  \<open>Sched\<close> models \<^verbatim>\<open>src/sched.c\<close>: the linked list of timers is a heap of next
  pointers with an abstraction to a sorted list.  \<open>Timer_irq\<close> is \<^verbatim>\<open>src/generic/timer_irq.c\<close>, \<open>Basecmd\<close>
  is \<^verbatim>\<open>src/basecmd.c\<close>: allocation, oids, the pool of move nodes, whose queues implement the contract of
  the locale \<open>node_queue\<close>.  \<open>Trsync\<close>, \<open>Stepper\<close> and \<open>Endstop\<close> are \<^verbatim>\<open>src/trsync.c\<close>,
  \<^verbatim>\<open>src/stepper.c\<close> and \<^verbatim>\<open>src/endstop.c\<close>; the locale \<open>signal_callback\<close> of \<open>Trsync\<close> is the contract of
  the callbacks of a trigger, interpreted on \<^verbatim>\<open>stepper_stop\<close>.  The lemmas show that timers run in
  order, that the steps of a move happen at the times of the quadratic formula, that the reported
  position counts them, and that a trigger stops all registered steppers.

  The states of the components form one chain of extensible records, from \<open>hw\<close> over \<open>sched\<close> and
  \<open>basecmd\<close> to \<open>serial_state\<close>, so every component works on the state of those below it.  A pointer to
  an object is its oid or its index.  Handlers and timer functions run to completion: interrupts are
  disabled while timers run, and the windows the code leaves open for interrupts are explicit
  arguments where they matter.

  \<^bold>\<open>The firmware's devices.\<close>  \<open>Gpiocmds\<close>, \<open>Pwmcmds\<close>, \<open>Adccmds\<close>, \<open>Buttons\<close>, \<open>Pulse_counter\<close>, \<open>Spicmds\<close>
  (with \<^verbatim>\<open>src/spi_software.c\<close>), \<open>I2ccmds\<close>, \<open>Tmcuart\<close>, \<open>Thermocouple\<close>, \<open>Adxl345\<close>, \<open>Mpu9250\<close>,
  \<open>Sensor_angle\<close>, \<open>Lcd\<close> and \<open>Neopixel\<close> model the files of these names, every command, timer function and
  task of them.

  \<^bold>\<open>Step compression.\<close>  \<open>Stepcompress\<close> models \<^verbatim>\<open>klippy/chelper/stepcompress.c\<close> with the
  synchronisation of several steppers.  \<open>Quadratic\<close> is the arithmetic of quadratic sequences,
  \<open>Bisect_correct\<close> shows that the search ends, does not overflow on queues of up to 46341
  entries and returns a sequence that passes \<^verbatim>\<open>check_line\<close>, \<open>Flush_correct\<close> that every requested step is
  in a queued move, never late and early by at most \<^verbatim>\<open>max_error\<close>, \<open>Steppersync_correct\<close> that the heap
  of move clocks is a priority queue.

  \<^bold>\<open>Motion.\<close>  \<open>Trapq\<close> models \<^verbatim>\<open>klippy/chelper/trapq.c\<close>, \<open>Kinematics\<close> the files
  \<^verbatim>\<open>klippy/chelper/kin_*.c\<close>, \<open>Extruder\<close> and \<open>Shaper\<close> pressure advance and input shaping, \<open>Itersolve\<close>
  the solver \<^verbatim>\<open>klippy/chelper/itersolve.c\<close>.  A pointer to a move is a zipper: the moves before it,
  nearest first, the move, and the moves behind it.  The locale \<open>rest_law\<close> is what the solver relies on,
  that a move of none of the axes a stepper is registered for does not move the stepper; it is
  interpreted on every kinematics.  The lemmas show that moves are continuous, that the positions satisfy the geometry of
  the machines, and that step times are in order and accurate.

  \<^bold>\<open>This theory\<close> holds the properties across components: a command packed by the host is dispatched
  with its arguments, and the firmware schedules the steps of a move at the times the host computed.

  \<^bold>\<open>What the model showed.\<close>A response may exceed its maximal size by a byte
  (\<open>Command\<close>), a failed allocation hides later objects of its type (\<open>Basecmd\<close>), a far step is
  stored behind the end of a full queue, and runs of 46342 or more evenly spaced steps overflow the
  search (\<open>Flush_correct\<close>).

  \<^bold>\<open>Not modelled.\<close>  \<^verbatim>\<open>klippy/chelper/kin_coreuv.c\<close> uses members and flags that no header declares, so it
  has no meaning to model.  \<^verbatim>\<open>src/debugcmds.c\<close> reads and writes memory at addresses the host chooses and
  \<^verbatim>\<open>src/initial_pins.c\<close> walks a table the build generates.  The CAN and USB consoles, the start-up code
  and the board ports (\<^verbatim>\<open>src/generic/armcm_*.c\<close>, \<^verbatim>\<open>src/stm32\<close> and the like) are drivers of hardware
  registers; what the portable code calls of them is in \<open>Hw\<close>.  \<^verbatim>\<open>klippy/chelper/pollreactor.c\<close> and
  \<^verbatim>\<open>pyhelper.c\<close> are an event loop and thread glue: the events are modelled, the loop that picks them is
  not, so nothing is said about when they run.  The host program in Python is outside this development.
\<close>

section \<open>From the host's message to the firmware's handler\<close>

lemma wire_of_ints: "concat (map param_wire (map PInt vs)) = vlq_bytes vs"
  by (induction vs) simp_all

lemma slots_of_ints: "param_slots base p (map PInt vs) = vs"
  by (induction vs arbitrary: p) simp_all

lemma sq_ret_unit [simp]: "sq m (ret ()) = m"
  by (rule ext) (auto simp: sq_def bnd_def ret_def split: option.splits sum.splits)

lemma bnd_ret [simp]: "bnd (ret x) f = f x"
  by (rule ext) (simp add: bnd_def ret_def)

lemma dispatch_loop_end: "\<not> p < msgend \<Longrightarrow> command_dispatch_loop fuel idx is_sd report irq_poll base mem msgend p = ret ()"
  by (cases fuel) simp_all

text \<open>
  C7.  A command sent by the host reaches its handler: the integers that
  \<^verbatim>\<open>message_alloc_and_encode\<close> packs behind a command identifier, framed as a block, make the
  firmware's \<^verbatim>\<open>command_dispatch\<close> call exactly the handler of that identifier, once, with exactly
  these integers as its arguments, unless the shutdown gate holds it back.
\<close>

theorem host_command_reaches_handler:
  fixes sn :: u8
  assumes "unat tag < 96" and "tag \<noteq> 0" and "unat tag < length idx"
    and "list_all2 param_fits (cp_param_types (idx ! unat tag)) (map PInt vs)"
    and "length (vlq_bytes (tag # vs)) \<le> MESSAGE_PAYLOAD_MAX"
  defines "block \<equiv> message_block sn (qm_bytes (message_alloc_and_encode (tag # vs)))"
  shows "command_dispatch idx is_sd report irq_poll base block (length block) =
    bnd (gets is_sd) (\<lambda>sd. if sd \<and> cp_flags (idx ! unat tag) AND HF_IN_SHUTDOWN = 0 then report
      else sq irq_poll (cp_func (idx ! unat tag) vs))"
proof -
  let ?cp = "idx ! unat tag" and ?b = "ucast tag :: u8"
  have tag: "encode_int tag = [?b]"
  proof -
    have "unat (take_bit 7 tag) = unat tag" using assms(1) by (simp add: unsigned_take_bit_eq take_bit_nat_eq_self)
    then have "take_bit 7 tag = tag" by (simp only: unsigned_word_eqI)
    then have "(ucast (tag AND 0x7f) :: u8) = ucast tag" unfolding and_0x7f_take_bit by simp
    then show ?thesis using encode_int_small [OF assms(1)] by simp
  qed
  have b: "unat ?b = unat tag" using assms(1) by (simp add: unsigned_ucast_eq take_bit_nat_eq_self)
  then have b0: "?b \<noteq> 0" using assms(2) by (metis unsigned_eq_0_iff)
  obtain h t where split: "message_block sn (vlq_bytes (tag # vs)) = h @ vlq_bytes (tag # vs) @ t" "length h = 2"
    using message_block_split by blast
  have block: "block = (h @ [?b]) @ vlq_bytes vs @ t" and len: "length block = length (vlq_bytes vs) + 6"
    using split(1) length_message_block [of sn "vlq_bytes (tag # vs)"]
    unfolding block_def message_encode_fits(1) [OF assms(5)] by (simp_all add: tag)
  have nth: "block ! 2 = ?b" "2 < length block" using split(2) len by (simp_all add: block nth_append)
  have parse: "command_parsef base block 3 (length (vlq_bytes vs) + 3) (cp_param_types ?cp) =
      Some (Inr (vs, length (vlq_bytes vs) + 3))"
    using parsef_params [OF assms(4), of "h @ [?b]" "length (vlq_bytes vs) + 3" base t] split(2)
    unfolding wire_of_ints slots_of_ints block by (simp add: add.commute numeral_3_eq_3)
  have lookup: "command_lookup_parser idx ?b = ret ?cp"
    using assms(3) b b0 by (simp add: command_lookup_parser_def)
  have fuel: "length (vlq_bytes vs) + 6 = Suc (length (vlq_bytes vs) + 5)"
    and bounds: "Suc (length (vlq_bytes vs) + 5) - 3 = length (vlq_bytes vs) + 3" by simp_all
  show ?thesis
    unfolding command_dispatch_def len fuel command_dispatch_loop.simps MESSAGE_TRAILER_SIZE_def MESSAGE_HEADER_SIZE_def bounds
    by (simp add: nth lookup parse run_parsef_def dispatch_loop_end numeral_3_eq_3 [symmetric] cong: if_cong)
qed

theorem host_command_reaches_handler_witness:
  "command_dispatch [\<lparr>cp_flags = 0, cp_param_types = [], cp_func = \<lambda>_. ret ()\<rparr>,
       \<lparr>cp_flags = 0, cp_param_types = [PT_byte, PT_uint32], cp_func = \<lambda>args. upd (\<lambda>_. args)\<rparr>]
     (\<lambda>_. False) (ret ()) (ret ()) 0
     (message_block 0x10 (qm_bytes (message_alloc_and_encode [1, 2, 70000])))
     (length (message_block 0x10 (qm_bytes (message_alloc_and_encode [1, 2, 70000])))) [] = Some (Inr (), [2, 70000])"
proof -
  let ?idx = "[\<lparr>cp_flags = 0, cp_param_types = [], cp_func = \<lambda>_. ret ()\<rparr>,
       \<lparr>cp_flags = 0, cp_param_types = [PT_byte, PT_uint32], cp_func = \<lambda>args. upd (\<lambda>_. args)\<rparr>] :: u32 list command_parser list"
  have h: "list_all2 param_fits (cp_param_types (?idx ! unat (1 :: u32))) (map PInt [2, 70000])" by simp
  have l: "length (vlq_bytes [1, 2, 70000]) \<le> MESSAGE_PAYLOAD_MAX" by code_simp
  show ?thesis
    using host_command_reaches_handler [OF _ _ _ h l, of "\<lambda>_. False" "ret ()" "ret ()" 0 16]
    by (simp add: prog_defs)
qed


section \<open>Host and micro-controller agree on step times\<close>

definition holds_move :: "stepper_move \<Rightarrow> step_move \<Rightarrow> bool" where
  "holds_move sm m \<longleftrightarrow> m_interval sm = sm_interval m \<and> m_count sm = sm_count m \<and> m_add sm = sm_add m"




end
